theory Spec2Isabelle
  imports Complex_Main "HOL-Library.Log_Nat"
begin

chapter \<open>The model\<close>

section \<open>JavaScript strings\<close>

text \<open>
  A JavaScript string is a sequence of UTF-16 code units.  A code unit is modelled by
  its number, so that the Chinese header keywords of \<open>fetchCSV\<close> and the invisible
  characters removed by \<open>smartParseDate\<close> can be written down.  \<open>lit\<close> turns
  an ASCII literal into such a sequence.
\<close>

type_synonym jsstring = "nat list"

definition lit :: "string \<Rightarrow> jsstring" where
  "lit s = map of_char s"

definition DQUOTE :: nat where "DQUOTE = 34"
definition COMMA :: nat where "COMMA = 44"
definition LF :: nat where "LF = 10"
definition CR :: nat where "CR = 13"

section \<open>CSV decoder: \<open>robustParseCSV\<close>\<close>

text \<open>
  The loop of \<open>robustParseCSV\<close> (App.tsx, lines 68 to 85) over the characters that
  are left, with the local variables \<open>result\<close>, \<open>row\<close>, \<open>col\<close> and
  \<open>inQuotes\<close> passed along.  \<open>nextIs cs x\<close> is the test \<open>nextChar === x\<close>:
  it is false at the end of the text, where \<open>text[i + 1]\<close> is \<open>undefined\<close>.
  The \<open>i++\<close> of the source skips the head of the remaining text.
\<close>

definition nextIs :: "jsstring \<Rightarrow> nat \<Rightarrow> bool" where
  "nextIs cs x = (case cs of [] \<Rightarrow> False | n # _ \<Rightarrow> n = x)"

definition pushRow :: "jsstring list list \<Rightarrow> jsstring list \<Rightarrow> jsstring list list" where
  \<comment> \<open>\<open>if (row.length > 0) result.push(row)\<close>\<close>
  "pushRow result row = (if length row > 0 then result @ [row] else result)"

function csvLoop ::
  "jsstring list list \<Rightarrow> jsstring list \<Rightarrow> jsstring \<Rightarrow> bool \<Rightarrow> jsstring
    \<Rightarrow> jsstring list list \<times> jsstring list \<times> jsstring" where
  "csvLoop result row col inQuotes [] = (result, row, col)"
| "csvLoop result row col inQuotes (c # cs) =
     (if inQuotes then
        if c = DQUOTE \<and> nextIs cs DQUOTE then csvLoop result row (col @ [DQUOTE]) True (tl cs)
        else if c = DQUOTE then csvLoop result row col False cs
        else csvLoop result row (col @ [c]) True cs
      else
        if c = DQUOTE then csvLoop result row col True cs
        else if c = COMMA then csvLoop result (row @ [col]) [] False cs
        else if c = LF \<or> c = CR then
          csvLoop (pushRow result (row @ [col])) [] [] False
            (if c = CR \<and> nextIs cs LF then tl cs else cs)
        else csvLoop result row (col @ [c]) False cs)"
  by pat_completeness auto
termination
  by (relation "measure (\<lambda>(result, row, col, inQuotes, cs). length cs)") auto

definition robustParseCSV :: "jsstring \<Rightarrow> jsstring list list" where
  "robustParseCSV text =
     (case csvLoop [] [] [] False text of
        (result, row, col) \<Rightarrow>
          if col \<noteq> [] \<or> length row > 0 then result @ [row @ [col]] else result)"

subsection \<open>The encoder of the specification\<close>

text \<open>
  The standard CSV convention named by the specification, written from its words: cells
  are separated by a comma, every row is ended by a line feed, a cell is quoted when it
  holds a comma, a quote or a line break character (line feed or carriage return), and
  a quote inside a quoted cell is doubled.
\<close>

definition needsQuote :: "jsstring \<Rightarrow> bool" where
  "needsQuote cell = (\<exists>c \<in> set cell. c = COMMA \<or> c = DQUOTE \<or> c = LF \<or> c = CR)"

definition escapeQuotes :: "jsstring \<Rightarrow> jsstring" where
  "escapeQuotes cell = concat (map (\<lambda>c. if c = DQUOTE then [DQUOTE, DQUOTE] else [c]) cell)"

definition encodeCell :: "jsstring \<Rightarrow> jsstring" where
  "encodeCell cell =
     (if needsQuote cell then DQUOTE # escapeQuotes cell @ [DQUOTE] else cell)"

fun encodeCells :: "jsstring list \<Rightarrow> jsstring" where
  "encodeCells [] = []"
| "encodeCells [c] = encodeCell c"
| "encodeCells (c # cs) = encodeCell c @ COMMA # encodeCells cs"

definition encodeRow :: "jsstring list \<Rightarrow> jsstring" where
  "encodeRow row = encodeCells row @ [LF]"

definition encodeCSV :: "jsstring list list \<Rightarrow> jsstring" where
  "encodeCSV rows = concat (map encodeRow rows)"


section \<open>JavaScript numbers\<close>

text \<open>
  A Number is an IEEE 754 binary64 value.  The finite values are modelled by the
  rationals they denote, so \<open>Fin x\<close> stands for a double only when \<open>x\<close> is one;
  every operation below rounds its exact result with \<open>toDouble\<close>, to the nearest
  double, ties to the even significand, as the language requires.  The two zeros are
  one value, \<open>Fin 0\<close>: the code modelled here never divides by a zero and never
  prints one, and it treats both alike everywhere else.
\<close>

datatype number = NaN | PInf | NInf | Fin rat

definition roundHalfEven :: "rat \<Rightarrow> int" where
  "roundHalfEven r =
     (let f = \<lfloor>r\<rfloor>; d = r - of_int f
      in if d < 1 / 2 then f else if 1 / 2 < d then f + 1 else if even f then f else f + 1)"

definition ilog2 :: "rat \<Rightarrow> int" where
  \<comment> \<open>the exponent \<open>e\<close> with \<open>2\<^sup>e \<le> x < 2\<^sup>e\<^sup>+\<^sup>1\<close>, for a positive \<open>x\<close>\<close>
  "ilog2 x =
     (case quotient_of x of
        (p, q) \<Rightarrow> let k = bitlen p - bitlen q in if 2 powi k \<le> x then k else k - 1)"

definition roundPos :: "rat \<Rightarrow> rat" where
  \<comment> \<open>a positive \<open>a\<close> rounded to 53 bits of significand, with the exponent no smaller
      than \<open>-1022\<close> (subnormals below)\<close>
  "roundPos a =
     (let e = max (ilog2 a) (- 1022); ulp = 2 powi (e - 52)
      in of_int (roundHalfEven (a / ulp)) * ulp)"

definition toDouble :: "rat \<Rightarrow> number" where
  \<comment> \<open>the rounded magnitude overflows to an infinity from \<open>2\<^sup>1\<^sup>0\<^sup>2\<^sup>4\<close> on\<close>
  "toDouble x =
     (if x = 0 then Fin 0
      else
        let y = roundPos \<bar>x\<bar>
        in if 2 powi 1024 \<le> y then (if 0 < x then PInf else NInf)
           else Fin (if 0 < x then y else - y))"

definition isDouble :: "number \<Rightarrow> bool" where
  \<comment> \<open>the values that are Numbers: \<open>Fin x\<close> only for an \<open>x\<close> that rounding leaves as it is\<close>
  "isDouble n = (case n of Fin x \<Rightarrow> toDouble x = Fin x | _ \<Rightarrow> True)"

fun jsNeg :: "number \<Rightarrow> number" where
  "jsNeg NaN = NaN"
| "jsNeg PInf = NInf"
| "jsNeg NInf = PInf"
| "jsNeg (Fin x) = Fin (- x)"

fun jsAdd :: "number \<Rightarrow> number \<Rightarrow> number" where
  "jsAdd (Fin x) (Fin y) = toDouble (x + y)"
| "jsAdd NaN _ = NaN"
| "jsAdd _ NaN = NaN"
| "jsAdd PInf NInf = NaN"
| "jsAdd NInf PInf = NaN"
| "jsAdd PInf _ = PInf"
| "jsAdd _ PInf = PInf"
| "jsAdd NInf _ = NInf"
| "jsAdd _ NInf = NInf"

definition jsSub :: "number \<Rightarrow> number \<Rightarrow> number" where
  "jsSub a b = jsAdd a (jsNeg b)"

fun jsSign :: "number \<Rightarrow> int" where
  "jsSign PInf = 1"
| "jsSign NInf = - 1"
| "jsSign (Fin x) = (if 0 < x then 1 else if x < 0 then - 1 else 0)"
| "jsSign NaN = 0"

fun jsMul :: "number \<Rightarrow> number \<Rightarrow> number" where
  "jsMul (Fin x) (Fin y) = toDouble (x * y)"
| "jsMul NaN _ = NaN"
| "jsMul _ NaN = NaN"
| "jsMul a b =
     (if jsSign a * jsSign b = 0 then NaN else if 0 < jsSign a * jsSign b then PInf else NInf)"

fun jsDiv :: "number \<Rightarrow> number \<Rightarrow> number" where
  "jsDiv (Fin x) (Fin y) =
     (if y = 0 then (if x = 0 then NaN else if 0 < x then PInf else NInf)
      else toDouble (x / y))"
| "jsDiv NaN _ = NaN"
| "jsDiv _ NaN = NaN"
| "jsDiv (Fin x) _ = Fin 0"
| "jsDiv a (Fin y) = (if (0 \<le> y) = (a = PInf) then PInf else NInf)"
| "jsDiv _ _ = NaN"

fun jsLt :: "number \<Rightarrow> number \<Rightarrow> bool" where
  "jsLt (Fin x) (Fin y) = (x < y)"
| "jsLt NaN _ = False"
| "jsLt _ NaN = False"
| "jsLt NInf b = (b \<noteq> NInf)"
| "jsLt a PInf = (a \<noteq> PInf)"
| "jsLt _ _ = False"

definition jsLe :: "number \<Rightarrow> number \<Rightarrow> bool" where
  "jsLe a b = (a \<noteq> NaN \<and> b \<noteq> NaN \<and> \<not> jsLt b a)"

definition jsGt :: "number \<Rightarrow> number \<Rightarrow> bool" where
  "jsGt a b = jsLt b a"

definition jsGe :: "number \<Rightarrow> number \<Rightarrow> bool" where
  "jsGe a b = jsLe b a"

definition truthy :: "number \<Rightarrow> bool" where
  \<comment> \<open>a Number is falsy when it is a zero or NaN\<close>
  "truthy n = (n \<noteq> NaN \<and> n \<noteq> Fin 0)"

definition orZero :: "number \<Rightarrow> number" where
  \<comment> \<open>\<open>n || 0\<close>\<close>
  "orZero n = (if truthy n then n else Fin 0)"

fun isFinite :: "number \<Rightarrow> bool" where
  "isFinite (Fin x) = True"
| "isFinite _ = False"

fun mathRound :: "number \<Rightarrow> number" where
  \<comment> \<open>\<open>Math.round\<close>: the nearest integer, a tie going up\<close>
  "mathRound (Fin x) = Fin (of_int \<lfloor>x + 1 / 2\<rfloor>)"
| "mathRound n = n"

definition mathMin :: "number \<Rightarrow> number \<Rightarrow> number" where
  "mathMin a b = (if a = NaN \<or> b = NaN then NaN else if jsLt b a then b else a)"

fun toIntegerOrInfinity :: "number \<Rightarrow> number" where
  \<comment> \<open>truncation towards zero; NaN becomes 0\<close>
  "toIntegerOrInfinity (Fin x) = Fin (of_int (if 0 \<le> x then \<lfloor>x\<rfloor> else \<lceil>x\<rceil>))"
| "toIntegerOrInfinity NaN = Fin 0"
| "toIntegerOrInfinity n = n"

fun toFixed1Parsed :: "number \<Rightarrow> number" where
  \<comment> \<open>\<open>parseFloat(t.toFixed(1))\<close>: below \<open>10\<^sup>2\<^sup>1\<close> in magnitude \<open>toFixed(1)\<close> prints
      the integer \<open>n\<close> nearest to ten times the magnitude (the larger one at a tie) as
      the decimal \<open>n / 10\<close>, and \<open>parseFloat\<close> reads that decimal back; from
      \<open>10\<^sup>2\<^sup>1\<close> on, and for NaN and the infinities, it prints the Number as
      \<open>String\<close> does, which reads back as the same Number\<close>
  "toFixed1Parsed (Fin x) =
     (if 10 ^ 21 \<le> \<bar>x\<bar> then Fin x
      else toDouble ((if x < 0 then - 1 else 1) * of_int \<lfloor>\<bar>x\<bar> * 10 + 1 / 2\<rfloor> / 10))"
| "toFixed1Parsed n = n"

section \<open>Reading numbers from strings\<close>

definition isWhiteSpace :: "nat \<Rightarrow> bool" where
  \<comment> \<open>the white space and line terminator code units: what \<open>trim\<close> strips and
      the \<open>\s\<close> of a regular expression matches\<close>
  "isWhiteSpace c =
     ((9 \<le> c \<and> c \<le> 13) \<or> c = 32 \<or> c = 160 \<or> c = 5760 \<or> (8192 \<le> c \<and> c \<le> 8202)
      \<or> c = 8232 \<or> c = 8233 \<or> c = 8239 \<or> c = 8287 \<or> c = 12288 \<or> c = 65279)"

definition trimStart :: "jsstring \<Rightarrow> jsstring" where
  "trimStart s = dropWhile isWhiteSpace s"

definition trim :: "jsstring \<Rightarrow> jsstring" where
  "trim s = rev (dropWhile isWhiteSpace (rev (dropWhile isWhiteSpace s)))"

definition isDigit :: "nat \<Rightarrow> bool" where
  \<comment> \<open>\<open>\d\<close>: the ASCII digits\<close>
  "isDigit c = (48 \<le> c \<and> c \<le> 57)"

definition digitsValue :: "jsstring \<Rightarrow> nat" where
  "digitsValue ds = foldl (\<lambda>a c. 10 * a + (c - 48)) 0 ds"

definition splitSign :: "jsstring \<Rightarrow> bool \<times> jsstring" where
  \<comment> \<open>an optional \<open>+\<close> or \<open>-\<close>; the flag says that the sign is \<open>-\<close>\<close>
  "splitSign s =
     (case s of
        c # cs \<Rightarrow> if c = 45 then (True, cs) else if c = 43 then (False, cs) else (False, s)
      | [] \<Rightarrow> (False, s))"

definition exponentPart :: "jsstring \<Rightarrow> int \<times> jsstring" where
  \<comment> \<open>\<open>e\<close> or \<open>E\<close>, an optional sign, digits; without digits there is no exponent
      part and nothing is consumed\<close>
  "exponentPart s =
     (case s of
        c # cs \<Rightarrow>
          if c = 101 \<or> c = 69 then
            (case splitSign cs of
               (neg, r) \<Rightarrow>
                 let ds = takeWhile isDigit r
                 in if ds = [] then (0, s)
                    else ((if neg then - int (digitsValue ds) else int (digitsValue ds)),
                          dropWhile isDigit r))
          else (0, s)
      | [] \<Rightarrow> (0, s))"

definition strUnsignedDecimalLiteral :: "jsstring \<Rightarrow> (rat option \<times> jsstring) option" where
  \<comment> \<open>the longest prefix that is a \<open>StrUnsignedDecimalLiteral\<close>, with the text left
      over: \<open>None\<close> when there is none, \<open>Some (None, rest)\<close> for \<open>Infinity\<close>, otherwise
      the exact value of the decimal\<close>
  "strUnsignedDecimalLiteral s =
     (if take 8 s = lit ''Infinity'' then Some (None, drop 8 s)
      else
        let ip = takeWhile isDigit s;
            r1 = dropWhile isDigit s;
            hasDot = nextIs r1 46;
            fp = (if hasDot then takeWhile isDigit (tl r1) else []);
            r2 = (if hasDot then dropWhile isDigit (tl r1) else r1)
        in if ip = [] \<and> fp = [] then None
           else
             (case exponentPart r2 of
                (ex, r3) \<Rightarrow>
                  Some (Some (of_nat (digitsValue (ip @ fp)) * 10 powi (ex - int (length fp))),
                        r3)))"

definition signedValue :: "bool \<Rightarrow> rat option \<Rightarrow> number" where
  "signedValue neg v =
     (case v of
        None \<Rightarrow> if neg then NInf else PInf
      | Some x \<Rightarrow> toDouble (if neg then - x else x))"

definition parseFloat :: "jsstring \<Rightarrow> number" where
  \<comment> \<open>leading white space is skipped; the longest prefix that is a decimal literal
      gives the value, and NaN is returned when there is none\<close>
  "parseFloat s =
     (case splitSign (trimStart s) of
        (neg, u) \<Rightarrow>
          (case strUnsignedDecimalLiteral u of
             None \<Rightarrow> NaN
           | Some (v, rest) \<Rightarrow> signedValue neg v))"

definition radixDigit :: "nat \<Rightarrow> nat option" where
  "radixDigit c =
     (if isDigit c then Some (c - 48)
      else if 97 \<le> c \<and> c \<le> 102 then Some (c - 87)
      else if 65 \<le> c \<and> c \<le> 70 then Some (c - 55)
      else None)"

definition radixValue :: "nat \<Rightarrow> jsstring \<Rightarrow> number" where
  \<comment> \<open>the digits of a \<open>0x\<close>, \<open>0o\<close> or \<open>0b\<close> literal; NaN unless all are digits of the radix\<close>
  "radixValue radix ds =
     (if ds \<noteq> [] \<and> (\<forall>c \<in> set ds. case radixDigit c of None \<Rightarrow> False | Some v \<Rightarrow> v < radix)
      then toDouble (of_nat (foldl (\<lambda>a c. radix * a + the (radixDigit c)) 0 ds))
      else NaN)"

definition stringToNumber :: "jsstring \<Rightarrow> number" where
  \<comment> \<open>\<open>Number(s)\<close> of a string: white space is trimmed at both ends, the empty string
      is 0, and the whole rest has to be one numeric literal\<close>
  "stringToNumber s =
     (let t = trim s
      in if t = [] then Fin 0
         else if take 2 t = lit ''0x'' \<or> take 2 t = lit ''0X'' then radixValue 16 (drop 2 t)
         else if take 2 t = lit ''0o'' \<or> take 2 t = lit ''0O'' then radixValue 8 (drop 2 t)
         else if take 2 t = lit ''0b'' \<or> take 2 t = lit ''0B'' then radixValue 2 (drop 2 t)
         else
           (case splitSign t of
              (neg, u) \<Rightarrow>
                (case strUnsignedDecimalLiteral u of
                   Some (v, []) \<Rightarrow> signedValue neg v
                 | _ \<Rightarrow> NaN)))"

section \<open>Numeric normalizer: \<open>parseNumberSafe\<close>\<close>

definition parseNumberSafe :: "jsstring option \<Rightarrow> number" where
  \<comment> \<open>the argument is \<open>None\<close> when the cell read from the row is \<open>undefined\<close>\<close>
  "parseNumberSafe str =
     (case str of
        None \<Rightarrow> Fin 0
      | Some s \<Rightarrow>
          if s = [] then Fin 0
          else orZero (parseFloat (filter (\<lambda>c. c \<noteq> COMMA) s)))"

section \<open>The host environment\<close>

text \<open>
  What the language leaves to the implementation and its locale is a parameter of the
  model: the case mapping behind \<open>String.prototype.toLowerCase\<close>, the offset of
  local time from UTC in milliseconds (taken as constant, as it is for India Standard
  Time, the factory time of the dashboard), and the parser behind \<open>new Date(string)\<close>,
  whose result for text outside the ISO format is implementation-defined.
\<close>

datatype jsDate = InvalidDate | Date int
  \<comment> \<open>a Date object: its time value in milliseconds since the epoch, UTC, or NaN\<close>

record host =
  toLowerCase :: "jsstring \<Rightarrow> jsstring"
  localTZA :: int
  dateParse :: "jsstring \<Rightarrow> jsDate"

definition asciiLower :: "jsstring \<Rightarrow> jsstring" where
  \<comment> \<open>the case mapping on the letters A to Z\<close>
  "asciiLower s = map (\<lambda>c. if 65 \<le> c \<and> c \<le> 90 then c + 32 else c) s"

definition hostIST :: host where
  \<comment> \<open>a host for the examples: UTC+05:30, and a string parser that accepts nothing\<close>
  "hostIST = \<lparr>toLowerCase = asciiLower, localTZA = 19800000, dateParse = (\<lambda>s. InvalidDate)\<rparr>"

section \<open>Dates: the calendar of the language\<close>

text \<open>
  The day and time functions of the language specification on integers.  Division of
  integers rounds down, as \<open>floor\<close> does there.  \<open>yearFromDay\<close> computes the year
  that the specification describes as the largest \<open>y\<close> with
  \<open>dayFromYear y \<le> d\<close>: an estimate from the mean length of a year, corrected by
  at most one.
\<close>

definition msPerDay :: int where "msPerDay = 86400000"
definition msPerHour :: int where "msPerHour = 3600000"
definition msPerMinute :: int where "msPerMinute = 60000"

definition day :: "int \<Rightarrow> int" where
  "day t = t div msPerDay"

definition timeWithinDay :: "int \<Rightarrow> int" where
  "timeWithinDay t = t mod msPerDay"

definition hourFromTime :: "int \<Rightarrow> int" where
  "hourFromTime t = (t div msPerHour) mod 24"

definition minFromTime :: "int \<Rightarrow> int" where
  "minFromTime t = (t div msPerMinute) mod 60"

definition isLeapYear :: "int \<Rightarrow> bool" where
  "isLeapYear y = ((y mod 4 = 0 \<and> y mod 100 \<noteq> 0) \<or> y mod 400 = 0)"


definition dayFromYear :: "int \<Rightarrow> int" where
  "dayFromYear y =
     365 * (y - 1970) + (y - 1969) div 4 - (y - 1901) div 100 + (y - 1601) div 400"

definition yearFromDay :: "int \<Rightarrow> int" where
  "yearFromDay d =
     (let y = 1970 + (400 * d) div 146097
      in if d < dayFromYear y then y - 1 else if dayFromYear (y + 1) \<le> d then y + 1 else y)"

definition monthStart :: "int \<Rightarrow> bool \<Rightarrow> int" where
  \<comment> \<open>the number of days of the year before month \<open>m\<close> (0 is January)\<close>
  "monthStart m leap =
     (let l = (if leap then 1 else 0)
      in if m = 0 then 0 else if m = 1 then 31 else if m = 2 then 59 + l
         else if m = 3 then 90 + l else if m = 4 then 120 + l else if m = 5 then 151 + l
         else if m = 6 then 181 + l else if m = 7 then 212 + l else if m = 8 then 243 + l
         else if m = 9 then 273 + l else if m = 10 then 304 + l else 334 + l)"

definition dayWithinYear :: "int \<Rightarrow> int" where
  "dayWithinYear d = d - dayFromYear (yearFromDay d)"

definition monthFromDay :: "int \<Rightarrow> int" where
  "monthFromDay d =
     (let w = dayWithinYear d; l = (if isLeapYear (yearFromDay d) then 1 else 0)
      in if w < 31 then 0 else if w < 59 + l then 1 else if w < 90 + l then 2
         else if w < 120 + l then 3 else if w < 151 + l then 4 else if w < 181 + l then 5
         else if w < 212 + l then 6 else if w < 243 + l then 7 else if w < 273 + l then 8
         else if w < 304 + l then 9 else if w < 334 + l then 10 else 11)"

definition dateFromDay :: "int \<Rightarrow> int" where
  "dateFromDay d =
     dayWithinYear d - monthStart (monthFromDay d) (isLeapYear (yearFromDay d)) + 1"

definition makeDay :: "int \<Rightarrow> int \<Rightarrow> int \<Rightarrow> int" where
  \<comment> \<open>\<open>MakeDay\<close> on integral arguments: months outside 0 to 11 carry into the year, and
      the day of the month counts on from the first of the month without a bound\<close>
  "makeDay year month date =
     (let ym = year + month div 12; mn = month mod 12
      in dayFromYear ym + monthStart mn (isLeapYear ym) + date - 1)"

definition makeTime :: "number \<Rightarrow> number \<Rightarrow> number" where
  \<comment> \<open>\<open>MakeTime(hour, min, 0, 0)\<close>, in Number arithmetic as the specification says\<close>
  "makeTime hour minute =
     (if isFinite hour \<and> isFinite minute then
        jsAdd
          (jsAdd
             (jsAdd (jsMul (toIntegerOrInfinity hour) (Fin 3600000))
                    (jsMul (toIntegerOrInfinity minute) (Fin 60000)))
             (jsMul (Fin 0) (Fin 1000)))
          (Fin 0)
      else NaN)"

definition makeDate :: "int \<Rightarrow> number \<Rightarrow> number" where
  "makeDate dy time =
     (if isFinite time then
        let tv = jsAdd (jsMul (Fin (of_int dy)) (Fin 86400000)) time
        in if isFinite tv then tv else NaN
      else NaN)"

definition timeClip :: "number \<Rightarrow> jsDate" where
  "timeClip n =
     (case n of
        Fin x \<Rightarrow>
          if \<bar>x\<bar> \<le> 8640000000000000 then Date (if 0 \<le> x then \<lfloor>x\<rfloor> else \<lceil>x\<rceil>)
          else InvalidDate
      | _ \<Rightarrow> InvalidDate)"

definition localTime :: "host \<Rightarrow> int \<Rightarrow> int" where
  "localTime env t = t + localTZA env"

definition utc :: "host \<Rightarrow> number \<Rightarrow> number" where
  "utc env t = jsSub t (Fin (of_int (localTZA env)))"

definition newDate :: "host \<Rightarrow> int \<Rightarrow> int \<Rightarrow> int \<Rightarrow> number \<Rightarrow> number \<Rightarrow> jsDate" where
  \<comment> \<open>\<open>new Date(y, m, dt, hour, minute)\<close> for integral \<open>y\<close>, \<open>m\<close> and \<open>dt\<close>, which
      is what the code passes: the value of a group of digits, or a field of a Date.  A
      year from 0 to 99 means a year of the twentieth century.\<close>
  "newDate env y m dt hour minute =
     (let yr = (if 0 \<le> y \<and> y \<le> 99 then 1900 + y else y)
      in timeClip (utc env (makeDate (makeDay yr m dt) (makeTime hour minute))))"

definition getFullYear :: "host \<Rightarrow> int \<Rightarrow> int" where
  "getFullYear env t = yearFromDay (day (localTime env t))"

definition getMonth :: "host \<Rightarrow> int \<Rightarrow> int" where
  "getMonth env t = monthFromDay (day (localTime env t))"

definition getDate :: "host \<Rightarrow> int \<Rightarrow> int" where
  "getDate env t = dateFromDay (day (localTime env t))"

definition getHours :: "host \<Rightarrow> int \<Rightarrow> int" where
  "getHours env t = hourFromTime (localTime env t)"

definition getMinutes :: "host \<Rightarrow> int \<Rightarrow> int" where
  "getMinutes env t = minFromTime (localTime env t)"

definition setDate :: "host \<Rightarrow> int \<Rightarrow> int \<Rightarrow> jsDate" where
  \<comment> \<open>\<open>d.setDate(dt)\<close> on a valid Date with time value \<open>t\<close>: the Date that results\<close>
  "setDate env t dt =
     (let lt = localTime env t
      in timeClip (utc env
           (makeDate (makeDay (yearFromDay (day lt)) (monthFromDay (day lt)) dt)
              (Fin (of_int (timeWithinDay lt))))))"

section \<open>Shift dates: \<open>formatDateToISO\<close> and \<open>getShiftDateString\<close>\<close>







section \<open>Temporal normalizer: \<open>smartParseDate\<close>\<close>

function splitWhiteSpace :: "jsstring \<Rightarrow> jsstring \<Rightarrow> jsstring list" where
  \<comment> \<open>\<open>s.split(/\s+/)\<close>, with the piece read so far: every maximal run of white space
      separates two pieces, so white space at the start or the end leaves an empty
      piece there\<close>
  "splitWhiteSpace piece [] = [piece]"
| "splitWhiteSpace piece (c # cs) =
     (if isWhiteSpace c then piece # splitWhiteSpace [] (dropWhile isWhiteSpace cs)
      else splitWhiteSpace (piece @ [c]) cs)"
  by pat_completeness auto
termination
  by (relation "measure (\<lambda>(piece, cs). length cs)")
    (auto simp: length_dropWhile_le less_Suc_eq_le)

fun splitOn :: "nat \<Rightarrow> jsstring \<Rightarrow> jsstring \<Rightarrow> jsstring list" where
  \<comment> \<open>\<open>s.split(sep)\<close> for a separator of one character\<close>
  "splitOn sep piece [] = [piece]"
| "splitOn sep piece (c # cs) =
     (if c = sep then piece # splitOn sep [] cs else splitOn sep (piece @ [c]) cs)"

definition cleanDateString :: "jsstring \<Rightarrow> jsstring" where
  \<comment> \<open>\<open>str.trim()\<close>, then the characters U+200B to U+200D and U+FEFF removed, then
      every U+00A0 replaced by a space\<close>
  "cleanDateString str =
     map (\<lambda>c. if c = 160 then 32 else c)
       (filter (\<lambda>c. \<not> ((8203 \<le> c \<and> c \<le> 8205) \<or> c = 65279)) (trim str))"

definition isSeparator :: "nat \<Rightarrow> bool" where
  \<comment> \<open>\<open>[-/.]\<close>\<close>
  "isSeparator c = (c = 45 \<or> c = 47 \<or> c = 46)"

definition oneOrTwoDigits :: "jsstring \<Rightarrow> (jsstring \<times> jsstring) option" where
  \<comment> \<open>\<open>(\d{1,2})\<close>, greedy: the group and the text after it\<close>
  "oneOrTwoDigits s =
     (let ds = takeWhile isDigit (take 2 s)
      in if ds = [] then None else Some (ds, drop (length ds) s))"

definition oneOrTwoDigitsSep :: "jsstring \<Rightarrow> (jsstring \<times> jsstring) option" where
  \<comment> \<open>\<open>(\d{1,2})[-/.]\<close>.  Giving back a digit cannot help the match: after a group of
      two digits given back to one, the next character is a digit and no separator.\<close>
  "oneOrTwoDigitsSep s =
     (case oneOrTwoDigits s of
        Some (ds, c # rest) \<Rightarrow> if isSeparator c then Some (ds, rest) else None
      | _ \<Rightarrow> None)"

definition fourDigits :: "jsstring \<Rightarrow> (jsstring \<times> jsstring) option" where
  \<comment> \<open>\<open>(\d{4})\<close>\<close>
  "fourDigits s =
     (if length (take 4 s) = 4 \<and> (\<forall>c \<in> set (take 4 s). isDigit c)
      then Some (take 4 s, drop 4 s) else None)"

definition isoMatch :: "jsstring \<Rightarrow> (jsstring \<times> jsstring \<times> jsstring) option" where
  \<comment> \<open>\<open>datePart.match(/^(\d{4})[-/.](\d{1,2})[-/.](\d{1,2})/)\<close>: the three groups\<close>
  "isoMatch s =
     (case fourDigits s of
        Some (y, c # r1) \<Rightarrow>
          if isSeparator c then
            (case oneOrTwoDigitsSep r1 of
               Some (m, r2) \<Rightarrow>
                 (case oneOrTwoDigits r2 of Some (d, r3) \<Rightarrow> Some (y, m, d) | None \<Rightarrow> None)
             | None \<Rightarrow> None)
          else None
      | _ \<Rightarrow> None)"

definition dmyMatch :: "jsstring \<Rightarrow> (jsstring \<times> jsstring \<times> jsstring) option" where
  \<comment> \<open>\<open>datePart.match(/^(\d{1,2})[-/.](\d{1,2})[-/.](\d{4})/)\<close>: the three groups\<close>
  "dmyMatch s =
     (case oneOrTwoDigitsSep s of
        Some (d, r1) \<Rightarrow>
          (case oneOrTwoDigitsSep r1 of
             Some (m, r2) \<Rightarrow>
               (case fourDigits r2 of Some (y, r3) \<Rightarrow> Some (d, m, y) | None \<Rightarrow> None)
           | None \<Rightarrow> None)
      | None \<Rightarrow> None)"

definition parseIntDigits :: "jsstring \<Rightarrow> int" where
  \<comment> \<open>\<open>parseInt\<close> of a group of one to four ASCII digits\<close>
  "parseIntDigits ds = int (digitsValue ds)"

definition validOrNull :: "jsDate \<Rightarrow> int option" where
  \<comment> \<open>\<open>isNaN(d.getTime()) ? null : d\<close>; a Date that is returned is given by its time value\<close>
  "validOrNull d = (case d of InvalidDate \<Rightarrow> None | Date t \<Rightarrow> Some t)"

definition newDateFromString :: "host \<Rightarrow> jsstring \<Rightarrow> jsDate" where
  \<comment> \<open>\<open>new Date(s)\<close>: the host's parser, whose result is a time value in range or NaN\<close>
  "newDateFromString env s =
     (case dateParse env s of
        InvalidDate \<Rightarrow> InvalidDate
      | Date t \<Rightarrow> if \<bar>t\<bar> \<le> 8640000000000000 then Date t else InvalidDate)"

definition timeFields :: "jsstring \<Rightarrow> number \<times> number" where
  \<comment> \<open>\<open>const [hh, mm] = timePart.split(':').map(Number)\<close>, then \<open>hh || 0\<close> and
      \<open>mm || 0\<close>; \<open>mm\<close> is \<open>undefined\<close> when there is no colon\<close>
  "timeFields timePart =
     (let nums = map stringToNumber (splitOn 58 [] timePart)
      in (orZero (hd nums), (if 1 < length nums then orZero (nums ! 1) else Fin 0)))"

definition dateAndTimePart :: "jsstring \<Rightarrow> jsstring \<times> jsstring" where
  \<comment> \<open>\<open>parts[0]\<close> and \<open>parts.length > 1 ? parts[1] : "00:00"\<close>\<close>
  "dateAndTimePart cleanStr =
     (let parts = splitWhiteSpace [] cleanStr
      in (hd parts, (if 1 < length parts then parts ! 1 else lit ''00:00'')))"

definition smartParseDate :: "host \<Rightarrow> jsstring \<Rightarrow> int option" where
  \<comment> \<open>\<open>None\<close> is \<open>null\<close>; \<open>Some t\<close> is a valid Date with time value \<open>t\<close>\<close>
  "smartParseDate env str =
     (if str = [] then None
      else
        let cleanStr = cleanDateString str
        in case dateAndTimePart cleanStr of
             (datePart, timePart) \<Rightarrow>
               (case timeFields timePart of
                  (hh, mm) \<Rightarrow>
                    (case isoMatch datePart of
                       Some (y, m, d) \<Rightarrow>
                         validOrNull
                           (newDate env (parseIntDigits y) (parseIntDigits m - 1)
                              (parseIntDigits d) hh mm)
                     | None \<Rightarrow>
                         (case dmyMatch datePart of
                            Some (d, m, y) \<Rightarrow>
                              validOrNull
                                (newDate env (parseIntDigits y) (parseIntDigits m - 1)
                                   (parseIntDigits d) hh mm)
                          | None \<Rightarrow> validOrNull (newDateFromString env cleanStr)))))"

section \<open>Column resolver: \<open>findColIdx\<close>\<close>

fun includesStr :: "jsstring \<Rightarrow> jsstring \<Rightarrow> bool" where
  \<comment> \<open>\<open>h.includes(k)\<close>: \<open>k\<close> occurs in \<open>h\<close> at some position\<close>
  "includesStr [] k = (k = [])"
| "includesStr (c # cs) k = (take (length k) (c # cs) = k \<or> includesStr cs k)"

fun findIndex :: "('a \<Rightarrow> bool) \<Rightarrow> 'a list \<Rightarrow> int" where
  \<comment> \<open>\<open>Array.prototype.findIndex\<close>: the first position that satisfies the test, or \<open>-1\<close>\<close>
  "findIndex P [] = - 1"
| "findIndex P (x # xs) =
     (if P x then 0 else let r = findIndex P xs in if r < 0 then - 1 else r + 1)"

definition findColIdx :: "host \<Rightarrow> jsstring list \<Rightarrow> jsstring list \<Rightarrow> int" where
  "findColIdx env headers keywords =
     findIndex (\<lambda>h. \<exists>k \<in> set keywords. includesStr (toLowerCase env h) (toLowerCase env k)) headers"

section \<open>Record builder: \<open>fetchCSV\<close>\<close>

record TruckData =
  truckNo :: jsstring
  matName :: jsstring
  arrivalTime :: jsstring
  endTime :: jsstring
  totalTime :: number
  weight :: number
  mxStock :: number
  whStock :: number

definition cellAt :: "'a list \<Rightarrow> int \<Rightarrow> 'a option" where
  \<comment> \<open>\<open>c[i]\<close>: \<open>undefined\<close>, here \<open>None\<close>, outside the array, so also at index \<open>-1\<close>\<close>
  "cellAt xs i = (if 0 \<le> i \<and> i < int (length xs) then Some (xs ! nat i) else None)"

definition orString :: "jsstring option \<Rightarrow> jsstring \<Rightarrow> jsstring" where
  \<comment> \<open>\<open>cell || d\<close>: \<open>undefined\<close> and the empty string are falsy\<close>
  "orString cell d = (case cell of None \<Rightarrow> d | Some s \<Rightarrow> if s = [] then d else s)"

record columns =
  truckCol :: int
  matCol :: int
  arrivalCol :: int
  endCol :: int
  totalTimeCol :: int
  weightCol :: int

definition resolveColumns :: "host \<Rightarrow> jsstring list \<Rightarrow> columns" where
  \<comment> \<open>the object \<open>idx\<close> of \<open>fetchCSV\<close>; the Chinese keywords are given by their code units\<close>
  "resolveColumns env headers =
     \<lparr>truckCol = findColIdx env headers [[36554, 34399], [36554, 29260], lit ''Truck''],
      matCol = findColIdx env headers [[21407, 26448, 26009], [21697, 21517], lit ''Material''],
      arrivalCol = findColIdx env headers [[36914, 22580], lit ''Arrival''],
      endCol = findColIdx env headers [[32080, 26463], [20316, 26989, 23436, 25104], lit ''End''],
      totalTimeCol = findColIdx env headers
        [[20316, 26989, 32317, 26178, 38291], [32317, 26178, 38291], lit ''Duration'',
         lit ''Total Time''],
      weightCol = findColIdx env headers [[37325, 37327], lit ''Weight'', lit ''(t)'']\<rparr>"

definition buildRecord :: "columns \<Rightarrow> jsstring list \<Rightarrow> TruckData" where
  \<comment> \<open>the object built from one data row \<open>c\<close>\<close>
  "buildRecord idx c =
     \<lparr>truckNo = orString (cellAt c (truckCol idx)) (lit ''N/A''),
      matName = orString (cellAt c (matCol idx)) (lit ''N/A''),
      arrivalTime = orString (cellAt c (arrivalCol idx)) [],
      endTime = orString (cellAt c (endCol idx)) [],
      totalTime = parseNumberSafe (cellAt c (totalTimeCol idx)),
      weight = parseNumberSafe (cellAt c (weightCol idx)),
      mxStock = Fin 0,
      whStock = Fin 0\<rparr>"

definition headerColumns :: "host \<Rightarrow> jsstring list list \<Rightarrow> columns" where
  \<comment> \<open>\<open>idx\<close>, from the trimmed cells of the header row \<open>allRows[0]\<close>\<close>
  "headerColumns env allRows = resolveColumns env (map trim (hd allRows))"

definition fetchCSV :: "host \<Rightarrow> jsstring \<Rightarrow> TruckData list option" where
  \<comment> \<open>from the response text to the value given to \<open>setRawData\<close>; \<open>None\<close> when the
      function returns early and the record set stays as it was\<close>
  "fetchCSV env text =
     (let allRows = robustParseCSV text
      in if length allRows \<le> 1 then None
         else
           Some (filter (\<lambda>x. matName x \<noteq> [])
                  (map (buildRecord (headerColumns env allRows)) (tl allRows))))"

section \<open>The list of materials: \<open>materialList\<close>\<close>

fun strLess :: "jsstring \<Rightarrow> jsstring \<Rightarrow> bool" where
  \<comment> \<open>\<open>x < y\<close> on strings, the order of \<open>sort()\<close> without a comparison function: by
      code units, a proper prefix first\<close>
  "strLess [] [] = False"
| "strLess [] (y # ys) = True"
| "strLess (x # xs) [] = False"
| "strLess (x # xs) (y # ys) = (x < y \<or> (x = y \<and> strLess xs ys))"

fun insertString :: "jsstring \<Rightarrow> jsstring list \<Rightarrow> jsstring list" where
  "insertString x [] = [x]"
| "insertString x (y # ys) = (if strLess x y then x # y # ys else y # insertString x ys)"

definition sortStrings :: "jsstring list \<Rightarrow> jsstring list" where
  \<comment> \<open>\<open>xs.sort()\<close> on strings\<close>
  "sortStrings xs = foldl (\<lambda>acc x. insertString x acc) [] xs"

definition materialList :: "TruckData list \<Rightarrow> jsstring list" where
  \<comment> \<open>\<open>Array.from(new Set(rawData.map(r => r.matName))).sort()\<close>; a Set keeps the first
      occurrence of each element\<close>
  "materialList rawData = sortStrings (rev (remdups (rev (map matName rawData))))"

section \<open>Aggregation engine: \<open>filteredData\<close>\<close>

record FilterState =
  startDate :: jsstring
  endDate :: jsstring
  material :: jsstring

definition dateGe :: "jsDate \<Rightarrow> jsDate \<Rightarrow> bool" where
  \<comment> \<open>\<open>a >= b\<close> on Date objects compares the time values; with NaN it is false\<close>
  "dateGe a b = (case a of Date x \<Rightarrow> (case b of Date y \<Rightarrow> y \<le> x | _ \<Rightarrow> False) | _ \<Rightarrow> False)"

definition dateLt :: "jsDate \<Rightarrow> jsDate \<Rightarrow> bool" where
  "dateLt a b = (case a of Date x \<Rightarrow> (case b of Date y \<Rightarrow> x < y | _ \<Rightarrow> False) | _ \<Rightarrow> False)"

definition startBoundary :: "host \<Rightarrow> int \<Rightarrow> jsDate" where
  \<comment> \<open>\<open>new Date(s.getFullYear(), s.getMonth(), s.getDate(), 7, 0)\<close>\<close>
  "startBoundary env s =
     newDate env (getFullYear env s) (getMonth env s) (getDate env s) (Fin 7) (Fin 0)"

definition endBoundary :: "host \<Rightarrow> int \<Rightarrow> jsDate" where
  \<comment> \<open>\<open>new Date(e.getFullYear(), e.getMonth(), e.getDate() + 1, 7, 0)\<close>\<close>
  "endBoundary env e =
     newDate env (getFullYear env e) (getMonth env e) (getDate env e + 1) (Fin 7) (Fin 0)"

definition inRange :: "host \<Rightarrow> jsDate \<Rightarrow> jsDate \<Rightarrow> TruckData \<Rightarrow> bool" where
  \<comment> \<open>\<open>d && d >= sB && d < eB\<close> for \<open>d = smartParseDate(r.arrivalTime)\<close>\<close>
  "inRange env sB eB r =
     (case smartParseDate env (arrivalTime r) of
        None \<Rightarrow> False
      | Some d \<Rightarrow> dateGe (Date d) sB \<and> dateLt (Date d) eB)"

definition matchesMaterial :: "host \<Rightarrow> jsstring \<Rightarrow> TruckData \<Rightarrow> bool" where
  \<comment> \<open>\<open>!filters.material || r.matName.toLowerCase().includes(filters.material.toLowerCase())\<close>\<close>
  "matchesMaterial env mat r =
     (mat = [] \<or> includesStr (toLowerCase env (matName r)) (toLowerCase env mat))"

definition filteredData :: "host \<Rightarrow> TruckData list \<Rightarrow> FilterState \<Rightarrow> TruckData list" where
  "filteredData env rawData filters =
     (case smartParseDate env (startDate filters) of
        None \<Rightarrow> []
      | Some s \<Rightarrow>
          (case smartParseDate env (endDate filters) of
             None \<Rightarrow> []
           | Some e \<Rightarrow>
               filter (\<lambda>r. inRange env (startBoundary env s) (endBoundary env e) r
                            \<and> matchesMaterial env (material filters) r)
                 rawData))"

section \<open>The sort of the language\<close>

fun insertBy :: "('a \<Rightarrow> 'a \<Rightarrow> number) \<Rightarrow> 'a \<Rightarrow> 'a list \<Rightarrow> 'a list" where
  "insertBy cmp x [] = [x]"
| "insertBy cmp x (y # ys) =
     (if jsGt (cmp y x) (Fin 0) then x # y # ys else y # insertBy cmp x ys)"

definition sortBy :: "('a \<Rightarrow> 'a \<Rightarrow> number) \<Rightarrow> 'a list \<Rightarrow> 'a list" where
  \<comment> \<open>\<open>xs.sort(cmp)\<close> for a comparison function that is consistent for the elements:
      the sort is stable, and \<open>y\<close> goes behind \<open>x\<close> only where \<open>cmp(y, x) > 0\<close>; a
      comparison that gives NaN counts as 0.  Each element is inserted, in the order of
      the array, behind the elements that do not have to follow it.\<close>
  "sortBy cmp xs = foldl (\<lambda>acc x. insertBy cmp x acc) [] xs"

definition compareSign :: "('a \<Rightarrow> 'a \<Rightarrow> number) \<Rightarrow> 'a \<Rightarrow> 'a \<Rightarrow> int" where
  \<comment> \<open>the sign of the comparison of two elements by \<open>sort\<close>, NaN counting as 0\<close>
  "compareSign cmp a b =
     (if jsLt (cmp a b) (Fin 0) then - 1 else if jsGt (cmp a b) (Fin 0) then 1 else 0)"

definition consistentOn :: "('a \<Rightarrow> 'a \<Rightarrow> number) \<Rightarrow> 'a list \<Rightarrow> bool" where
  \<comment> \<open>the comparison is a consistent comparator for the elements, as the language
      defines it: every element equals itself, and being equal, being less and being
      greater are transitive, being equal symmetric\<close>
  "consistentOn cmp xs =
     list_all (\<lambda>a. compareSign cmp a a = 0
       \<and> list_all (\<lambda>b. (compareSign cmp a b = 0 \<longrightarrow> compareSign cmp b a = 0)
           \<and> list_all (\<lambda>c.
                (compareSign cmp a b = 0 \<and> compareSign cmp b c = 0
                   \<longrightarrow> compareSign cmp a c = 0)
                \<and> (compareSign cmp a b < 0 \<and> compareSign cmp b c < 0
                   \<longrightarrow> compareSign cmp a c < 0)
                \<and> (0 < compareSign cmp a b \<and> 0 < compareSign cmp b c
                   \<longrightarrow> 0 < compareSign cmp a c)) xs) xs) xs"

definition sortWith :: "('a list \<Rightarrow> 'a list) \<Rightarrow> ('a \<Rightarrow> 'a \<Rightarrow> number) \<Rightarrow> 'a list \<Rightarrow> 'a list" where
  \<comment> \<open>\<open>xs.sort(cmp)\<close>: for a comparison that is not consistent for the elements, the
      language leaves the order to the implementation, which is the parameter
      \<open>engine\<close>\<close>
  "sortWith engine cmp xs = (if consistentOn cmp xs then sortBy cmp xs else engine xs)"

section \<open>Aggregation engine: \<open>todayMonitor\<close>\<close>

record MonitorItem = TruckData +
  rate :: number

record MonitorView =
  items :: "MonitorItem list"
  avgRate :: number

definition arrivalMillis :: "host \<Rightarrow> TruckData \<Rightarrow> number" where
  \<comment> \<open>\<open>smartParseDate(r.arrivalTime)?.getTime() || 0\<close>\<close>
  "arrivalMillis env r =
     (case smartParseDate env (arrivalTime r) of
        None \<Rightarrow> Fin 0
      | Some t \<Rightarrow> orZero (Fin (of_int t)))"

definition onTimeRate :: "number \<Rightarrow> number \<Rightarrow> number" where
  \<comment> \<open>\<open>rate\<close> of an item with the given \<open>totalTime\<close>\<close>
  "onTimeRate benchmarkTime duration =
     (if jsGt duration (Fin 0)
      then mathMin (Fin 100) (mathRound (jsMul (jsDiv benchmarkTime duration) (Fin 100)))
      else Fin 100)"

definition withRate :: "number \<Rightarrow> TruckData \<Rightarrow> MonitorItem" where
  \<comment> \<open>\<open>{ ...item, rate }\<close>\<close>
  "withRate benchmarkTime item =
     \<lparr>truckNo = truckNo item, matName = matName item, arrivalTime = arrivalTime item,
      endTime = endTime item, totalTime = totalTime item, weight = weight item,
      mxStock = mxStock item, whStock = whStock item,
      rate = onTimeRate benchmarkTime (totalTime item)\<rparr>"

definition nextDay :: "host \<Rightarrow> jsDate \<Rightarrow> jsDate" where
  \<comment> \<open>\<open>const e = new Date(s); e.setDate(e.getDate() + 1)\<close>\<close>
  "nextDay env s =
     (case s of InvalidDate \<Rightarrow> InvalidDate | Date t \<Rightarrow> setDate env t (getDate env t + 1))"

definition monitorItems :: "host \<Rightarrow> TruckData list \<Rightarrow> int \<Rightarrow> TruckData list" where
  \<comment> \<open>the records of the monitored shift day, the latest arrival first; the
      comparison is a difference of finite Numbers, consistent for any records\<close>
  "monitorItems env rawData base =
     (let s = startBoundary env base; e = nextDay env s
      in sortBy (\<lambda>a b. jsSub (arrivalMillis env b) (arrivalMillis env a))
           (filter (inRange env s e) rawData))"

definition sumRates :: "MonitorItem list \<Rightarrow> number" where
  \<comment> \<open>\<open>itemsWithRate.reduce((acc, cur) => acc + (cur.rate || 0), 0)\<close>\<close>
  "sumRates its = foldl (\<lambda>acc cur. jsAdd acc (orZero (rate cur))) (Fin 0) its"

definition todayMonitor :: "host \<Rightarrow> TruckData list \<Rightarrow> jsstring \<Rightarrow> number \<Rightarrow> MonitorView" where
  "todayMonitor env rawData monitorDate benchmarkTime =
     (case smartParseDate env monitorDate of
        None \<Rightarrow> \<lparr>items = [], avgRate = Fin 0\<rparr>
      | Some base \<Rightarrow>
          let its = monitorItems env rawData base
          in if length its = 0 then \<lparr>items = [], avgRate = Fin 0\<rparr>
             else
               let itemsWithRate = map (withRate benchmarkTime) its;
                   avgRateValue =
                     (if 0 < length itemsWithRate
                      then mathRound (jsDiv (sumRates itemsWithRate) (Fin (of_nat (length its))))
                      else Fin 0)
               in \<lparr>items = itemsWithRate, avgRate = avgRateValue\<rparr>)"

section \<open>Aggregation engine: \<open>paretoData\<close>\<close>

text \<open>
  \<open>stats\<close> is an object used as a dictionary from material names to sums.  It is
  modelled by the list of its own properties in the order of their creation.
  \<open>Object.entries\<close> lists the keys that are array indices first, in ascending numeric
  order, and the other keys after them in the order of creation.

  The object inherits from \<open>Object.prototype\<close>, so for a material name \<open>k\<close> that
  \<open>Object.prototype\<close> defines, the first read \<open>stats[k]\<close> gives the inherited value.
  It is truthy and not a Number, and \<open>+\<close> concatenates its string with that of the
  weight.  For the accessor \<open>__proto__\<close> the assignment of this string calls the setter,
  which ignores a value that is neither an object nor \<open>null\<close>: no property is created,
  and the records of that name leave no trace.  Each of the other names is a method:
  the assignment creates an own property holding the source text of the function
  followed by the decimal of the weight, and every later addition appends a decimal.
  \<open>FunctionText k ws\<close> stands for this string.  It is never empty; in the comparison
  of \<open>sort\<close> it converts to NaN, since the source text of a function is not a numeric
  literal; and it has no method \<open>toFixed\<close>, so \<open>t.toFixed(1)\<close> throws a
  \<open>TypeError\<close> when such an entry is among the first ten.

  The comparison of \<open>sort\<close> gives NaN on such a string, on a sum that is NaN and on
  two infinite sums of one sign.  Where this makes it inconsistent for the entries, which
  entries come first is for the implementation to choose: \<open>paretoData\<close> has the
  implementation's order as a parameter.
\<close>

datatype statValue = Num number | FunctionText jsstring "number list"

datatype error = TypeError

definition protoNames :: "jsstring list" where
  "protoNames =
     [lit ''constructor'', lit ''__defineGetter__'', lit ''__defineSetter__'',
      lit ''hasOwnProperty'', lit ''__lookupGetter__'', lit ''__lookupSetter__'',
      lit ''isPrototypeOf'', lit ''propertyIsEnumerable'', lit ''toString'', lit ''valueOf'',
      lit ''__proto__'', lit ''toLocaleString'']"

fun plusWeight :: "statValue \<Rightarrow> number \<Rightarrow> statValue" where
  \<comment> \<open>\<open>(v || 0) + w\<close> for the value \<open>v\<close> of an own property\<close>
  "plusWeight (Num v) w = Num (jsAdd (orZero v) w)"
| "plusWeight (FunctionText k ws) w = FunctionText k (ws @ [w])"

definition firstWeight :: "jsstring \<Rightarrow> number \<Rightarrow> statValue" where
  \<comment> \<open>\<open>(stats[k] || 0) + w\<close> when \<open>stats\<close> has no own property \<open>k\<close>: the read gives
      the inherited method, or \<open>undefined\<close>\<close>
  "firstWeight k w = (if k \<in> set protoNames then FunctionText k [w] else Num (jsAdd (Fin 0) w))"

fun addStat :: "(jsstring \<times> statValue) list \<Rightarrow> jsstring \<Rightarrow> number \<Rightarrow> (jsstring \<times> statValue) list" where
  \<comment> \<open>\<open>stats[k] = (stats[k] || 0) + w\<close> for a key other than \<open>__proto__\<close>\<close>
  "addStat [] k w = [(k, firstWeight k w)]"
| "addStat ((k', v) # stats) k w =
     (if k' = k then (k', plusWeight v w) # stats else (k', v) # addStat stats k w)"

definition assignStat :: "(jsstring \<times> statValue) list \<Rightarrow> jsstring \<Rightarrow> number \<Rightarrow> (jsstring \<times> statValue) list" where
  \<comment> \<open>\<open>stats[k] = (stats[k] || 0) + w\<close>\<close>
  "assignStat stats k w = (if k = lit ''__proto__'' then stats else addStat stats k w)"

definition materialStats :: "TruckData list \<Rightarrow> (jsstring \<times> statValue) list" where
  \<comment> \<open>\<open>filteredData.forEach(r => stats[r.matName] = (stats[r.matName] || 0) + (r.weight / 1000))\<close>\<close>
  "materialStats filtered =
     foldl (\<lambda>stats r. assignStat stats (matName r) (jsDiv (weight r) (Fin 1000))) [] filtered"

definition isArrayIndex :: "jsstring \<Rightarrow> bool" where
  \<comment> \<open>the canonical decimal string of an integer from 0 to \<open>2\<^sup>3\<^sup>2 - 2\<close>\<close>
  "isArrayIndex k =
     (k \<noteq> [] \<and> (\<forall>c \<in> set k. isDigit c) \<and> (k = [48] \<or> hd k \<noteq> 48)
      \<and> digitsValue k \<le> 4294967294)"

definition objectEntries :: "(jsstring \<times> 'v) list \<Rightarrow> (jsstring \<times> 'v) list" where
  "objectEntries props =
     sort_key (\<lambda>p. digitsValue (fst p)) (filter (\<lambda>p. isArrayIndex (fst p)) props)
       @ filter (\<lambda>p. \<not> isArrayIndex (fst p)) props"

fun toNumber :: "statValue \<Rightarrow> number" where
  \<comment> \<open>the conversion of an operand of \<open>-\<close>\<close>
  "toNumber (Num v) = v"
| "toNumber (FunctionText k ws) = NaN"

fun isNum :: "statValue \<Rightarrow> bool" where
  "isNum (Num v) = True"
| "isNum (FunctionText k ws) = False"

record ParetoItem =
  name :: jsstring
  tons :: number

record ParetoEntry = ParetoItem +
  percentage :: number

type_synonym engine = "(jsstring \<times> statValue) list \<Rightarrow> (jsstring \<times> statValue) list"

definition rankedEntries :: "engine \<Rightarrow> TruckData list \<Rightarrow> (jsstring \<times> statValue) list" where
  \<comment> \<open>\<open>Object.entries(stats).sort((a,b) => b[1]-a[1])\<close>\<close>
  "rankedEntries engine filtered =
     sortWith engine (\<lambda>a b. jsSub (toNumber (snd b)) (toNumber (snd a)))
       (objectEntries (materialStats filtered))"

definition paretoSorted :: "engine \<Rightarrow> TruckData list \<Rightarrow> error + ParetoItem list" where
  \<comment> \<open>\<open>sorted\<close>: the ranked entries, then
      \<open>.slice(0, 10).map(([n, t]) => ({ name: n, tons: parseFloat(t.toFixed(1)) }))\<close>\<close>
  "paretoSorted engine filtered =
     (let top = take 10 (rankedEntries engine filtered)
      in if list_all (\<lambda>p. isNum (snd p)) top
         then Inr (map (\<lambda>p. \<lparr>name = fst p, tons = toFixed1Parsed (toNumber (snd p))\<rparr>) top)
         else Inl TypeError)"

definition sumTons :: "'a ParetoItem_scheme list \<Rightarrow> number" where
  \<comment> \<open>\<open>sorted.reduce((a,b) => a+b.tons, 0)\<close>\<close>
  "sumTons ranked = foldl (\<lambda>a b. jsAdd a (tons b)) (Fin 0) ranked"

definition percentageAt :: "number \<Rightarrow> number \<Rightarrow> number" where
  \<comment> \<open>\<open>top10Total > 0 ? Math.round((acc / top10Total) * 100) : 0\<close>\<close>
  "percentageAt top10Total acc =
     (if jsGt top10Total (Fin 0) then mathRound (jsMul (jsDiv acc top10Total) (Fin 100))
      else Fin 0)"

fun cumulate :: "number \<Rightarrow> number \<Rightarrow> ParetoItem list \<Rightarrow> ParetoEntry list" where
  \<comment> \<open>\<open>sorted.map(i => { acc += i.tons; return { ...i, percentage: ... }; })\<close> with the
      value of \<open>acc\<close> before the element\<close>
  "cumulate top10Total acc [] = []"
| "cumulate top10Total acc (i # rest) =
     \<lparr>name = name i, tons = tons i,
      percentage = percentageAt top10Total (jsAdd acc (tons i))\<rparr>
       # cumulate top10Total (jsAdd acc (tons i)) rest"

definition paretoData :: "engine \<Rightarrow> TruckData list \<Rightarrow> error + (ParetoEntry list \<times> number)" where
  \<comment> \<open>\<open>{ items, top10Total }\<close>, or the exception thrown\<close>
  "paretoData engine filtered =
     (case paretoSorted engine filtered of
        Inl e \<Rightarrow> Inl e
      | Inr ranked \<Rightarrow>
          let top10Total = sumTons ranked
          in Inr (cumulate top10Total (Fin 0) ranked, top10Total))"

section \<open>Words of the specification\<close>

definition unparsedOrAbsent :: "jsstring option \<Rightarrow> bool" where
  \<comment> \<open>the words of the specification for a numeric cell: the row has no such cell, or
      the cell is empty, or \<open>parseFloat\<close> finds no number in it\<close>
  "unparsedOrAbsent cell =
     (case cell of
        None \<Rightarrow> True
      | Some s \<Rightarrow> s = [] \<or> parseFloat (filter (\<lambda>c. c \<noteq> COMMA) s) = NaN)"

definition shiftDayStart :: "host \<Rightarrow> int \<Rightarrow> int" where
  \<comment> \<open>the words of the specification: 07:00 local time on the calendar day of the
      instant \<open>t\<close>, as a time value\<close>
  "shiftDayStart env t = day (localTime env t) * 86400000 + 25200000 - localTZA env"




definition shiftDay :: "host \<Rightarrow> int \<Rightarrow> int" where
  \<comment> \<open>the words of the specification: the day number of the local calendar date of
      the instant \<open>t\<close>, less one when the local hour is below 7\<close>
  "shiftDay env t =
     day (localTime env t) - (if hourFromTime (localTime env t) < 7 then 1 else 0)"

definition tonnageOf :: "jsstring \<Rightarrow> TruckData list \<Rightarrow> number" where
  \<comment> \<open>the words of the specification: the sum, over the records of the material, of
      the weights in tonnes\<close>
  "tonnageOf k filtered =
     foldl (\<lambda>a r. jsAdd a (jsDiv (weight r) (Fin 1000))) (Fin 0)
       (filter (\<lambda>r. matName r = k) filtered)"

section \<open>Example inputs\<close>

definition csvEmptyMaterial :: jsstring where
  \<comment> \<open>a header and two data rows; the first data row has an empty material cell\<close>
  "csvEmptyMaterial =
     lit ''Truck,Material'' @ [LF] @ lit ''T1,'' @ [LF] @ lit ''T2,Sand'' @ [LF]"

definition csvNegativeWeight :: jsstring where
  \<comment> \<open>a header and one data row with a negative weight and a negative duration\<close>
  "csvNegativeWeight =
     lit ''Material,Weight,Duration'' @ [LF] @ lit ''Sand,-500,-5'' @ [LF]"

definition csvDownstream :: jsstring where
  \<comment> \<open>a header and two data rows with arrival and weight; the first data row has an
      empty material cell\<close>
  "csvDownstream =
     lit ''Truck,Material,Arrival,Weight'' @ [LF] @ lit ''T1,,2024-01-10 06:30,1500'' @ [LF]
       @ lit ''T2,Sand,2024-01-10 08:00,500'' @ [LF]"

definition recordDownstream :: TruckData where
  \<comment> \<open>the record of the first data row of \<open>csvDownstream\<close>\<close>
  "recordDownstream =
     \<lparr>truckNo = lit ''T1'', matName = lit ''N/A'', arrivalTime = lit ''2024-01-10 06:30'',
      endTime = [], totalTime = Fin 0, weight = Fin 1500, mxStock = Fin 0, whStock = Fin 0\<rparr>"

definition recordDownstreamSand :: TruckData where
  \<comment> \<open>the record of the second data row of \<open>csvDownstream\<close>\<close>
  "recordDownstreamSand =
     \<lparr>truckNo = lit ''T2'', matName = lit ''Sand'', arrivalTime = lit ''2024-01-10 08:00'',
      endTime = [], totalTime = Fin 0, weight = Fin 500, mxStock = Fin 0, whStock = Fin 0\<rparr>"

definition filterDownstream :: FilterState where
  "filterDownstream = \<lparr>startDate = lit ''2024-01-09'', endDate = lit ''2024-01-10'',
     material = lit ''n/a''\<rparr>"

definition exampleTruck :: "jsstring \<Rightarrow> jsstring \<Rightarrow> number \<Rightarrow> number \<Rightarrow> TruckData" where
  \<comment> \<open>a record with the given material, arrival text, duration and weight\<close>
  "exampleTruck mat arrival duration w =
     \<lparr>truckNo = lit ''N/A'', matName = mat, arrivalTime = arrival, endTime = [],
      totalTime = duration, weight = w, mxStock = Fin 0, whStock = Fin 0\<rparr>"

definition exampleRecords :: "TruckData list" where
  "exampleRecords =
     [exampleTruck (lit ''Sand'') (lit ''2024-01-10 06:30'') (Fin 48) (Fin 1200),
      exampleTruck (lit ''Gravel'') (lit ''2024-01-11 08:00'') (Fin 30) (Fin 800),
      exampleTruck (lit ''Sand'') (lit ''soon'') (Fin 0) (Fin 0)]"


definition paretoMethodName :: "TruckData list" where
  \<comment> \<open>a material that has the name of a method of \<open>Object.prototype\<close>\<close>
  "paretoMethodName =
     [exampleTruck (lit ''Sand'') (lit ''2024-01-10 06:30'') (Fin 48) (Fin 1000),
      exampleTruck (lit ''constructor'') (lit ''2024-01-10 08:00'') (Fin 30) (Fin 2000)]"

definition paretoEleven :: "TruckData list" where
  \<comment> \<open>ten materials of one tonne each, then a material that has the name of a method\<close>
  "paretoEleven =
     map (\<lambda>c. exampleTruck [c] (lit ''2024-01-10 06:30'') (Fin 30) (Fin 1000))
       (lit ''ABCDEFGHIJ'')
     @ [exampleTruck (lit ''constructor'') (lit ''2024-01-10 08:00'') (Fin 30) (Fin 2000)]"

definition engineKeep :: engine where
  \<comment> \<open>an implementation that leaves the entries in their order where the comparison
      is not consistent\<close>
  "engineKeep entries = entries"





definition exampleFilter :: FilterState where
  "exampleFilter = \<lparr>startDate = lit ''2024-01-09'', endDate = lit ''2024-01-10'',
     material = lit ''san''\<rparr>"

chapter \<open>Verification\<close>

section \<open>Rounding to binary64\<close>

lemma pow2_less_cancel: "(2::rat) powi m < 2 powi n \<Longrightarrow> m < n"
  by (rule ccontr) (use power_int_increasing [of n m "2::rat"] in auto)

lemma pow2_le_cancel: "(2::rat) powi m \<le> 2 powi n \<Longrightarrow> m \<le> n"
  by (rule ccontr) (use power_int_strict_increasing [of n m "2::rat"] in auto)

lemma pow2_mono: "m \<le> n \<Longrightarrow> (2::rat) powi m \<le> 2 powi n"
  by (rule power_int_increasing) auto

lemma pow2_add: "(2::rat) powi (m + n) = 2 powi m * 2 powi n"
  by (rule power_int_add) simp

lemma pow2_diff: "(2::rat) powi (m - n) = 2 powi m / 2 powi n"
  by (rule power_int_diff) simp

lemma bitlen_pow2_bounds:
  assumes "0 < p"
  shows "(2::rat) powi (bitlen p - 1) \<le> of_int p" and "of_int p < (2::rat) powi (bitlen p)"
proof -
  have b: "1 \<le> bitlen p"
    using assms bitlen_eq_zero_iff [of p] bitlen_nonneg [of p] by linarith
  from bitlen_bounds [OF assms]
  have "2 ^ nat (bitlen p - 1) \<le> p" and "p < 2 ^ nat (bitlen p)" by simp_all
  then have "(of_int (2 ^ nat (bitlen p - 1)) :: rat) \<le> of_int p"
    and "(of_int p :: rat) < of_int (2 ^ nat (bitlen p))"
    by (simp_all only: of_int_le_iff of_int_less_iff)
  then show "(2::rat) powi (bitlen p - 1) \<le> of_int p" and "of_int p < (2::rat) powi (bitlen p)"
    using b by (simp_all add: power_int_nonneg_exp)
qed

lemma ilog2_bounds:
  assumes "0 < x"
  shows "2 powi (ilog2 x) \<le> x" and "x < 2 powi (ilog2 x + 1)"
proof -
  obtain p q where pq: "quotient_of x = (p, q)" by (cases "quotient_of x")
  have q: "0 < q" using quotient_of_denom_pos [OF pq] .
  have x: "x = of_int p / of_int q" using quotient_of_div [OF pq] .
  have p: "0 < p" using assms q by (simp add: x zero_less_divide_iff)
  define k where "k = bitlen p - bitlen q"
  note P = bitlen_pow2_bounds [OF p] and Q = bitlen_pow2_bounds [OF q]
  have qpos: "(0::rat) < of_int q" and ppos: "(0::rat) < of_int p" using p q by simp_all
  have "x < 2 powi (bitlen p) / 2 powi (bitlen q - 1)"
    unfolding x using P(2) Q(1) ppos by (intro frac_less) simp_all
  also have "\<dots> = 2 powi (k + 1)"
    by (simp add: k_def pow2_diff [symmetric] algebra_simps)
  finally have up: "x < 2 powi (k + 1)" .
  have "(2::rat) powi (k - 1) = 2 powi (bitlen p - 1) / 2 powi (bitlen q)"
    by (simp add: k_def pow2_diff [symmetric] algebra_simps)
  also have "\<dots> \<le> x"
    unfolding x using P(1) Q(2) qpos p by (intro frac_le) simp_all
  finally have lo: "2 powi (k - 1) \<le> x" .
  have il: "ilog2 x = (if 2 powi k \<le> x then k else k - 1)"
    by (simp add: ilog2_def pq k_def)
  show "2 powi (ilog2 x) \<le> x" using lo by (simp add: il)
  show "x < 2 powi (ilog2 x + 1)" using up by (auto simp: il)
qed

lemma ilog2_unique:
  assumes "0 < x" "2 powi k \<le> x" "x < 2 powi (k + 1)"
  shows "ilog2 x = k"
proof -
  have "(2::rat) powi (ilog2 x) < 2 powi (k + 1)"
    using ilog2_bounds(1) [OF assms(1)] assms(3) by simp
  then have 1: "ilog2 x < k + 1" by (rule pow2_less_cancel)
  have "(2::rat) powi k < 2 powi (ilog2 x + 1)"
    using ilog2_bounds(2) [OF assms(1)] assms(2) by simp
  then have 2: "k < ilog2 x + 1" by (rule pow2_less_cancel)
  from 1 2 show ?thesis by simp
qed

lemma roundHalfEven_of_int [simp]: "roundHalfEven (of_int n) = n"
  by (simp add: roundHalfEven_def)

lemma roundHalfEven_mono:
  assumes "r \<le> s"
  shows "roundHalfEven r \<le> roundHalfEven s"
proof -
  have fr: "of_int \<lfloor>r\<rfloor> \<le> r" "r < of_int \<lfloor>r\<rfloor> + 1"
    and fs: "of_int \<lfloor>s\<rfloor> \<le> s" "s < of_int \<lfloor>s\<rfloor> + 1"
    by linarith+
  have m: "\<lfloor>r\<rfloor> \<le> \<lfloor>s\<rfloor>" using assms by (rule floor_mono)
  show ?thesis
  proof (cases "\<lfloor>r\<rfloor> = \<lfloor>s\<rfloor>")
    case True
    then show ?thesis
      using assms unfolding roundHalfEven_def Let_def by auto
  next
    case False
    with m have "\<lfloor>r\<rfloor> + 1 \<le> \<lfloor>s\<rfloor>" by simp
    moreover have "roundHalfEven r \<le> \<lfloor>r\<rfloor> + 1"
      unfolding roundHalfEven_def Let_def by auto
    moreover have "\<lfloor>s\<rfloor> \<le> roundHalfEven s"
      unfolding roundHalfEven_def Let_def by auto
    ultimately show ?thesis by linarith
  qed
qed

lemma roundHalfEven_nonneg: "0 \<le> r \<Longrightarrow> 0 \<le> roundHalfEven r"
  using roundHalfEven_mono [of 0 r] roundHalfEven_of_int [of 0] by simp


lemma pow2_split: "(2::rat) ^ k * 2 powi (e - int k) = 2 powi e"
  using pow2_add [of "int k" "e - int k"] by simp

lemma pow2_scale_lower:
  assumes "2 ^ k \<le> (m::int)"
  shows "(2::rat) powi e \<le> of_int m * 2 powi (e - int k)"
proof -
  have "of_int (2 ^ k) \<le> (of_int m :: rat)" using assms by (simp only: of_int_le_iff)
  then have "(2::rat) powi (int k) \<le> of_int m" by simp
  then have "2 powi (int k) * 2 powi (e - int k) \<le> of_int m * (2::rat) powi (e - int k)"
    by (intro mult_right_mono) simp_all
  then show ?thesis by (simp only: pow2_add [symmetric]) simp
qed

lemma pow2_scale_upper:
  assumes "(m::int) \<le> 2 ^ k"
  shows "of_int m * 2 powi (e - int k) \<le> (2::rat) powi e"
proof -
  have "(of_int m :: rat) \<le> of_int (2 ^ k)" using assms by (simp only: of_int_le_iff)
  then have "of_int m \<le> (2::rat) powi (int k)" by simp
  then have "of_int m * (2::rat) powi (e - int k) \<le> 2 powi (int k) * 2 powi (e - int k)"
    by (intro mult_right_mono) simp_all
  then show ?thesis by (simp only: pow2_add [symmetric]) simp
qed

lemma roundPos_parts:
  assumes "0 < a"
  defines "e \<equiv> max (ilog2 a) (- 1022)"
  defines "m \<equiv> roundHalfEven (a / 2 powi (e - 52))"
  shows "roundPos a = of_int m * 2 powi (e - 52)"
    and "0 \<le> m" and "m \<le> 2 ^ 53"
    and "- 1022 \<le> ilog2 a \<Longrightarrow> 2 ^ 52 \<le> m"
proof -
  let ?u = "(2::rat) powi (e - 52)"
  have u: "0 < ?u" by simp
  show "roundPos a = of_int m * ?u"
    by (simp add: roundPos_def Let_def e_def m_def)
  show "0 \<le> m"
    unfolding m_def using assms(1) u by (intro roundHalfEven_nonneg) simp
  have "a < 2 powi (ilog2 a + 1)" using ilog2_bounds(2) [OF assms(1)] .
  also have "\<dots> \<le> 2 powi (e + 1)" by (rule pow2_mono) (simp add: e_def)
  finally have "a / ?u < 2 powi (e + 1) / ?u"
    using u by (simp add: divide_strict_right_mono)
  also have "2 powi (e + 1) / ?u = 2 powi 53"
    by (simp add: pow2_diff [symmetric])
  finally have "a / ?u \<le> of_int (2 ^ 53)" by simp
  then have "roundHalfEven (a / ?u) \<le> roundHalfEven (of_int (2 ^ 53))"
    by (rule roundHalfEven_mono)
  then show "m \<le> 2 ^ 53" by (simp only: m_def roundHalfEven_of_int)
  show "2 ^ 52 \<le> m" if "- 1022 \<le> ilog2 a"
  proof -
    from that have e: "e = ilog2 a" by (simp add: e_def)
    have "(2::rat) powi 52 = 2 powi e / ?u"
      by (simp add: pow2_diff [symmetric])
    also have "\<dots> \<le> a / ?u"
      using ilog2_bounds(1) [OF assms(1)] u by (simp add: e divide_right_mono)
    finally have "of_int (2 ^ 52) \<le> a / ?u" by simp
    then have "roundHalfEven (of_int (2 ^ 52)) \<le> roundHalfEven (a / ?u)"
      by (rule roundHalfEven_mono)
    then show ?thesis by (simp only: m_def roundHalfEven_of_int)
  qed
qed

lemma roundPos_nonneg: "0 < a \<Longrightarrow> 0 \<le> roundPos a"
  using roundPos_parts(1,2) [of a] by simp

lemma roundPos_exact:
  assumes "0 < m" "m < 2 ^ 53" "- 1074 \<le> e"
  shows "roundPos (of_int m * 2 powi e) = of_int m * 2 powi e"
proof -
  let ?a = "of_int m * (2::rat) powi e"
  have a: "0 < ?a" using assms(1) by simp
  define el where "el = max (ilog2 ?a) (- 1022)"
  have "?a < 2 ^ 53 * 2 powi e"
    using assms(2) by (simp add: of_int_less_iff [of m "2 ^ 53", where ?'a = rat, simplified])
  also have "\<dots> = 2 powi (e + 53)" by (simp add: pow2_add)
  finally have "(2::rat) powi (ilog2 ?a) < 2 powi (e + 53)"
    using ilog2_bounds(1) [OF a] by simp
  then have "ilog2 ?a < e + 53" by (rule pow2_less_cancel)
  with assms(3) have el: "el \<le> e + 52" by (simp add: el_def)
  define k where "k = nat (e + 52 - el)"
  have "?a / 2 powi (el - 52) = of_int m * 2 powi (e - (el - 52))"
    by (simp add: pow2_diff)
  also have "e - (el - 52) = int k" using el by (simp add: k_def)
  finally have q: "?a / 2 powi (el - 52) = of_int (m * 2 ^ k)" by simp
  have "roundPos ?a = of_int (roundHalfEven (?a / 2 powi (el - 52))) * 2 powi (el - 52)"
    by (simp add: roundPos_def Let_def el_def)
  also have "\<dots> = ?a / 2 powi (el - 52) * 2 powi (el - 52)"
    unfolding q roundHalfEven_of_int ..
  also have "\<dots> = ?a" by simp
  finally show ?thesis .
qed

lemma toDouble_exact:
  assumes "\<bar>n\<bar> < 2 ^ 53" "- 1074 \<le> e" "e \<le> 971"
  shows "toDouble (of_int n * 2 powi e) = Fin (of_int n * 2 powi e)"
proof (cases "n = 0")
  case True
  then show ?thesis by (simp add: toDouble_def)
next
  case False
  let ?x = "of_int n * (2::rat) powi e"
  have abs: "\<bar>?x\<bar> = of_int \<bar>n\<bar> * 2 powi e" by (simp add: abs_mult)
  have m: "0 < \<bar>n\<bar>" using False by simp
  have r: "roundPos \<bar>?x\<bar> = \<bar>?x\<bar>"
    unfolding abs using m assms(1,2) by (rule roundPos_exact)
  have "\<bar>?x\<bar> < 2 ^ 53 * 2 powi e"
    unfolding abs using assms(1)
    by (simp add: of_int_less_iff [of "\<bar>n\<bar>" "2 ^ 53", where ?'a = rat, simplified])
  also have "\<dots> = 2 powi (e + 53)" by (simp add: pow2_add)
  also have "\<dots> \<le> 2 powi 1024" using assms(3) by (intro pow2_mono) simp
  finally have lt: "\<not> 2 powi 1024 \<le> \<bar>?x\<bar>" by simp
  have nz: "?x \<noteq> 0" using False by simp
  show ?thesis
    using nz lt unfolding toDouble_def r Let_def by auto
qed


lemma toDouble_neg: "toDouble (- x) = jsNeg (toDouble x)"
  by (simp add: toDouble_def Let_def)

lemma toDouble_not_NaN [simp]: "toDouble x \<noteq> NaN"
  by (simp add: toDouble_def Let_def)

lemma toDouble_form:
  assumes "toDouble x = Fin y"
  shows "\<exists>n e. \<bar>n\<bar> < 2 ^ 53 \<and> - 1074 \<le> e \<and> e \<le> 971 \<and> y = of_int n * 2 powi e"
proof (cases "x = 0")
  case True
  with assms have "y = of_int 0 * 2 powi 0" by (simp add: toDouble_def)
  then show ?thesis by (intro exI [of _ 0] conjI) simp_all
next
  case False
  define a where "a = \<bar>x\<bar>"
  define el where "el = max (ilog2 a) (- 1022)"
  define m where "m = roundHalfEven (a / 2 powi (el - 52))"
  have a: "0 < a" using False by (simp add: a_def)
  note parts = roundPos_parts [OF a, folded el_def, folded m_def]
  have lt: "roundPos a < 2 powi 1024" and y: "y = (if 0 < x then roundPos a else - roundPos a)"
    using assms False by (auto simp: toDouble_def Let_def a_def split: if_splits)
  define s :: int where "s = (if 0 < x then 1 else - 1)"
  have ys: "y = of_int s * roundPos a" by (simp add: y s_def)
  have s: "\<bar>s\<bar> = 1" by (simp add: s_def)
  show ?thesis
  proof (cases "m < 2 ^ 53")
    case True
    have "el \<le> 1023"
    proof (rule ccontr)
      assume "\<not> el \<le> 1023"
      then have big: "1024 \<le> el" by simp
      then have "- 1022 \<le> ilog2 a" by (simp add: el_def)
      then have "2 ^ 52 \<le> m" by (rule parts(4))
      then have "(2::rat) powi el \<le> of_int m * 2 powi (el - 52)"
        using pow2_scale_lower [of 52 m el] by simp
      moreover have "(2::rat) powi 1024 \<le> 2 powi el" using big by (rule pow2_mono)
      ultimately have "(2::rat) powi 1024 \<le> roundPos a" unfolding parts(1) by (rule order_trans [rotated])
      with lt show False by simp
    qed
    moreover have "\<bar>s * m\<bar> < 2 ^ 53" using True parts(2) s by (simp add: abs_mult)
    moreover have "- 1074 \<le> el - 52" by (simp add: el_def)
    moreover have "y = of_int (s * m) * 2 powi (el - 52)" by (simp add: ys parts(1))
    ultimately show ?thesis by (intro exI [of _ "s * m"] exI [of _ "el - 52"] conjI) simp_all
  next
    case False
    with parts(3) have m: "m = 2 ^ 53" by simp
    have r: "roundPos a = 2 powi (el + 1)"
      using pow2_split [of 53 "el + 1"] by (simp add: parts(1) m)
    with lt have "el + 1 < 1024" by (intro pow2_less_cancel) simp
    then have "el - 51 \<le> 971" by simp
    moreover have "\<bar>s * 2 ^ 52\<bar> < (2::int) ^ 53" using s by (simp add: abs_mult)
    moreover have "- 1074 \<le> el - 51" by (simp add: el_def)
    moreover have "y = of_int (s * 2 ^ 52) * 2 powi (el - 51)"
      using pow2_split [of 52 "el + 1"] by (simp add: ys r)
    ultimately show ?thesis
      by (intro exI [of _ "s * 2 ^ 52"] exI [of _ "el - 51"] conjI) simp_all
  qed
qed

lemma toDouble_idem: "toDouble x = Fin y \<Longrightarrow> toDouble y = Fin y"
  using toDouble_form [of x y] toDouble_exact by blast

lemma roundPos_mono:
  assumes "0 < a" "a \<le> b"
  shows "roundPos a \<le> roundPos b"
proof -
  have b: "0 < b" using assms by simp
  define ea where "ea = max (ilog2 a) (- 1022)"
  define eb where "eb = max (ilog2 b) (- 1022)"
  define ma where "ma = roundHalfEven (a / 2 powi (ea - 52))"
  define mb where "mb = roundHalfEven (b / 2 powi (eb - 52))"
  note A = roundPos_parts [OF assms(1), folded ea_def, folded ma_def]
  note B = roundPos_parts [OF b, folded eb_def, folded mb_def]
  have "(2::rat) powi (ilog2 a) < 2 powi (ilog2 b + 1)"
    using ilog2_bounds(1) [OF assms(1)] ilog2_bounds(2) [OF b] assms(2) by simp
  then have "ilog2 a < ilog2 b + 1" by (rule pow2_less_cancel)
  then have le: "ea \<le> eb" by (simp add: ea_def eb_def)
  show ?thesis
  proof (cases "ea = eb")
    case True
    have "a / 2 powi (eb - 52) \<le> b / 2 powi (eb - 52)"
      using assms(2) by (simp add: divide_right_mono)
    then have "ma \<le> mb" unfolding ma_def mb_def True by (rule roundHalfEven_mono)
    then have "(of_int ma :: rat) \<le> of_int mb" by simp
    then show ?thesis unfolding A(1) B(1) True by (intro mult_right_mono) simp_all
  next
    case False
    with le have lt: "ea + 1 \<le> eb" by simp
    then have "- 1022 \<le> ilog2 b" by (simp add: ea_def eb_def)
    then have "2 ^ 52 \<le> mb" by (rule B(4))
    then have low: "(2::rat) powi eb \<le> roundPos b"
      unfolding B(1) using pow2_scale_lower [of 52 mb eb] by simp
    have "of_int ma * 2 powi (ea + 1 - 53) \<le> (2::rat) powi (ea + 1)"
      using pow2_scale_upper [of ma 53 "ea + 1"] A(3) by simp
    then have "roundPos a \<le> 2 powi (ea + 1)" by (simp add: A(1))
    also have "(2::rat) powi (ea + 1) \<le> 2 powi eb" using lt by (rule pow2_mono)
    finally show ?thesis using low by simp
  qed
qed

lemma toDouble_mono:
  assumes "x \<le> y"
  shows "jsLe (toDouble x) (toDouble y)"
proof -
  consider "0 < x" | "y < 0" | "x \<le> 0" "0 \<le> y" using assms by linarith
  then show ?thesis
  proof cases
    case 1
    then have "roundPos \<bar>x\<bar> \<le> roundPos \<bar>y\<bar>" using assms by (intro roundPos_mono) simp_all
    then show ?thesis using 1 assms by (auto simp: toDouble_def Let_def jsLe_def)
  next
    case 2
    then have "roundPos \<bar>y\<bar> \<le> roundPos \<bar>x\<bar>" using assms by (intro roundPos_mono) simp_all
    then show ?thesis using 2 assms by (auto simp: toDouble_def Let_def jsLe_def)
  next
    case 3
    have "0 \<le> roundPos \<bar>x\<bar>" if "x \<noteq> 0" using that by (intro roundPos_nonneg) simp
    moreover have "0 \<le> roundPos \<bar>y\<bar>" if "y \<noteq> 0" using that by (intro roundPos_nonneg) simp
    ultimately show ?thesis using 3 by (auto simp: toDouble_def Let_def jsLe_def)
  qed
qed

section \<open>Properties of the CSV decoder\<close>

lemma csvLoop_plain:
  "\<forall>c \<in> set cell. c \<noteq> DQUOTE \<and> c \<noteq> COMMA \<and> c \<noteq> LF \<and> c \<noteq> CR \<Longrightarrow>
   csvLoop result row col False (cell @ rest) = csvLoop result row (col @ cell) False rest"
  by (induction cell arbitrary: col) simp_all

lemma csvLoop_quoted:
  "\<not> nextIs rest DQUOTE \<Longrightarrow>
   csvLoop result row col True (escapeQuotes cell @ DQUOTE # rest)
     = csvLoop result row (col @ cell) False rest"
  by (induction cell arbitrary: col) (simp_all add: escapeQuotes_def nextIs_def)

lemma csvLoop_cell:
  "\<not> nextIs rest DQUOTE \<Longrightarrow>
   csvLoop result row col False (encodeCell cell @ rest)
     = csvLoop result row (col @ cell) False rest"
  by (auto simp: encodeCell_def needsQuote_def csvLoop_quoted csvLoop_plain)

lemma csvLoop_cells:
  "cells \<noteq> [] \<Longrightarrow>
   csvLoop result row [] False (encodeCells cells @ LF # rest)
     = csvLoop (result @ [row @ cells]) [] [] False rest"
proof (induction cells arbitrary: row rule: encodeCells.induct)
  case 1
  then show ?case by simp
next
  case (2 c)
  have "\<not> nextIs (LF # rest) DQUOTE"
    by (simp add: nextIs_def LF_def DQUOTE_def)
  then show ?case
    by (simp add: csvLoop_cell pushRow_def LF_def DQUOTE_def COMMA_def CR_def)
next
  case (3 c d ds)
  have "\<not> nextIs (COMMA # encodeCells (d # ds) @ LF # rest) DQUOTE"
    by (simp add: nextIs_def COMMA_def DQUOTE_def)
  then have "csvLoop result row [] False (encodeCell c @ COMMA # encodeCells (d # ds) @ LF # rest)
     = csvLoop result row ([] @ c) False (COMMA # encodeCells (d # ds) @ LF # rest)"
    by (rule csvLoop_cell)
  also have "\<dots> = csvLoop result (row @ [c]) [] False (encodeCells (d # ds) @ LF # rest)"
    by (simp add: COMMA_def DQUOTE_def)
  also have "\<dots> = csvLoop (result @ [(row @ [c]) @ (d # ds)]) [] [] False rest"
    by (rule "3.IH") simp
  finally show ?case by simp
qed

lemma csvLoop_rows:
  "\<forall>row \<in> set rows. row \<noteq> [] \<Longrightarrow>
   csvLoop result [] [] False (encodeCSV rows @ rest)
     = csvLoop (result @ rows) [] [] False rest"
proof (induction rows arbitrary: result)
  case Nil
  then show ?case by (simp add: encodeCSV_def)
next
  case (Cons r rows)
  have "csvLoop result [] [] False (encodeCSV (r # rows) @ rest)
      = csvLoop result [] [] False (encodeCells r @ LF # encodeCSV rows @ rest)"
    by (simp add: encodeCSV_def encodeRow_def)
  also have "\<dots> = csvLoop (result @ [[] @ r]) [] [] False (encodeCSV rows @ rest)"
    using Cons.prems by (intro csvLoop_cells) simp
  also have "\<dots> = csvLoop ((result @ [r]) @ rows) [] [] False rest"
    using Cons.prems by (simp add: Cons.IH)
  finally show ?case by simp
qed

lemma csvLoop_terminator:
  "csvLoop result row col False (CR # LF # rest)
     = csvLoop (result @ [row @ [col]]) [] [] False rest"
  "csvLoop result row col False (LF # rest)
     = csvLoop (result @ [row @ [col]]) [] [] False rest"
  by (simp_all add: nextIs_def pushRow_def CR_def LF_def DQUOTE_def COMMA_def)

text \<open>
  Claim C8, as the specification states it, for every list of rows: a row without any
  cell is encoded as a bare line feed, which the decoder reads as a row of one empty
  cell, since \<open>row.push(col)\<close> runs at every row terminator.
\<close>

theorem C8_empty_row_counterexample:
  "robustParseCSV (encodeCSV [[]]) \<noteq> [[]]"
  by (simp add: robustParseCSV_def encodeCSV_def encodeRow_def pushRow_def
      LF_def DQUOTE_def COMMA_def)

text \<open>
  Claim C8, amended: for every list of rows that each hold at least one cell, encoding
  (comma between cells, line feed after each row, quotes around a cell that holds a
  comma, a quote, a line feed or a carriage return, embedded quotes doubled) and then
  decoding gives the rows back exactly; and in the decoding loop, outside quotes, the
  pair carriage return, line feed ends the row once, exactly as a single line feed does.
\<close>

theorem C8_csv_roundtrip:
  assumes "\<forall>row \<in> set rows. row \<noteq> []"
  shows "robustParseCSV (encodeCSV rows) = rows
    \<and> csvLoop result row col False (CR # LF # rest)
        = csvLoop (result @ [row @ [col]]) [] [] False rest
    \<and> csvLoop result row col False (CR # LF # rest)
        = csvLoop result row col False (LF # rest)"
proof -
  have "csvLoop [] [] [] False (encodeCSV rows @ []) = csvLoop ([] @ rows) [] [] False []"
    using assms by (rule csvLoop_rows)
  then have "robustParseCSV (encodeCSV rows) = rows"
    by (simp add: robustParseCSV_def)
  then show ?thesis
    by (simp only: csvLoop_terminator simp_thms)
qed

theorem C8_csv_roundtrip_witness:
  "robustParseCSV (encodeCSV [[lit ''a,b'', lit ''say \"hi\"''], [[], [120, LF, CR, 121]]])
     = [[lit ''a,b'', lit ''say \"hi\"''], [[], [120, LF, CR, 121]]]
   \<and> robustParseCSV (lit ''a,b'' @ [CR, LF] @ lit ''c'') = [[lit ''a'', lit ''b''], [lit ''c'']]"
proof -
  have "robustParseCSV (lit ''a,b'' @ [CR, LF] @ lit ''c'') = [[lit ''a'', lit ''b''], [lit ''c'']]"
    by (simp add: robustParseCSV_def lit_def nextIs_def pushRow_def
        LF_def DQUOTE_def COMMA_def CR_def)
  then show ?thesis
    using C8_csv_roundtrip [of "[[lit ''a,b'', lit ''say \"hi\"''], [[], [120, LF, CR, 121]]]"]
    by simp
qed

section \<open>Evaluation of the number functions\<close>

lemma toDouble_of_int: "\<bar>n\<bar> < 2 ^ 53 \<Longrightarrow> toDouble (of_int n) = Fin (of_int n)"
  using toDouble_exact [of n 0] by simp

lemma toDouble_numeral [simp]:
  "(numeral k :: int) < 2 ^ 53 \<Longrightarrow> toDouble (numeral k) = Fin (numeral k)"
  using toDouble_of_int [of "numeral k"] by simp

lemma toDouble_neg_numeral [simp]:
  "(numeral k :: int) < 2 ^ 53 \<Longrightarrow> toDouble (- numeral k) = Fin (- numeral k)"
  using toDouble_of_int [of "- numeral k"] by simp

lemma toDouble_0 [simp]: "toDouble 0 = Fin 0"
  by (simp add: toDouble_def)

lemma toDouble_1 [simp]: "toDouble 1 = Fin 1"
  using toDouble_of_int [of 1] by simp

lemma lit_Nil_iff [simp]: "lit s = [] \<longleftrightarrow> s = []"
  by (simp add: lit_def)

lemmas parse_simps = parseFloat_def trimStart_def splitSign_def strUnsignedDecimalLiteral_def
  exponentPart_def isDigit_def isWhiteSpace_def digitsValue_def signedValue_def nextIs_def
  lit_def Let_def

section \<open>Properties of the numeric normalizer\<close>

lemma parseNumberSafe_not_NaN: "parseNumberSafe str \<noteq> NaN"
  by (simp add: parseNumberSafe_def orZero_def truthy_def split: option.split)

text \<open>
  Claim C9: \<open>parseNumberSafe\<close> removes the commas and reads the rest with
  \<open>parseFloat\<close>; it is a total function that never returns NaN, giving 0 for the
  empty string and wherever \<open>parseFloat\<close> gives NaN; and it maps \<open>1,894\<close> to 1894,
  the empty string to 0 and \<open>abc\<close> to 0.
\<close>

theorem C9_parseNumberSafe:
  "parseNumberSafe str \<noteq> NaN
   \<and> parseNumberSafe (Some s)
       = (if s = [] then Fin 0
          else case parseFloat (filter (\<lambda>c. c \<noteq> COMMA) s) of NaN \<Rightarrow> Fin 0 | v \<Rightarrow> v)
   \<and> parseNumberSafe (Some (lit ''1,894'')) = Fin 1894
   \<and> parseNumberSafe (Some (lit '''')) = Fin 0
   \<and> parseNumberSafe (Some (lit ''abc'')) = Fin 0"
proof -
  have "parseNumberSafe str \<noteq> NaN"
    by (simp add: parseNumberSafe_def orZero_def truthy_def split: option.split)
  moreover have "parseNumberSafe (Some s)
       = (if s = [] then Fin 0
          else case parseFloat (filter (\<lambda>c. c \<noteq> COMMA) s) of NaN \<Rightarrow> Fin 0 | v \<Rightarrow> v)"
    by (simp add: parseNumberSafe_def orZero_def truthy_def split: number.split)
  moreover have "parseNumberSafe (Some (lit ''1,894'')) = Fin 1894"
    by (simp add: parseNumberSafe_def orZero_def truthy_def COMMA_def parse_simps)
  moreover have "parseNumberSafe (Some (lit '''')) = Fin 0"
    by (simp add: parseNumberSafe_def lit_def)
  moreover have "parseNumberSafe (Some (lit ''abc'')) = Fin 0"
    by (simp add: parseNumberSafe_def orZero_def truthy_def COMMA_def parse_simps)
  ultimately show ?thesis by blast
qed

section \<open>Properties of the record builder\<close>

lemma matName_buildRecord_nonempty: "matName (buildRecord idx c) \<noteq> []"
  by (simp add: buildRecord_def orString_def lit_def split: option.split)

lemma fetchCSV_Some:
  assumes "fetchCSV env text = Some parsed"
  shows "1 < length (robustParseCSV text)"
    and "parsed = map (buildRecord (headerColumns env (robustParseCSV text)))
                    (tl (robustParseCSV text))"
proof -
  from assms show "1 < length (robustParseCSV text)"
    by (simp add: fetchCSV_def Let_def split: if_splits)
  have "filter (\<lambda>x. matName x \<noteq> []) (map (buildRecord idx) rows) = map (buildRecord idx) rows"
    for idx rows
    by (simp add: filter_id_conv matName_buildRecord_nonempty)
  with assms show "parsed = map (buildRecord (headerColumns env (robustParseCSV text)))
                    (tl (robustParseCSV text))"
    by (simp add: fetchCSV_def Let_def split: if_splits)
qed

lemma fetchCSV_nth:
  assumes "fetchCSV env text = Some parsed" "i < length parsed"
  shows "parsed ! i = buildRecord (headerColumns env (robustParseCSV text))
                        (robustParseCSV text ! Suc i)"
  using fetchCSV_Some [OF assms(1)] assms(2) by (simp add: nth_tl)

lemmas csv_simps = robustParseCSV_def nextIs_def pushRow_def LF_def CR_def DQUOTE_def COMMA_def
  lit_def

lemmas fetch_simps = headerColumns_def resolveColumns_def findColIdx_def buildRecord_def
  cellAt_def orString_def trim_def isWhiteSpace_def hostIST_def asciiLower_def
  parseNumberSafe_def Let_def lit_def

lemma rows_empty_material:
  "robustParseCSV csvEmptyMaterial
   = [[lit ''Truck'', lit ''Material''], [lit ''T1'', []], [lit ''T2'', lit ''Sand'']]"
  by (simp add: csvEmptyMaterial_def csv_simps)

lemma columns_truck_material:
  "headerColumns hostIST
     [[lit ''Truck'', lit ''Material''], [lit ''T1'', []], [lit ''T2'', lit ''Sand'']]
   = \<lparr>truckCol = 0, matCol = 1, arrivalCol = - 1, endCol = - 1, totalTimeCol = - 1,
      weightCol = - 1\<rparr>"
  by (simp add: fetch_simps)

lemma record_empty_material:
  "buildRecord \<lparr>truckCol = 0, matCol = 1, arrivalCol = - 1, endCol = - 1, totalTimeCol = - 1,
      weightCol = - 1\<rparr> [lit ''T1'', []]
   = \<lparr>truckNo = lit ''T1'', matName = lit ''N/A'', arrivalTime = [], endTime = [],
      totalTime = Fin 0, weight = Fin 0, mxStock = Fin 0, whStock = Fin 0\<rparr>"
  by (simp add: fetch_simps)

lemma record_sand:
  "buildRecord \<lparr>truckCol = 0, matCol = 1, arrivalCol = - 1, endCol = - 1, totalTimeCol = - 1,
      weightCol = - 1\<rparr> [lit ''T2'', lit ''Sand'']
   = \<lparr>truckNo = lit ''T2'', matName = lit ''Sand'', arrivalTime = [], endTime = [],
      totalTime = Fin 0, weight = Fin 0, mxStock = Fin 0, whStock = Fin 0\<rparr>"
  by (simp add: fetch_simps)

lemma fetchCSV_empty_material:
  "fetchCSV hostIST
     csvEmptyMaterial
   = Some [\<lparr>truckNo = lit ''T1'', matName = lit ''N/A'', arrivalTime = [], endTime = [],
             totalTime = Fin 0, weight = Fin 0, mxStock = Fin 0, whStock = Fin 0\<rparr>,
           \<lparr>truckNo = lit ''T2'', matName = lit ''Sand'', arrivalTime = [], endTime = [],
             totalTime = Fin 0, weight = Fin 0, mxStock = Fin 0, whStock = Fin 0\<rparr>]"
  by (simp add: fetchCSV_def rows_empty_material columns_truck_material record_empty_material
      record_sand)

text \<open>
  Claim C1 says that a data row whose material cell is empty is dropped.  On the text
  \<open>csvEmptyMaterial\<close>, with the header \<open>Truck,Material\<close> and the data rows
  \<open>T1,\<close> and \<open>T2,Sand\<close>, the
  record built from \<open>T1,\<close> is kept, under the material name \<open>N/A\<close>: the default
  \<open>|| "N/A"\<close> is applied before \<open>filter(x => !!x.matName)\<close>, which then never
  drops anything.
\<close>

theorem C1_empty_material_row_kept:
  "fetchCSV hostIST
     csvEmptyMaterial
   = Some [\<lparr>truckNo = lit ''T1'', matName = lit ''N/A'', arrivalTime = [], endTime = [],
             totalTime = Fin 0, weight = Fin 0, mxStock = Fin 0, whStock = Fin 0\<rparr>,
           \<lparr>truckNo = lit ''T2'', matName = lit ''Sand'', arrivalTime = [], endTime = [],
             totalTime = Fin 0, weight = Fin 0, mxStock = Fin 0, whStock = Fin 0\<rparr>]"
  by (rule fetchCSV_empty_material)

lemma parseNumberSafe_unparsedOrAbsent:
  "unparsedOrAbsent cell \<Longrightarrow> parseNumberSafe cell = Fin 0"
  by (auto simp: unparsedOrAbsent_def parseNumberSafe_def orZero_def truthy_def
      split: option.splits)

lemma rows_negative_weight:
  "robustParseCSV csvNegativeWeight
   = [[lit ''Material'', lit ''Weight'', lit ''Duration''],
      [lit ''Sand'', lit ''-500'', lit ''-5'']]"
  by (simp add: csvNegativeWeight_def csv_simps)

lemma columns_negative_weight:
  "headerColumns hostIST
     [[lit ''Material'', lit ''Weight'', lit ''Duration''],
      [lit ''Sand'', lit ''-500'', lit ''-5'']]
   = \<lparr>truckCol = - 1, matCol = 0, arrivalCol = - 1, endCol = - 1, totalTimeCol = 2,
      weightCol = 1\<rparr>"
  by (simp add: fetch_simps)

lemma parseFloat_negative:
  "parseFloat (lit ''-500'') = Fin (- 500)" "parseFloat (lit ''-5'') = Fin (- 5)"
  by (simp_all add: parse_simps)

lemma record_negative_weight:
  "buildRecord \<lparr>truckCol = - 1, matCol = 0, arrivalCol = - 1, endCol = - 1, totalTimeCol = 2,
      weightCol = 1\<rparr> [lit ''Sand'', lit ''-500'', lit ''-5'']
   = \<lparr>truckNo = lit ''N/A'', matName = lit ''Sand'', arrivalTime = [], endTime = [],
      totalTime = Fin (- 5), weight = Fin (- 500), mxStock = Fin 0, whStock = Fin 0\<rparr>"
proof -
  have "filter (\<lambda>c. c \<noteq> COMMA) (lit ''-500'') = lit ''-500''"
    and "filter (\<lambda>c. c \<noteq> COMMA) (lit ''-5'') = lit ''-5''"
    by (simp_all add: lit_def COMMA_def)
  then show ?thesis
    by (simp add: buildRecord_def cellAt_def orString_def parseNumberSafe_def
        parseFloat_negative orZero_def truthy_def)
qed

lemma fetchCSV_negative_weight:
  "fetchCSV hostIST csvNegativeWeight
   = Some [\<lparr>truckNo = lit ''N/A'', matName = lit ''Sand'', arrivalTime = [], endTime = [],
             totalTime = Fin (- 5), weight = Fin (- 500), mxStock = Fin 0, whStock = Fin 0\<rparr>]"
  by (simp add: fetchCSV_def rows_negative_weight columns_negative_weight
      record_negative_weight)

text \<open>
  Claim C2, as the specification states it, fails on \<open>csvNegativeWeight\<close>, whose data
  row \<open>Sand,-500,-5\<close> has a negative weight and a negative duration: \<open>parseFloat\<close>
  reads the sign, and nothing in the record builder rejects or clamps a negative number.
\<close>

theorem C2_negative_counterexample:
  "fetchCSV hostIST csvNegativeWeight
   = Some [\<lparr>truckNo = lit ''N/A'', matName = lit ''Sand'', arrivalTime = [], endTime = [],
             totalTime = Fin (- 5), weight = Fin (- 500), mxStock = Fin 0, whStock = Fin 0\<rparr>]
   \<and> \<not> jsGe (Fin (- 5)) (Fin 0) \<and> \<not> jsGe (Fin (- 500)) (Fin 0)"
  by (simp add: fetchCSV_negative_weight jsGe_def jsLe_def)

text \<open>
  Claim C2, amended: in every record that \<open>fetchCSV\<close> builds, \<open>totalTime\<close> and
  \<open>weight\<close> are what \<open>parseNumberSafe\<close> reads in the row's cell of the resolved
  column: never NaN, and zero when the cell is unparsed or absent.  (They are negative
  when the cell holds a negative number.)
\<close>

theorem C2_numeric_fields:
  assumes "fetchCSV env text = Some parsed"
  shows "\<forall>i < length parsed.
      totalTime (parsed ! i)
        = parseNumberSafe (cellAt (robustParseCSV text ! Suc i)
            (totalTimeCol (headerColumns env (robustParseCSV text))))
    \<and> weight (parsed ! i)
        = parseNumberSafe (cellAt (robustParseCSV text ! Suc i)
            (weightCol (headerColumns env (robustParseCSV text))))
    \<and> totalTime (parsed ! i) \<noteq> NaN \<and> weight (parsed ! i) \<noteq> NaN
    \<and> (unparsedOrAbsent (cellAt (robustParseCSV text ! Suc i)
            (totalTimeCol (headerColumns env (robustParseCSV text))))
         \<longrightarrow> totalTime (parsed ! i) = Fin 0)
    \<and> (unparsedOrAbsent (cellAt (robustParseCSV text ! Suc i)
            (weightCol (headerColumns env (robustParseCSV text))))
         \<longrightarrow> weight (parsed ! i) = Fin 0)"
proof (intro allI impI)
  fix i assume "i < length parsed"
  note nth = fetchCSV_nth [OF assms this]
  show "totalTime (parsed ! i)
        = parseNumberSafe (cellAt (robustParseCSV text ! Suc i)
            (totalTimeCol (headerColumns env (robustParseCSV text))))
    \<and> weight (parsed ! i)
        = parseNumberSafe (cellAt (robustParseCSV text ! Suc i)
            (weightCol (headerColumns env (robustParseCSV text))))
    \<and> totalTime (parsed ! i) \<noteq> NaN \<and> weight (parsed ! i) \<noteq> NaN
    \<and> (unparsedOrAbsent (cellAt (robustParseCSV text ! Suc i)
            (totalTimeCol (headerColumns env (robustParseCSV text))))
         \<longrightarrow> totalTime (parsed ! i) = Fin 0)
    \<and> (unparsedOrAbsent (cellAt (robustParseCSV text ! Suc i)
            (weightCol (headerColumns env (robustParseCSV text))))
         \<longrightarrow> weight (parsed ! i) = Fin 0)"
    unfolding nth
    by (simp add: buildRecord_def parseNumberSafe_not_NaN parseNumberSafe_unparsedOrAbsent)
qed

theorem C2_numeric_fields_witness:
  "fetchCSV hostIST csvEmptyMaterial
   = Some [\<lparr>truckNo = lit ''T1'', matName = lit ''N/A'', arrivalTime = [], endTime = [],
             totalTime = Fin 0, weight = Fin 0, mxStock = Fin 0, whStock = Fin 0\<rparr>,
           \<lparr>truckNo = lit ''T2'', matName = lit ''Sand'', arrivalTime = [], endTime = [],
             totalTime = Fin 0, weight = Fin 0, mxStock = Fin 0, whStock = Fin 0\<rparr>]
   \<and> unparsedOrAbsent (cellAt (robustParseCSV csvEmptyMaterial ! Suc 0)
        (weightCol (headerColumns hostIST (robustParseCSV csvEmptyMaterial))))
   \<and> parseNumberSafe (cellAt (robustParseCSV csvEmptyMaterial ! Suc 0)
        (weightCol (headerColumns hostIST (robustParseCSV csvEmptyMaterial)))) = Fin 0"
proof -
  have a: "unparsedOrAbsent (cellAt (robustParseCSV csvEmptyMaterial ! Suc 0)
        (weightCol (headerColumns hostIST (robustParseCSV csvEmptyMaterial))))"
    by (simp add: rows_empty_material columns_truck_material unparsedOrAbsent_def cellAt_def)
  have "parseNumberSafe (cellAt (robustParseCSV csvEmptyMaterial ! Suc 0)
        (weightCol (headerColumns hostIST (robustParseCSV csvEmptyMaterial)))) = Fin 0"
    using C2_numeric_fields [OF fetchCSV_empty_material, THEN spec, of 0] by auto
  with a show ?thesis
    by (simp add: fetchCSV_empty_material)
qed

section \<open>Properties of the calendar\<close>

lemma div_bounds: "0 < k \<Longrightarrow> k * (x div k) \<le> (x::int) \<and> x < k * (x div k) + k"
  by (metis add.commute add_le_cancel_right add_strict_left_mono mult.commute
      div_mult_mod_eq pos_mod_bound pos_mod_sign le_add_same_cancel1)

lemma dayFromYear_bounds:
  "146097 * z - 287811596 \<le> 400 * dayFromYear z"
  "400 * dayFromYear z \<le> 146097 * z - 287810501"
proof -
  define a where "a = (z - 1969) div 4"
  define b where "b = (z - 1901) div 100"
  define c where "c = (z - 1601) div 400"
  have a: "4 * a \<le> z - 1969" "z - 1969 < 4 * a + 4"
    using div_bounds [of 4 "z - 1969"] by (simp_all add: a_def)
  have b: "100 * b \<le> z - 1901" "z - 1901 < 100 * b + 100"
    using div_bounds [of 100 "z - 1901"] by (simp_all add: b_def)
  have c: "400 * c \<le> z - 1601" "z - 1601 < 400 * c + 400"
    using div_bounds [of 400 "z - 1601"] by (simp_all add: c_def)
  have d: "400 * dayFromYear z = 146000 * z - 287620000 + 400 * a - 400 * b + 400 * c"
    by (simp add: dayFromYear_def a_def b_def c_def)
  show "146097 * z - 287811596 \<le> 400 * dayFromYear z"
    unfolding d using a b c by linarith
  show "400 * dayFromYear z \<le> 146097 * z - 287810501"
    unfolding d using a b c by linarith
qed

lemma dayFromYear_strict_mono:
  assumes "y < z"
  shows "dayFromYear y < dayFromYear z"
proof -
  have "y + 1 \<le> z" using assms by simp
  then show ?thesis
    using dayFromYear_bounds(2) [of y] dayFromYear_bounds(1) [of z] by linarith
qed

lemma dayFromYear_mono: "y \<le> z \<Longrightarrow> dayFromYear y \<le> dayFromYear z"
  using dayFromYear_strict_mono [of y z] by (cases "y = z") simp_all

lemma yearFromDay_bounds:
  "dayFromYear (yearFromDay d) \<le> d" "d < dayFromYear (yearFromDay d + 1)"
proof -
  define q where "q = (400 * d) div 146097"
  have q: "146097 * q \<le> 400 * d" "400 * d < 146097 * q + 146097"
    using div_bounds [of 146097 "400 * d"] by (simp_all add: q_def)
  define y1 y2 where "y1 = 1969 + q" and "y2 = 1972 + q"
  have "dayFromYear y1 \<le> d"
    using dayFromYear_bounds(2) [of y1] q y1_def by linarith
  then have lo: "dayFromYear (1969 + q) \<le> d" by (simp only: y1_def)
  have "d < dayFromYear y2"
    using dayFromYear_bounds(1) [of y2] q y2_def by linarith
  then have hi: "d < dayFromYear (1972 + q)" by (simp only: y2_def)
  have y: "yearFromDay d =
      (if d < dayFromYear (1970 + q) then 1969 + q
       else if dayFromYear (1971 + q) \<le> d then 1971 + q else 1970 + q)"
    by (simp add: yearFromDay_def Let_def q_def)
  show "dayFromYear (yearFromDay d) \<le> d"
    unfolding y using lo by auto
  show "d < dayFromYear (yearFromDay d + 1)"
    unfolding y using hi by (auto simp: algebra_simps)
qed

lemma yearFromDay_unique:
  assumes "dayFromYear y \<le> d" "d < dayFromYear (y + 1)"
  shows "yearFromDay d = y"
proof (rule ccontr)
  assume ne: "yearFromDay d \<noteq> y"
  note b = yearFromDay_bounds [of d]
  show False
  proof (cases "yearFromDay d < y")
    case True
    then have "dayFromYear (yearFromDay d + 1) \<le> dayFromYear y"
      by (intro dayFromYear_mono) simp
    with b assms show False by linarith
  next
    case False
    with ne have "dayFromYear (y + 1) \<le> dayFromYear (yearFromDay d)"
      by (intro dayFromYear_mono) simp
    with b assms show False by linarith
  qed
qed





lemma monthFromDay_range: "0 \<le> monthFromDay d" "monthFromDay d \<le> 11"
  by (simp_all add: monthFromDay_def Let_def)

lemma makeDay_roundtrip:
  "makeDay (yearFromDay d) (monthFromDay d) (dateFromDay d + k) = d + k"
proof -
  have "monthFromDay d div 12 = 0" "monthFromDay d mod 12 = monthFromDay d"
    using monthFromDay_range [of d] by simp_all
  then show ?thesis
    by (simp add: makeDay_def Let_def dateFromDay_def dayWithinYear_def)
qed


section \<open>Arithmetic on time values\<close>

lemma jsAdd_int:
  "\<bar>a + b\<bar> < 2 ^ 53 \<Longrightarrow> jsAdd (Fin (of_int a)) (Fin (of_int b)) = Fin (of_int (a + b))"
  using toDouble_of_int [of "a + b"] by simp

lemma jsSub_int:
  "\<bar>a - b\<bar> < 2 ^ 53 \<Longrightarrow> jsSub (Fin (of_int a)) (Fin (of_int b)) = Fin (of_int (a - b))"
  using toDouble_of_int [of "a - b"] by (simp add: jsSub_def)

lemma jsMul_int:
  "\<bar>a * b\<bar> < 2 ^ 53 \<Longrightarrow> jsMul (Fin (of_int a)) (Fin (of_int b)) = Fin (of_int (a * b))"
  using toDouble_of_int [of "a * b"] by simp

lemma timeClip_int:
  "timeClip (Fin (of_int n)) = (if \<bar>n\<bar> \<le> 8640000000000000 then Date n else InvalidDate)"
proof -
  have "(\<bar>of_int n :: rat\<bar> \<le> 8640000000000000) = (\<bar>n\<bar> \<le> 8640000000000000)"
    by (metis of_int_abs of_int_le_iff of_int_numeral)
  then show ?thesis by (simp add: timeClip_def)
qed

lemma makeDate_int:
  assumes "\<bar>dy * 86400000\<bar> < 2 ^ 53" "\<bar>dy * 86400000 + tm\<bar> < 2 ^ 53"
  shows "makeDate dy (Fin (of_int tm)) = Fin (of_int (dy * 86400000 + tm))"
proof -
  have "jsMul (Fin (of_int dy)) (Fin (of_int 86400000)) = Fin (of_int (dy * 86400000))"
    using assms(1) by (rule jsMul_int)
  moreover have "jsAdd (Fin (of_int (dy * 86400000))) (Fin (of_int tm))
      = Fin (of_int (dy * 86400000 + tm))"
    using assms(2) by (rule jsAdd_int)
  ultimately show ?thesis by (simp add: makeDate_def)
qed

lemma day_split: "day t * 86400000 + timeWithinDay t = t"
  by (simp add: day_def timeWithinDay_def msPerDay_def)

lemma timeWithinDay_range: "0 \<le> timeWithinDay t" "timeWithinDay t < 86400000"
  by (simp_all add: timeWithinDay_def msPerDay_def)

lemma setDate_shift:
  assumes t: "\<bar>t\<bar> \<le> 8640000000000000" and z: "\<bar>localTZA env\<bar> \<le> 86400000"
    and k: "\<bar>k\<bar> \<le> 1"
  shows "setDate env t (getDate env t + k) = timeClip (Fin (of_int (t + k * 86400000)))"
proof -
  define lt where "lt = localTime env t"
  define dy where "dy = day lt + k"
  define w where "w = timeWithinDay lt"
  have lt: "lt = t + localTZA env" by (simp add: lt_def localTime_def)
  have split: "day lt * 86400000 + w = lt" unfolding w_def by (rule day_split)
  have w: "0 \<le> w" "w < 86400000" unfolding w_def by (rule timeWithinDay_range)+
  have md: "makeDay (yearFromDay (day lt)) (monthFromDay (day lt)) (getDate env t + k) = dy"
    by (simp add: getDate_def lt_def [symmetric] makeDay_roundtrip dy_def)
  have eq: "dy * 86400000 + w = lt + k * 86400000"
    using split by (simp add: dy_def algebra_simps)
  have k': "- 86400000 \<le> k * 86400000" "k * 86400000 \<le> 86400000" using k by simp_all
  have b1: "\<bar>dy * 86400000\<bar> < 2 ^ 53" using eq w t z k' lt by simp
  have b2: "\<bar>dy * 86400000 + w\<bar> < 2 ^ 53" using eq w t z k' lt by simp
  have b3: "\<bar>dy * 86400000 + w - localTZA env\<bar> < 2 ^ 53" using eq w t z k' lt by simp
  have "makeDate dy (Fin (of_int w)) = Fin (of_int (dy * 86400000 + w))"
    using b1 b2 by (rule makeDate_int)
  moreover have "jsSub (Fin (of_int (dy * 86400000 + w))) (Fin (of_int (localTZA env)))
      = Fin (of_int (dy * 86400000 + w - localTZA env))"
    using b3 by (rule jsSub_int)
  moreover have "dy * 86400000 + w - localTZA env = t + k * 86400000"
    using eq lt by simp
  ultimately show ?thesis
    by (simp add: setDate_def Let_def lt_def [symmetric] md w_def [symmetric] utc_def)
qed






lemma getHours_shiftDay:
  "day (localTime env t) - (if getHours env t < 7 then 1 else 0) = shiftDay env t"
  by (simp add: shiftDay_def getHours_def)

lemmas cal_simps = makeDay_def dayFromYear_def yearFromDay_def monthFromDay_def dateFromDay_def
  dayWithinYear_def monthStart_def isLeapYear_def day_def msPerDay_def msPerHour_def
  msPerMinute_def hourFromTime_def minFromTime_def timeWithinDay_def Let_def

lemma makeTime_numeral:
  "makeTime (Fin 6) (Fin 59) = Fin 25140000" "makeTime (Fin 7) (Fin 0) = Fin 25200000"
  "makeTime (Fin 14) (Fin 30) = Fin 52200000"
  by (simp_all add: makeTime_def)

lemma newDate_local:
  assumes "\<bar>localTZA env\<bar> \<le> 86400000" "\<not> (0 \<le> y \<and> y \<le> 99)"
    and "makeTime hour minute = Fin (of_int tm)"
    and "\<bar>makeDay y m dt * 86400000\<bar> < 2 ^ 52" "\<bar>tm\<bar> < 2 ^ 50"
  shows "newDate env y m dt hour minute
    = timeClip (Fin (of_int (makeDay y m dt * 86400000 + tm - localTZA env)))"
proof -
  have b1: "\<bar>makeDay y m dt * 86400000\<bar> < 2 ^ 53"
    and b2: "\<bar>makeDay y m dt * 86400000 + tm\<bar> < 2 ^ 53"
    and b3: "\<bar>makeDay y m dt * 86400000 + tm - localTZA env\<bar> < 2 ^ 53"
    using assms(1,4,5) by simp_all
  have "makeDate (makeDay y m dt) (Fin (of_int tm)) = Fin (of_int (makeDay y m dt * 86400000 + tm))"
    using b1 b2 by (rule makeDate_int)
  moreover have "jsSub (Fin (of_int (makeDay y m dt * 86400000 + tm))) (Fin (of_int (localTZA env)))
      = Fin (of_int (makeDay y m dt * 86400000 + tm - localTZA env))"
    using b3 by (rule jsSub_int)
  moreover have "(if 0 \<le> y \<and> y \<le> 99 then 1900 + y else y) = y"
    using assms(2) by simp
  ultimately show ?thesis
    by (simp add: newDate_def utc_def assms(3))
qed

section \<open>Properties of the temporal normalizer\<close>

lemma validOrNull_None_iff: "validOrNull d = None \<longleftrightarrow> d = InvalidDate"
  by (simp add: validOrNull_def split: jsDate.split)

lemma fourDigits_Some:
  assumes "fourDigits s = Some (y, r)"
  shows "length y = 4" "\<forall>c \<in> set y. isDigit c" "s = y @ r"
  using assms by (auto simp: fourDigits_def split: if_splits)

lemma digit_not_separator: "isDigit c \<Longrightarrow> \<not> isSeparator c"
  by (auto simp: isDigit_def isSeparator_def)

lemma iso_excludes_dmy:
  assumes "isoMatch s \<noteq> None"
  shows "dmyMatch s = None"
proof -
  from assms obtain y c r where f: "fourDigits s = Some (y, c # r)"
    by (auto simp: isoMatch_def split: option.splits list.splits prod.splits if_splits)
  note F = fourDigits_Some [OF f]
  from F(1) obtain a b c' d where y: "y = [a, b, c', d]"
    by (auto simp: eval_nat_numeral length_Suc_conv)
  with F(2) have dg: "isDigit a" "isDigit b" "isDigit c'" by simp_all
  have s: "s = a # b # c' # d # c # r" using F(3) y by simp
  have "oneOrTwoDigits s = Some ([a, b], c' # d # c # r)"
    using dg by (simp add: oneOrTwoDigits_def s)
  then have "oneOrTwoDigitsSep s = None"
    using digit_not_separator [OF dg(3)] by (simp add: oneOrTwoDigitsSep_def)
  then show ?thesis by (simp add: dmyMatch_def)
qed

lemma dmyMatch_year:
  assumes "dmyMatch s = Some (d, m, y)"
  shows "length y = 4" "\<forall>c \<in> set y. isDigit c"
  using assms
  by (auto simp: dmyMatch_def dest: fourDigits_Some split: option.splits prod.splits)

lemma smartParseDate_cases:
  assumes "str \<noteq> []"
  shows "smartParseDate env str =
    (case isoMatch (fst (dateAndTimePart (cleanDateString str))) of
       Some (y, m, d) \<Rightarrow>
         validOrNull (newDate env (parseIntDigits y) (parseIntDigits m - 1) (parseIntDigits d)
           (fst (timeFields (snd (dateAndTimePart (cleanDateString str)))))
           (snd (timeFields (snd (dateAndTimePart (cleanDateString str))))))
     | None \<Rightarrow>
         (case dmyMatch (fst (dateAndTimePart (cleanDateString str))) of
            Some (d, m, y) \<Rightarrow>
              validOrNull (newDate env (parseIntDigits y) (parseIntDigits m - 1)
                (parseIntDigits d)
                (fst (timeFields (snd (dateAndTimePart (cleanDateString str)))))
                (snd (timeFields (snd (dateAndTimePart (cleanDateString str))))))
          | None \<Rightarrow> validOrNull (newDateFromString env (cleanDateString str))))"
proof -
  obtain dp tp where p: "dateAndTimePart (cleanDateString str) = (dp, tp)"
    by (cases "dateAndTimePart (cleanDateString str)")
  obtain hh mm where t: "timeFields tp = (hh, mm)"
    by (cases "timeFields tp")
  show ?thesis
    using assms
    by (simp add: smartParseDate_def Let_def p t split: option.splits prod.splits)
qed

lemmas str_simps = trim_def isWhiteSpace_def isDigit_def isSeparator_def lit_def Let_def

lemma stringToNumber_examples:
  "stringToNumber (lit ''14'') = Fin 14" "stringToNumber (lit ''30'') = Fin 30"
  by (simp_all add: stringToNumber_def splitSign_def strUnsignedDecimalLiteral_def
      exponentPart_def digitsValue_def signedValue_def nextIs_def str_simps)

lemma timeFields_example: "timeFields (lit ''14:30'') = (Fin 14, Fin 30)"
proof -
  have "splitOn 58 [] (lit ''14:30'') = [lit ''14'', lit ''30'']"
    by (simp add: lit_def)
  then show ?thesis
    by (simp add: timeFields_def stringToNumber_examples orZero_def truthy_def)
qed

lemma year_first_example_parts:
  "cleanDateString (lit ''2024-03-05 14:30'') = lit ''2024-03-05 14:30''"
  "dateAndTimePart (lit ''2024-03-05 14:30'') = (lit ''2024-03-05'', lit ''14:30'')"
  "isoMatch (lit ''2024-03-05'') = Some (lit ''2024'', lit ''03'', lit ''05'')"
  by (simp_all add: cleanDateString_def dateAndTimePart_def isoMatch_def fourDigits_def
      oneOrTwoDigitsSep_def oneOrTwoDigits_def str_simps)

lemma day_first_example_parts:
  "cleanDateString (lit ''05/03/2024 14:30'') = lit ''05/03/2024 14:30''"
  "dateAndTimePart (lit ''05/03/2024 14:30'') = (lit ''05/03/2024'', lit ''14:30'')"
  "isoMatch (lit ''05/03/2024'') = None"
  "dmyMatch (lit ''05/03/2024'') = Some (lit ''05'', lit ''03'', lit ''2024'')"
  by (simp_all add: cleanDateString_def dateAndTimePart_def isoMatch_def dmyMatch_def
      fourDigits_def oneOrTwoDigitsSep_def oneOrTwoDigits_def str_simps)

lemma parseIntDigits_examples:
  "parseIntDigits (lit ''2024'') = 2024" "parseIntDigits (lit ''03'') = 3"
  "parseIntDigits (lit ''05'') = 5"
  by (simp_all add: parseIntDigits_def digitsValue_def lit_def)

lemma newDate_example:
  assumes "\<bar>localTZA env\<bar> \<le> 86400000"
  shows "newDate env 2024 2 5 (Fin 14) (Fin 30) = Date (1709649000000 - localTZA env)"
proof -
  have md: "makeDay 2024 2 5 = 19787" by (simp add: cal_simps)
  have "newDate env 2024 2 5 (Fin 14) (Fin 30)
      = timeClip (Fin (of_int (makeDay 2024 2 5 * 86400000 + 52200000 - localTZA env)))"
    by (rule newDate_local) (use assms in \<open>simp_all add: makeTime_numeral md\<close>)
  moreover have "makeDay 2024 2 5 * 86400000 + 52200000 - localTZA env
      = 1709649000000 - localTZA env"
    by (simp add: md)
  ultimately have "newDate env 2024 2 5 (Fin 14) (Fin 30)
      = timeClip (Fin (of_int (1709649000000 - localTZA env)))"
    by (simp only:)
  then show ?thesis
    unfolding timeClip_int using assms by simp
qed

lemma parse_examples:
  assumes "\<bar>localTZA env\<bar> \<le> 86400000"
  shows "smartParseDate env (lit ''2024-03-05 14:30'') = Some (1709649000000 - localTZA env)"
    and "smartParseDate env (lit ''05/03/2024 14:30'') = Some (1709649000000 - localTZA env)"
  by (simp_all add: smartParseDate_def year_first_example_parts day_first_example_parts
      timeFields_example parseIntDigits_examples newDate_example [OF assms] validOrNull_def)

lemma example_fields:
  "getFullYear env (1709649000000 - localTZA env) = 2024"
  "getMonth env (1709649000000 - localTZA env) = 2"
  "getDate env (1709649000000 - localTZA env) = 5"
  "getHours env (1709649000000 - localTZA env) = 14"
  "getMinutes env (1709649000000 - localTZA env) = 30"
  by (simp_all add: getFullYear_def getMonth_def getDate_def getHours_def getMinutes_def
      localTime_def cal_simps)

text \<open>
  Claim C4: on a non-empty text \<open>smartParseDate\<close> first tries the year-first pattern on
  the date part; only when that does not match, the day-first pattern, whose year group
  is four digits; only when neither matches, the host's generic parser on the whole
  cleaned text.  The two patterns never match the same text.  The attempt made decides
  the result, which is none exactly when the Date of that attempt is invalid.  For every
  constant time zone offset of less than a day, \<open>2024-03-05 14:30\<close> and
  \<open>05/03/2024 14:30\<close> both parse to the instant with local year 2024, month March
  (index 2), day 5, hour 14 and minute 30.
\<close>

theorem C4_parse_instant:
  assumes "str \<noteq> []" "\<bar>localTZA env\<bar> \<le> 86400000"
  shows
    "(\<forall>y m d. isoMatch (fst (dateAndTimePart (cleanDateString str))) = Some (y, m, d) \<longrightarrow>
        dmyMatch (fst (dateAndTimePart (cleanDateString str))) = None
        \<and> smartParseDate env str
          = validOrNull (newDate env (parseIntDigits y) (parseIntDigits m - 1) (parseIntDigits d)
              (fst (timeFields (snd (dateAndTimePart (cleanDateString str)))))
              (snd (timeFields (snd (dateAndTimePart (cleanDateString str)))))))
   \<and> (\<forall>d m y. isoMatch (fst (dateAndTimePart (cleanDateString str))) = None
        \<and> dmyMatch (fst (dateAndTimePart (cleanDateString str))) = Some (d, m, y) \<longrightarrow>
        length y = 4 \<and> (\<forall>c \<in> set y. isDigit c)
        \<and> smartParseDate env str
          = validOrNull (newDate env (parseIntDigits y) (parseIntDigits m - 1) (parseIntDigits d)
              (fst (timeFields (snd (dateAndTimePart (cleanDateString str)))))
              (snd (timeFields (snd (dateAndTimePart (cleanDateString str)))))))
   \<and> (isoMatch (fst (dateAndTimePart (cleanDateString str))) = None
        \<and> dmyMatch (fst (dateAndTimePart (cleanDateString str))) = None \<longrightarrow>
        smartParseDate env str = validOrNull (newDateFromString env (cleanDateString str)))
   \<and> (\<forall>d. validOrNull d = None \<longleftrightarrow> d = InvalidDate)
   \<and> smartParseDate env (lit ''2024-03-05 14:30'') = Some (1709649000000 - localTZA env)
   \<and> smartParseDate env (lit ''05/03/2024 14:30'') = Some (1709649000000 - localTZA env)
   \<and> getFullYear env (1709649000000 - localTZA env) = 2024
   \<and> getMonth env (1709649000000 - localTZA env) = 2
   \<and> getDate env (1709649000000 - localTZA env) = 5
   \<and> getHours env (1709649000000 - localTZA env) = 14
   \<and> getMinutes env (1709649000000 - localTZA env) = 30"
proof -
  note c = smartParseDate_cases [OF assms(1), of env]
  have 1: "dmyMatch (fst (dateAndTimePart (cleanDateString str))) = None
        \<and> smartParseDate env str
          = validOrNull (newDate env (parseIntDigits y) (parseIntDigits m - 1) (parseIntDigits d)
              (fst (timeFields (snd (dateAndTimePart (cleanDateString str)))))
              (snd (timeFields (snd (dateAndTimePart (cleanDateString str))))))"
    if "isoMatch (fst (dateAndTimePart (cleanDateString str))) = Some (y, m, d)" for y m d
    using that iso_excludes_dmy [of "fst (dateAndTimePart (cleanDateString str))"] c by simp
  have 2: "length y = 4 \<and> (\<forall>c \<in> set y. isDigit c)
        \<and> smartParseDate env str
          = validOrNull (newDate env (parseIntDigits y) (parseIntDigits m - 1) (parseIntDigits d)
              (fst (timeFields (snd (dateAndTimePart (cleanDateString str)))))
              (snd (timeFields (snd (dateAndTimePart (cleanDateString str))))))"
    if "isoMatch (fst (dateAndTimePart (cleanDateString str))) = None"
      and "dmyMatch (fst (dateAndTimePart (cleanDateString str))) = Some (d, m, y)" for d m y
    using that dmyMatch_year [OF that(2)] c by simp
  have 3: "smartParseDate env str = validOrNull (newDateFromString env (cleanDateString str))"
    if "isoMatch (fst (dateAndTimePart (cleanDateString str))) = None"
      and "dmyMatch (fst (dateAndTimePart (cleanDateString str))) = None"
    using that c by simp
  show ?thesis
    using 1 2 3 validOrNull_None_iff parse_examples [OF assms(2)] example_fields [of env]
    by blast
qed

theorem C4_parse_instant_witness:
  "lit ''2024-03-05 14:30'' \<noteq> [] \<and> \<bar>localTZA hostIST\<bar> \<le> 86400000
   \<and> isoMatch (fst (dateAndTimePart (cleanDateString (lit ''2024-03-05 14:30''))))
       = Some (lit ''2024'', lit ''03'', lit ''05'')
   \<and> smartParseDate hostIST (lit ''2024-03-05 14:30'') = Some 1709629200000
   \<and> smartParseDate hostIST (lit ''05/03/2024 14:30'') = Some 1709629200000
   \<and> getHours hostIST 1709629200000 = 14"
proof -
  have s: "lit ''2024-03-05 14:30'' \<noteq> []" by simp
  have z: "\<bar>localTZA hostIST\<bar> \<le> 86400000" by (simp add: hostIST_def)
  have t: "1709649000000 - localTZA hostIST = 1709629200000" by (simp add: hostIST_def)
  from C4_parse_instant [OF s z]
  have "smartParseDate hostIST (lit ''2024-03-05 14:30'') = Some (1709649000000 - localTZA hostIST)"
    and "smartParseDate hostIST (lit ''05/03/2024 14:30'') = Some (1709649000000 - localTZA hostIST)"
    and "getHours hostIST (1709649000000 - localTZA hostIST) = 14"
    by blast+
  then show ?thesis
    unfolding t using z by (simp add: year_first_example_parts)
qed

section \<open>Properties of the filter\<close>

lemma timeClip_range:
  assumes "timeClip n = Date t"
  shows "\<bar>t\<bar> \<le> 8640000000000000"
proof -
  from assms obtain x where x: "n = Fin x" "\<bar>x\<bar> \<le> 8640000000000000"
    and t: "t = (if 0 \<le> x then \<lfloor>x\<rfloor> else \<lceil>x\<rceil>)"
    by (auto simp: timeClip_def split: number.splits if_splits)
  have f: "\<lfloor>x\<rfloor> \<le> 8640000000000000"
    using floor_mono [of x 8640000000000000] x(2) by simp
  have c: "- 8640000000000000 \<le> \<lceil>x\<rceil>"
    using ceiling_mono [of "- 8640000000000000" x] x(2) by simp
  show ?thesis
  proof (cases "0 \<le> x")
    case True
    then have "0 \<le> \<lfloor>x\<rfloor>" by simp
    moreover have "t = \<lfloor>x\<rfloor>" using True by (simp add: t)
    ultimately show ?thesis using f by linarith
  next
    case False
    then have "\<lceil>x\<rceil> \<le> 0" by (simp add: ceiling_le_iff)
    moreover have "t = \<lceil>x\<rceil>" using False by (simp add: t)
    ultimately show ?thesis using c by linarith
  qed
qed

lemma newDate_range: "newDate env y m dt hour minute = Date t \<Longrightarrow> \<bar>t\<bar> \<le> 8640000000000000"
  by (simp add: newDate_def Let_def timeClip_range)

lemma smartParseDate_range:
  assumes "smartParseDate env str = Some t"
  shows "\<bar>t\<bar> \<le> 8640000000000000"
proof -
  have ne: "str \<noteq> []" using assms by (auto simp: smartParseDate_def)
  have v: "validOrNull d = Some t \<Longrightarrow> d = Date t" for d
    by (simp add: validOrNull_def split: jsDate.splits)
  have s: "newDateFromString env c = Date t \<Longrightarrow> \<bar>t\<bar> \<le> 8640000000000000" for c
    by (simp add: newDateFromString_def split: jsDate.splits if_splits)
  show ?thesis
    using assms unfolding smartParseDate_cases [OF ne]
    by (auto split: option.splits prod.splits dest!: v dest: newDate_range s)
qed

lemma newDate_exact:
  assumes "\<not> (0 \<le> y \<and> y \<le> 99)" "makeTime hour minute = Fin (of_int tm)"
    and "\<bar>makeDay y m dt * 86400000\<bar> < 2 ^ 53"
    and "\<bar>makeDay y m dt * 86400000 + tm\<bar> < 2 ^ 53"
    and "\<bar>makeDay y m dt * 86400000 + tm - localTZA env\<bar> < 2 ^ 53"
  shows "newDate env y m dt hour minute
    = timeClip (Fin (of_int (makeDay y m dt * 86400000 + tm - localTZA env)))"
proof -
  have "makeDate (makeDay y m dt) (Fin (of_int tm)) = Fin (of_int (makeDay y m dt * 86400000 + tm))"
    using assms(3,4) by (rule makeDate_int)
  moreover have "jsSub (Fin (of_int (makeDay y m dt * 86400000 + tm))) (Fin (of_int (localTZA env)))
      = Fin (of_int (makeDay y m dt * 86400000 + tm - localTZA env))"
    using assms(5) by (rule jsSub_int)
  moreover have "(if 0 \<le> y \<and> y \<le> 99 then 1900 + y else y) = y"
    using assms(1) by simp
  ultimately show ?thesis
    by (simp add: newDate_def utc_def assms(2))
qed

lemma boundary_shift:
  assumes t: "\<bar>t\<bar> \<le> 8640000000000000" and z: "\<bar>localTZA env\<bar> \<le> 86400000"
    and y: "\<not> (0 \<le> getFullYear env t \<and> getFullYear env t \<le> 99)" and k: "\<bar>k\<bar> \<le> 1"
  shows "newDate env (getFullYear env t) (getMonth env t) (getDate env t + k) (Fin 7) (Fin 0)
    = timeClip (Fin (of_int (shiftDayStart env t + k * 86400000)))"
proof -
  define lt where "lt = localTime env t"
  define w where "w = timeWithinDay lt"
  have lt: "lt = t + localTZA env" by (simp add: lt_def localTime_def)
  have split: "day lt * 86400000 + w = lt" unfolding w_def by (rule day_split)
  have w: "0 \<le> w" "w < 86400000" unfolding w_def by (rule timeWithinDay_range)+
  have md: "makeDay (getFullYear env t) (getMonth env t) (getDate env t + k) = day lt + k"
    by (simp add: getFullYear_def getMonth_def getDate_def lt_def [symmetric] makeDay_roundtrip)
  have k': "- 86400000 \<le> k * 86400000" "k * 86400000 \<le> 86400000" using k by simp_all
  have e: "(day lt + k) * 86400000 = lt - w + k * 86400000"
    using split by (simp add: algebra_simps)
  have b1: "\<bar>(day lt + k) * 86400000\<bar> < 2 ^ 53"
    and b2: "\<bar>(day lt + k) * 86400000 + 25200000\<bar> < 2 ^ 53"
    and b3: "\<bar>(day lt + k) * 86400000 + 25200000 - localTZA env\<bar> < 2 ^ 53"
    unfolding e using w t z k' lt by simp_all
  have "newDate env (getFullYear env t) (getMonth env t) (getDate env t + k) (Fin 7) (Fin 0)
    = timeClip (Fin (of_int (makeDay (getFullYear env t) (getMonth env t) (getDate env t + k)
        * 86400000 + 25200000 - localTZA env)))"
    using y by (rule newDate_exact) (use b1 b2 b3 in \<open>simp_all add: md makeTime_numeral\<close>)
  moreover have "makeDay (getFullYear env t) (getMonth env t) (getDate env t + k)
        * 86400000 + 25200000 - localTZA env = shiftDayStart env t + k * 86400000"
    unfolding md by (simp add: shiftDayStart_def lt_def algebra_simps)
  ultimately show ?thesis by (simp only:)
qed

lemma boundaries_explicit:
  assumes "smartParseDate env str1 = Some s" "smartParseDate env str2 = Some e"
    and "\<bar>localTZA env\<bar> \<le> 86400000"
    and "\<not> (0 \<le> getFullYear env s \<and> getFullYear env s \<le> 99)"
    and "\<not> (0 \<le> getFullYear env e \<and> getFullYear env e \<le> 99)"
    and "\<bar>shiftDayStart env s\<bar> \<le> 8640000000000000"
    and "\<bar>shiftDayStart env e + 86400000\<bar> \<le> 8640000000000000"
  shows "startBoundary env s = Date (shiftDayStart env s)"
    and "endBoundary env e = Date (shiftDayStart env e + 86400000)"
proof -
  have "newDate env (getFullYear env s) (getMonth env s) (getDate env s + 0) (Fin 7) (Fin 0)
      = timeClip (Fin (of_int (shiftDayStart env s + 0 * 86400000)))"
    using smartParseDate_range [OF assms(1)] assms(3,4) by (rule boundary_shift) simp
  then have "startBoundary env s = timeClip (Fin (of_int (shiftDayStart env s)))"
    by (simp add: startBoundary_def)
  then show "startBoundary env s = Date (shiftDayStart env s)"
    unfolding timeClip_int using assms(6) by simp
  have "newDate env (getFullYear env e) (getMonth env e) (getDate env e + 1) (Fin 7) (Fin 0)
      = timeClip (Fin (of_int (shiftDayStart env e + 1 * 86400000)))"
    using smartParseDate_range [OF assms(2)] assms(3,5) by (rule boundary_shift) simp
  moreover have "shiftDayStart env e + 1 * 86400000 = shiftDayStart env e + 86400000" by simp
  ultimately have "endBoundary env e = timeClip (Fin (of_int (shiftDayStart env e + 86400000)))"
    by (simp only: endBoundary_def)
  then show "endBoundary env e = Date (shiftDayStart env e + 86400000)"
    unfolding timeClip_int using assms(7) by simp
qed

lemma filteredData_filter:
  assumes "smartParseDate env (startDate f) = Some s" "smartParseDate env (endDate f) = Some e"
  shows "filteredData env rawData f
    = filter (\<lambda>r. (\<exists>d. smartParseDate env (arrivalTime r) = Some d
                      \<and> dateGe (Date d) (startBoundary env s)
                      \<and> dateLt (Date d) (endBoundary env e))
                 \<and> (material f = []
                      \<or> includesStr (toLowerCase env (matName r)) (toLowerCase env (material f))))
        rawData"
proof -
  have "inRange env sB eB r
      = (\<exists>d. smartParseDate env (arrivalTime r) = Some d \<and> dateGe (Date d) sB \<and> dateLt (Date d) eB)"
    for sB eB r
    by (simp add: inRange_def split: option.split)
  then show ?thesis
    using assms by (simp add: filteredData_def matchesMaterial_def)
qed

text \<open>
  Claim C5: when the start and the end date of the filter parse, \<open>filteredData\<close>
  keeps exactly the records whose arrival text parses to an instant \<open>d\<close> with
  \<open>sB \<le> d < eB\<close> and whose material name contains the filter text, both in lower
  case, or the filter text is empty; a record whose arrival text does not parse is never
  kept.  \<open>sB\<close> and \<open>eB\<close> are the Dates the code builds from the fields of the parsed
  start and end date; for a constant offset of less than a day, years outside 0 to 99,
  and boundaries that are time values, they are 07:00 local time on the start date and
  07:00 local time on the day after the end date.
\<close>

theorem C5_filter:
  assumes "smartParseDate env (startDate f) = Some s" "smartParseDate env (endDate f) = Some e"
  shows
    "filteredData env rawData f
      = filter (\<lambda>r. (\<exists>d. smartParseDate env (arrivalTime r) = Some d
                        \<and> dateGe (Date d) (startBoundary env s)
                        \<and> dateLt (Date d) (endBoundary env e))
                   \<and> (material f = []
                        \<or> includesStr (toLowerCase env (matName r))
                             (toLowerCase env (material f))))
          rawData
     \<and> (\<forall>r \<in> set (filteredData env rawData f). smartParseDate env (arrivalTime r) \<noteq> None)
     \<and> (\<bar>localTZA env\<bar> \<le> 86400000
          \<and> \<not> (0 \<le> getFullYear env s \<and> getFullYear env s \<le> 99)
          \<and> \<not> (0 \<le> getFullYear env e \<and> getFullYear env e \<le> 99)
          \<and> \<bar>shiftDayStart env s\<bar> \<le> 8640000000000000
          \<and> \<bar>shiftDayStart env e + 86400000\<bar> \<le> 8640000000000000
        \<longrightarrow> filteredData env rawData f
          = filter (\<lambda>r. (\<exists>d. smartParseDate env (arrivalTime r) = Some d
                            \<and> shiftDayStart env s \<le> d
                            \<and> d < shiftDayStart env e + 86400000)
                       \<and> (material f = []
                            \<or> includesStr (toLowerCase env (matName r))
                                 (toLowerCase env (material f))))
              rawData)"
proof (intro conjI impI)
  note eq = filteredData_filter [OF assms, of rawData]
  show "filteredData env rawData f
      = filter (\<lambda>r. (\<exists>d. smartParseDate env (arrivalTime r) = Some d
                        \<and> dateGe (Date d) (startBoundary env s)
                        \<and> dateLt (Date d) (endBoundary env e))
                   \<and> (material f = []
                        \<or> includesStr (toLowerCase env (matName r))
                             (toLowerCase env (material f))))
          rawData"
    by (rule eq)
  show "\<forall>r \<in> set (filteredData env rawData f). smartParseDate env (arrivalTime r) \<noteq> None"
    unfolding eq by auto
  assume b: "\<bar>localTZA env\<bar> \<le> 86400000
          \<and> \<not> (0 \<le> getFullYear env s \<and> getFullYear env s \<le> 99)
          \<and> \<not> (0 \<le> getFullYear env e \<and> getFullYear env e \<le> 99)
          \<and> \<bar>shiftDayStart env s\<bar> \<le> 8640000000000000
          \<and> \<bar>shiftDayStart env e + 86400000\<bar> \<le> 8640000000000000"
  have sB: "startBoundary env s = Date (shiftDayStart env s)"
    and eB: "endBoundary env e = Date (shiftDayStart env e + 86400000)"
    using boundaries_explicit [OF assms] b by blast+
  show "filteredData env rawData f
          = filter (\<lambda>r. (\<exists>d. smartParseDate env (arrivalTime r) = Some d
                            \<and> shiftDayStart env s \<le> d
                            \<and> d < shiftDayStart env e + 86400000)
                       \<and> (material f = []
                            \<or> includesStr (toLowerCase env (matName r))
                                 (toLowerCase env (material f))))
              rawData"
    unfolding eq sB eB by (simp add: dateGe_def dateLt_def)
qed

lemmas parse_eval = smartParseDate_def cleanDateString_def dateAndTimePart_def timeFields_def
  isoMatch_def dmyMatch_def fourDigits_def oneOrTwoDigitsSep_def oneOrTwoDigits_def
  parseIntDigits_def digitsValue_def validOrNull_def newDateFromString_def
  stringToNumber_def splitSign_def strUnsignedDecimalLiteral_def exponentPart_def
  signedValue_def nextIs_def orZero_def truthy_def str_simps

lemmas date_eval = newDate_def makeTime_def makeDate_def utc_def timeClip_def jsSub_def
  hostIST_def cal_simps

lemma example_parses:
  "smartParseDate hostIST (lit ''2024-01-09'') = Some 1704738600000"
  "smartParseDate hostIST (lit ''2024-01-10'') = Some 1704825000000"
  "smartParseDate hostIST (lit ''2024-01-10 06:30'') = Some 1704848400000"
  "smartParseDate hostIST (lit ''2024-01-11 08:00'') = Some 1704940200000"
  "smartParseDate hostIST (lit ''soon'') = None"
  by (simp_all add: parse_eval date_eval)

lemma example_boundaries:
  "\<bar>localTZA hostIST\<bar> \<le> 86400000"
  "getFullYear hostIST 1704738600000 = 2024" "getFullYear hostIST 1704825000000 = 2024"
  "shiftDayStart hostIST 1704738600000 = 1704763800000"
  "shiftDayStart hostIST 1704825000000 + 86400000 = 1704936600000"
  by (simp_all add: getFullYear_def shiftDayStart_def localTime_def hostIST_def cal_simps)

lemma example_materials:
  "includesStr (toLowerCase hostIST (lit ''Sand'')) (toLowerCase hostIST (lit ''san''))"
  "\<not> includesStr (toLowerCase hostIST (lit ''Gravel'')) (toLowerCase hostIST (lit ''san''))"
  by (simp_all add: hostIST_def asciiLower_def lit_def)

theorem C5_filter_witness:
  "smartParseDate hostIST (startDate exampleFilter) = Some 1704738600000
   \<and> smartParseDate hostIST (endDate exampleFilter) = Some 1704825000000
   \<and> \<bar>localTZA hostIST\<bar> \<le> 86400000
   \<and> getFullYear hostIST 1704738600000 = 2024 \<and> getFullYear hostIST 1704825000000 = 2024
   \<and> shiftDayStart hostIST 1704738600000 = 1704763800000
   \<and> shiftDayStart hostIST 1704825000000 + 86400000 = 1704936600000
   \<and> filteredData hostIST exampleRecords exampleFilter
       = [exampleTruck (lit ''Sand'') (lit ''2024-01-10 06:30'') (Fin 48) (Fin 1200)]"
proof -
  have s: "smartParseDate hostIST (startDate exampleFilter) = Some 1704738600000"
    and e: "smartParseDate hostIST (endDate exampleFilter) = Some 1704825000000"
    by (simp_all add: exampleFilter_def example_parses)
  have "filteredData hostIST exampleRecords exampleFilter
      = filter (\<lambda>r. (\<exists>d. smartParseDate hostIST (arrivalTime r) = Some d
                        \<and> shiftDayStart hostIST 1704738600000 \<le> d
                        \<and> d < shiftDayStart hostIST 1704825000000 + 86400000)
                   \<and> (material exampleFilter = []
                        \<or> includesStr (toLowerCase hostIST (matName r))
                             (toLowerCase hostIST (material exampleFilter))))
          exampleRecords"
    by (rule C5_filter [OF s e, THEN conjunct2, THEN conjunct2, THEN mp])
      (simp add: example_boundaries)
  then have "filteredData hostIST exampleRecords exampleFilter
       = [exampleTruck (lit ''Sand'') (lit ''2024-01-10 06:30'') (Fin 48) (Fin 1200)]"
    by (simp add: example_boundaries exampleRecords_def exampleTruck_def exampleFilter_def
        example_parses example_materials)
  with s e show ?thesis by (simp add: example_boundaries)
qed

section \<open>Properties of the shift date\<close>








section \<open>The order of the Numbers\<close>

lemma isDouble_toDouble [simp]: "isDouble (toDouble x)"
  by (auto simp: isDouble_def split: number.split dest: toDouble_idem)

lemma isDouble_simps [simp]: "isDouble NaN" "isDouble PInf" "isDouble NInf"
  by (simp_all add: isDouble_def)

lemma isDouble_jsAdd [simp]: "isDouble (jsAdd a b)"
  by (cases a; cases b) simp_all



lemma jsLe_Fin [simp]: "jsLe (Fin x) (Fin y) \<longleftrightarrow> x \<le> y"
  by (auto simp: jsLe_def)

lemma jsLe_PInf [simp]: "jsLe a PInf \<longleftrightarrow> a \<noteq> NaN"
  by (cases a) (simp_all add: jsLe_def)

lemma toDouble_grid:
  assumes "toDouble x = Fin a"
  shows "\<exists>k::int. a = of_int k * 2 powi (- 1074)"
proof -
  from toDouble_form [OF assms] obtain n e
    where e: "- 1074 \<le> e" and a: "a = of_int n * 2 powi e" by blast
  define m where "m = nat (e + 1074)"
  have "e = int m + (- 1074)" using e by (simp add: m_def)
  then have "(2::rat) powi e = 2 powi (int m) * 2 powi (- 1074)"
    by (simp only: pow2_add)
  then have "a = of_int (n * 2 ^ m) * 2 powi (- 1074)"
    by (simp only: a of_int_mult of_int_power of_int_numeral power_int_of_nat mult.assoc)
  then show ?thesis ..
qed

lemma toDouble_positive:
  assumes "toDouble x = Fin a" "toDouble y = Fin b" "b < a"
  shows "jsLt (Fin 0) (toDouble (a - b))"
proof -
  from toDouble_grid [OF assms(1)] obtain k where k: "a = of_int k * 2 powi (- 1074)" ..
  from toDouble_grid [OF assms(2)] obtain l where l: "b = of_int l * 2 powi (- 1074)" ..
  have d: "a - b = of_int (k - l) * 2 powi (- 1074)" by (simp add: k l algebra_simps)
  have "0 < (of_int (k - l) :: rat) * 2 powi (- 1074)" using assms(3) unfolding d [symmetric] by simp
  then have "0 < (of_int (k - l) :: rat)" by (simp add: zero_less_mult_iff)
  then have "1 \<le> k - l" by simp
  then have "(1::rat) \<le> of_int (k - l)" by (simp only: of_int_1_le_iff)
  then have "1 * 2 powi (- 1074) \<le> (of_int (k - l) :: rat) * 2 powi (- 1074)"
    by (intro mult_right_mono) simp_all
  then have "of_int 1 * 2 powi (- 1074) \<le> a - b" by (simp add: d)
  then have "jsLe (toDouble (of_int 1 * 2 powi (- 1074))) (toDouble (a - b))"
    by (rule toDouble_mono)
  moreover have "toDouble (of_int 1 * 2 powi (- 1074)) = Fin (of_int 1 * 2 powi (- 1074))"
    by (rule toDouble_exact) simp_all
  moreover have "(0::rat) < of_int 1 * 2 powi (- 1074)" by simp
  ultimately show ?thesis
    by (cases "toDouble (a - b)") (auto simp: jsLe_def simp del: power_int_minus)
qed

lemma jsSub_positive_iff:
  assumes "isDouble a" "isDouble b" "a \<noteq> NaN" "b \<noteq> NaN"
  shows "jsGt (jsSub a b) (Fin 0) \<longleftrightarrow> jsLt b a"
proof (cases a)
  case (Fin x)
  note a = this
  show ?thesis
  proof (cases b)
    case (Fin y)
    have xa: "toDouble x = Fin x" and yb: "toDouble y = Fin y"
      using assms(1,2) a Fin by (simp_all add: isDouble_def)
    show ?thesis
    proof (cases "y < x")
      case True
      from toDouble_positive [OF xa yb True] show ?thesis
        using True by (simp add: a Fin jsSub_def jsGt_def)
    next
      case False
      then have "x - y \<le> 0" by simp
      then have "jsLe (toDouble (x - y)) (toDouble 0)" by (rule toDouble_mono)
      then have "\<not> jsLt (Fin 0) (toDouble (x - y))"
        by (simp add: jsLe_def toDouble_def [of 0])
      then show ?thesis using False by (simp add: a Fin jsSub_def jsGt_def)
    qed
  qed (use assms a in \<open>simp_all add: jsSub_def jsGt_def\<close>)
qed (use assms in \<open>cases b; simp add: jsSub_def jsGt_def\<close>)+

section \<open>The sort of the language on a consistent comparison\<close>

lemma insertBy_set [simp]: "set (insertBy cmp x ys) = insert x (set ys)"
  by (induction ys) auto

lemma insertBy_length [simp]: "length (insertBy cmp x ys) = Suc (length ys)"
  by (induction ys) auto

lemma foldl_insertBy_set:
  "set (foldl (\<lambda>acc x. insertBy cmp x acc) acc xs) = set acc \<union> set xs"
  by (induction xs arbitrary: acc) auto

lemma sortBy_set [simp]: "set (sortBy cmp xs) = set xs"
  by (simp add: sortBy_def foldl_insertBy_set)

lemma foldl_insertBy_length:
  "length (foldl (\<lambda>acc x. insertBy cmp x acc) acc xs) = length acc + length xs"
  by (induction xs arbitrary: acc) auto

lemma sortBy_length [simp]: "length (sortBy cmp xs) = length xs"
  by (simp add: sortBy_def foldl_insertBy_length)


lemma not_jsLt_imp_jsLe: "\<not> jsLt a b \<Longrightarrow> a \<noteq> NaN \<Longrightarrow> b \<noteq> NaN \<Longrightarrow> jsLe b a"
  by (simp add: jsLe_def)

lemma jsLt_not_jsLe: "jsLt a b \<Longrightarrow> \<not> jsLe b a"
  by (simp add: jsLe_def)





section \<open>Consistent comparisons\<close>

lemma jsSub_negative_iff:
  assumes "isDouble a" "isDouble b" "a \<noteq> NaN" "b \<noteq> NaN"
  shows "jsLt (jsSub a b) (Fin 0) \<longleftrightarrow> jsLt a b"
proof (cases a)
  case (Fin x)
  note a = this
  show ?thesis
  proof (cases b)
    case (Fin y)
    have xa: "toDouble x = Fin x" and yb: "toDouble y = Fin y"
      using assms(1,2) a Fin by (simp_all add: isDouble_def)
    show ?thesis
    proof (cases "x < y")
      case True
      from toDouble_positive [OF yb xa True] have "jsLt (Fin 0) (toDouble (y - x))" .
      moreover have "toDouble (x - y) = jsNeg (toDouble (y - x))"
        using toDouble_neg [of "y - x"] by simp
      ultimately have "jsLt (toDouble (x - y)) (Fin 0)"
        by (cases "toDouble (y - x)") simp_all
      then show ?thesis using True by (simp add: a Fin jsSub_def)
    next
      case False
      then have "0 \<le> x - y" by simp
      then have "jsLe (toDouble 0) (toDouble (x - y))" by (rule toDouble_mono)
      then have "\<not> jsLt (toDouble (x - y)) (Fin 0)"
        by (simp add: jsLe_def toDouble_def [of 0])
      then show ?thesis using False by (simp add: a Fin jsSub_def)
    qed
  qed (use assms a in \<open>simp_all add: jsSub_def\<close>)
qed (use assms in \<open>cases b; simp add: jsSub_def\<close>)+

lemma jsLt_irrefl [simp]: "\<not> jsLt a a"
  by (cases a) simp_all

lemma jsLt_trans: "jsLt a b \<Longrightarrow> jsLt b c \<Longrightarrow> jsLt a c"
  by (cases a; cases b; cases c) auto

lemma jsLt_asym: "jsLt a b \<Longrightarrow> \<not> jsLt b a"
  by (cases a; cases b) auto

lemma jsLt_total: "a \<noteq> NaN \<Longrightarrow> b \<noteq> NaN \<Longrightarrow> \<not> jsLt a b \<Longrightarrow> \<not> jsLt b a \<Longrightarrow> a = b"
  by (cases a; cases b) auto

lemma compareSign_keys:
  assumes "isDouble (key a)" "key a \<noteq> NaN" "isDouble (key b)" "key b \<noteq> NaN"
  shows "compareSign (\<lambda>a b. jsSub (key b) (key a)) a b
    = (if jsLt (key b) (key a) then - 1 else if jsLt (key a) (key b) then 1 else 0)"
  using jsSub_negative_iff [OF assms(3,1,4,2)] jsSub_positive_iff [OF assms(3,1,4,2)]
  by (simp add: compareSign_def)

lemma consistentOn_keys:
  assumes "\<forall>p\<in>set xs. isDouble (key p) \<and> key p \<noteq> NaN"
  shows "consistentOn (\<lambda>a b. jsSub (key b) (key a)) xs"
proof -
  have s: "compareSign (\<lambda>a b. jsSub (key b) (key a)) a b
      = (if jsLt (key b) (key a) then - 1 else if jsLt (key a) (key b) then 1 else 0)"
    if "a \<in> set xs" "b \<in> set xs" for a b
    using that assms by (intro compareSign_keys) simp_all
  have n: "key a \<noteq> NaN" if "a \<in> set xs" for a using that assms by simp
  show ?thesis
    unfolding consistentOn_def list_all_iff
  proof (intro ballI conjI impI)
    fix a assume "a \<in> set xs"
    then show "compareSign (\<lambda>a b. jsSub (key b) (key a)) a a = 0" by (simp add: s)
  next
    fix a b assume ab: "a \<in> set xs" "b \<in> set xs"
      and "compareSign (\<lambda>a b. jsSub (key b) (key a)) a b = 0"
    then show "compareSign (\<lambda>a b. jsSub (key b) (key a)) b a = 0"
      by (simp add: s split: if_splits)
  next
    fix a b c assume abc: "a \<in> set xs" "b \<in> set xs" "c \<in> set xs"
      and "compareSign (\<lambda>a b. jsSub (key b) (key a)) a b = 0
           \<and> compareSign (\<lambda>a b. jsSub (key b) (key a)) b c = 0"
    then have "\<not> jsLt (key a) (key b)" "\<not> jsLt (key b) (key a)"
      "\<not> jsLt (key b) (key c)" "\<not> jsLt (key c) (key b)"
      by (simp_all add: s split: if_splits)
    then have "key a = key b" "key b = key c"
      using n abc by (auto intro: jsLt_total)
    then show "compareSign (\<lambda>a b. jsSub (key b) (key a)) a c = 0"
      using abc by (simp add: s)
  next
    fix a b c assume abc: "a \<in> set xs" "b \<in> set xs" "c \<in> set xs"
      and "compareSign (\<lambda>a b. jsSub (key b) (key a)) a b < 0
           \<and> compareSign (\<lambda>a b. jsSub (key b) (key a)) b c < 0"
    then have "jsLt (key b) (key a)" "jsLt (key c) (key b)"
      by (simp_all add: s split: if_splits)
    then have "jsLt (key c) (key a)" by (metis jsLt_trans)
    then show "compareSign (\<lambda>a b. jsSub (key b) (key a)) a c < 0"
      using abc by (simp add: s)
  next
    fix a b c assume abc: "a \<in> set xs" "b \<in> set xs" "c \<in> set xs"
      and "0 < compareSign (\<lambda>a b. jsSub (key b) (key a)) a b
           \<and> 0 < compareSign (\<lambda>a b. jsSub (key b) (key a)) b c"
    then have "jsLt (key a) (key b)" "jsLt (key b) (key c)"
      by (simp_all add: s split: if_splits)
    then have "jsLt (key a) (key c)" by (metis jsLt_trans)
    moreover from this have "\<not> jsLt (key c) (key a)" by (rule jsLt_asym)
    ultimately show "0 < compareSign (\<lambda>a b. jsSub (key b) (key a)) a c"
      using abc by (simp add: s)
  qed
qed

lemma consistentOn_flat:
  assumes "\<forall>a\<in>set xs. \<forall>b\<in>set xs. compareSign cmp a b = 0"
  shows "consistentOn cmp xs"
  using assms unfolding consistentOn_def list_all_iff by simp

lemma insertBy_flat:
  assumes "\<forall>y\<in>set ys. \<not> jsGt (cmp y x) (Fin 0)"
  shows "insertBy cmp x ys = ys @ [x]"
  using assms by (induction ys) simp_all

lemma foldl_insertBy_flat:
  assumes "\<forall>x\<in>set acc \<union> set xs. \<forall>y\<in>set acc \<union> set xs. \<not> jsGt (cmp y x) (Fin 0)"
  shows "foldl (\<lambda>acc x. insertBy cmp x acc) acc xs = acc @ xs"
  using assms
proof (induction xs arbitrary: acc)
  case Nil
  show ?case by simp
next
  case (Cons x xs)
  have "insertBy cmp x acc = acc @ [x]" using Cons.prems by (intro insertBy_flat) simp
  moreover have "foldl (\<lambda>acc x. insertBy cmp x acc) (acc @ [x]) xs = (acc @ [x]) @ xs"
    using Cons.prems by (intro Cons.IH) auto
  ultimately show ?case by simp
qed

lemma sortBy_flat:
  assumes "\<forall>a\<in>set xs. \<forall>b\<in>set xs. compareSign cmp a b = 0"
  shows "sortBy cmp xs = xs"
proof -
  have "\<not> jsGt (cmp y x) (Fin 0)" if "x \<in> set xs" "y \<in> set xs" for x y
    using assms that by (auto simp: compareSign_def split: if_splits)
  then show ?thesis
    unfolding sortBy_def using foldl_insertBy_flat [of "[]" xs cmp] by simp
qed

lemma sortWith_consistent:
  "consistentOn cmp xs \<Longrightarrow> sortWith engine cmp xs = sortBy cmp xs"
  by (simp add: sortWith_def)

lemma sortWith_set:
  assumes "consistentOn cmp xs \<or> (\<forall>ys. set (engine ys) = set ys \<and> length (engine ys) = length ys)"
  shows "set (sortWith engine cmp xs) = set xs" "length (sortWith engine cmp xs) = length xs"
  using assms by (auto simp: sortWith_def)

lemma arrivalMillis_double: "isDouble (arrivalMillis env r) \<and> arrivalMillis env r \<noteq> NaN"
proof (cases "smartParseDate env (arrivalTime r)")
  case None
  then show ?thesis by (simp add: arrivalMillis_def isDouble_def)
next
  case (Some t)
  then have "\<bar>t\<bar> \<le> 8640000000000000" by (rule smartParseDate_range)
  then have "\<bar>t\<bar> < 2 ^ 53" by simp
  then have "toDouble (of_int t) = Fin (of_int t)" by (rule toDouble_of_int)
  then show ?thesis
    using Some by (simp add: arrivalMillis_def isDouble_def orZero_def truthy_def)
qed

lemma monitor_comparison_consistent:
  "consistentOn (\<lambda>a b. jsSub (arrivalMillis env b) (arrivalMillis env a)) xs"
  by (rule consistentOn_keys) (simp add: arrivalMillis_double)

section \<open>Properties of the monitor view\<close>

lemma jsGt_mathMin_100: "\<not> jsGt (mathMin (Fin 100) y) (Fin 100)"
  by (cases y) (auto simp: mathMin_def jsGt_def)

lemma onTimeRate_le_100: "\<not> jsGt (onTimeRate b d) (Fin 100)"
  by (simp add: onTimeRate_def jsGt_mathMin_100) (simp add: jsGt_def)

lemma onTimeRate_zero: "onTimeRate b (Fin 0) = Fin 100"
  by (simp add: onTimeRate_def jsGt_def)

lemma jsMul_100_not_NaN: "x \<noteq> NaN \<Longrightarrow> jsMul x (Fin 100) \<noteq> NaN"
  by (cases x) simp_all

lemma mathRound_not_NaN: "x \<noteq> NaN \<Longrightarrow> mathRound x \<noteq> NaN"
  by (cases x) simp_all

lemma jsDiv_positive_not_NaN:
  assumes "isFinite b" "jsGt d (Fin 0)"
  shows "jsDiv b d \<noteq> NaN"
proof -
  from assms(1) obtain x where b: "b = Fin x" by (cases b) simp_all
  show ?thesis using assms(2) unfolding b by (cases d) (simp_all add: jsGt_def)
qed

lemma onTimeRate_not_NaN:
  assumes "isFinite b"
  shows "onTimeRate b d \<noteq> NaN"
proof (cases "jsGt d (Fin 0)")
  case True
  have "mathRound (jsMul (jsDiv b d) (Fin 100)) \<noteq> NaN"
    by (intro mathRound_not_NaN jsMul_100_not_NaN jsDiv_positive_not_NaN assms True)
  then show ?thesis using True by (simp add: onTimeRate_def mathMin_def)
next
  case False
  then show ?thesis by (simp add: onTimeRate_def)
qed

lemma orZero_id: "x \<noteq> NaN \<Longrightarrow> orZero x = x"
  by (auto simp: orZero_def truthy_def)

lemma sumRates_plain:
  assumes "\<forall>it \<in> set its. rate it \<noteq> NaN"
  shows "sumRates its = foldl (\<lambda>acc it. jsAdd acc (rate it)) (Fin 0) its"
proof -
  have "foldl (\<lambda>acc cur. jsAdd acc (orZero (rate cur))) a its
      = foldl (\<lambda>acc it. jsAdd acc (rate it)) a its" for a
    using assms by (induction its arbitrary: a) (simp_all add: orZero_id)
  then show ?thesis by (simp add: sumRates_def)
qed

lemma rate_withRate: "rate (withRate b r) = onTimeRate b (totalTime r)"
  and totalTime_withRate: "totalTime (withRate b r) = totalTime r"
  by (simp_all add: withRate_def)

lemma todayMonitor_items:
  "items (todayMonitor env rawData monitorDate b)
    = (case smartParseDate env monitorDate of
         None \<Rightarrow> []
       | Some base \<Rightarrow> map (withRate b) (monitorItems env rawData base))"
  by (simp add: todayMonitor_def Let_def split: option.split)

lemma todayMonitor_avgRate:
  "avgRate (todayMonitor env rawData monitorDate b)
    = (if items (todayMonitor env rawData monitorDate b) = [] then Fin 0
       else mathRound (jsDiv (sumRates (items (todayMonitor env rawData monitorDate b)))
              (Fin (of_nat (length (items (todayMonitor env rawData monitorDate b)))))))"
  by (simp add: todayMonitor_def Let_def split: option.split)

lemma monitor_window:
  assumes "smartParseDate env monitorDate = Some base" "\<bar>localTZA env\<bar> \<le> 86400000"
    and "\<not> (0 \<le> getFullYear env base \<and> getFullYear env base \<le> 99)"
    and "\<bar>shiftDayStart env base\<bar> \<le> 8640000000000000"
    and "\<bar>shiftDayStart env base + 86400000\<bar> \<le> 8640000000000000"
  shows "startBoundary env base = Date (shiftDayStart env base)"
    and "nextDay env (startBoundary env base) = Date (shiftDayStart env base + 86400000)"
proof -
  show s: "startBoundary env base = Date (shiftDayStart env base)"
    using assms(1) assms(1) assms(2) assms(3) assms(3) assms(4) assms(5)
    by (rule boundaries_explicit(1))
  have "setDate env (shiftDayStart env base) (getDate env (shiftDayStart env base) + 1)
      = timeClip (Fin (of_int (shiftDayStart env base + 1 * 86400000)))"
    using assms(4,2) by (rule setDate_shift) simp
  moreover have "shiftDayStart env base + 1 * 86400000 = shiftDayStart env base + 86400000"
    by simp
  ultimately have "setDate env (shiftDayStart env base) (getDate env (shiftDayStart env base) + 1)
      = timeClip (Fin (of_int (shiftDayStart env base + 86400000)))"
    by (simp only:)
  then have "setDate env (shiftDayStart env base) (getDate env (shiftDayStart env base) + 1)
      = Date (shiftDayStart env base + 86400000)"
    unfolding timeClip_int using assms(5) by simp
  then show "nextDay env (startBoundary env base) = Date (shiftDayStart env base + 86400000)"
    unfolding s by (simp add: nextDay_def)
qed

lemma monitorItems_window:
  assumes "smartParseDate env monitorDate = Some base" "\<bar>localTZA env\<bar> \<le> 86400000"
    and "\<not> (0 \<le> getFullYear env base \<and> getFullYear env base \<le> 99)"
    and "\<bar>shiftDayStart env base\<bar> \<le> 8640000000000000"
    and "\<bar>shiftDayStart env base + 86400000\<bar> \<le> 8640000000000000"
  shows "monitorItems env rawData base
    = sortBy (\<lambda>a b. jsSub (arrivalMillis env b) (arrivalMillis env a))
        (filter (\<lambda>r. \<exists>d. smartParseDate env (arrivalTime r) = Some d
                       \<and> shiftDayStart env base \<le> d
                       \<and> d < shiftDayStart env base + 86400000)
           rawData)"
proof -
  have "inRange env (Date (shiftDayStart env base)) (Date (shiftDayStart env base + 86400000))
      = (\<lambda>r. \<exists>d. smartParseDate env (arrivalTime r) = Some d
              \<and> shiftDayStart env base \<le> d \<and> d < shiftDayStart env base + 86400000)"
    by (rule ext) (simp add: inRange_def dateGe_def dateLt_def split: option.split)
  moreover note w = monitor_window [OF assms]
  moreover have "nextDay env (Date (shiftDayStart env base))
      = Date (shiftDayStart env base + 86400000)"
    using w by simp
  ultimately show ?thesis
    by (simp add: monitorItems_def Let_def)
qed

lemma rate_not_NaN_finite:
  assumes "isFinite b"
  shows "\<forall>it \<in> set (items (todayMonitor env rawData monitorDate b)). rate it \<noteq> NaN"
  using onTimeRate_not_NaN [OF assms]
  by (auto simp: todayMonitor_items rate_withRate split: option.splits)

lemma floor_rat_numeral [simp]: "\<lfloor>numeral a / numeral b :: rat\<rfloor> = numeral a div numeral b"
  by (metis floor_divide_of_int_eq of_int_numeral)

lemma toDouble_three_quarters: "toDouble (3 / 4) = Fin (3 / 4)"
  using toDouble_exact [of 3 "- 2"] by simp

lemma example_setDate: "setDate hostIST 1704763800000 10 = Date 1704850200000"
proof -
  have "localTime hostIST 1704763800000 = 1704783600000"
    by (simp add: localTime_def hostIST_def)
  moreover have "day 1704783600000 = 19731" "timeWithinDay 1704783600000 = 25200000"
    "yearFromDay 19731 = 2024" "monthFromDay 19731 = 0" "makeDay 2024 0 10 = 19732"
    by (simp_all add: cal_simps)
  moreover have "makeDate 19732 (Fin 25200000) = Fin 1704870000000"
    by (simp add: makeDate_def)
  moreover have "utc hostIST (Fin 1704870000000) = Fin 1704850200000"
    by (simp add: utc_def jsSub_def hostIST_def)
  moreover have "timeClip (Fin 1704850200000) = Date 1704850200000"
    by (simp add: timeClip_def)
  ultimately show ?thesis by (simp add: setDate_def)
qed

lemma example_monitor_window:
  "startBoundary hostIST 1704738600000 = Date 1704763800000"
  "nextDay hostIST (Date 1704763800000) = Date 1704850200000"
proof -
  show "startBoundary hostIST 1704738600000 = Date 1704763800000"
    by (simp add: startBoundary_def getFullYear_def getMonth_def getDate_def localTime_def
        date_eval)
  have "getDate hostIST 1704763800000 = 9"
    by (simp add: getDate_def localTime_def hostIST_def cal_simps)
  then show "nextDay hostIST (Date 1704763800000) = Date 1704850200000"
    by (simp add: nextDay_def example_setDate)
qed

lemma example_monitor_items:
  "monitorItems hostIST exampleRecords 1704738600000
    = [exampleTruck (lit ''Sand'') (lit ''2024-01-10 06:30'') (Fin 48) (Fin 1200)]"
  by (simp add: monitorItems_def example_monitor_window exampleRecords_def inRange_def
      exampleTruck_def example_parses dateGe_def dateLt_def sortBy_def)

lemma example_rate: "onTimeRate (Fin 36) (Fin 48) = Fin 75"
  by (simp add: onTimeRate_def jsGt_def toDouble_three_quarters mathMin_def)

lemma floor_one_half [simp]: "\<lfloor>1 / 2 :: rat\<rfloor> = 0"
  by (rule floor_unique) simp_all

lemma example_monitor_NaN:
  "items (todayMonitor hostIST exampleRecords (lit ''2024-01-09'') NaN)
     = [withRate NaN
          (exampleTruck (lit ''Sand'') (lit ''2024-01-10 06:30'') (Fin 48) (Fin 1200))]"
  "avgRate (todayMonitor hostIST exampleRecords (lit ''2024-01-09'') NaN) = Fin 0"
  "rate (withRate NaN
      (exampleTruck (lit ''Sand'') (lit ''2024-01-10 06:30'') (Fin 48) (Fin 1200))) = NaN"
proof -
  let ?r = "exampleTruck (lit ''Sand'') (lit ''2024-01-10 06:30'') (Fin 48) (Fin 1200)"
  show i: "items (todayMonitor hostIST exampleRecords (lit ''2024-01-09'') NaN)
      = [withRate NaN ?r]"
    by (simp add: todayMonitor_items example_parses example_monitor_items)
  show r: "rate (withRate NaN ?r) = NaN"
    by (simp add: rate_withRate exampleTruck_def onTimeRate_def jsGt_def mathMin_def)
  show "avgRate (todayMonitor hostIST exampleRecords (lit ''2024-01-09'') NaN) = Fin 0"
    unfolding todayMonitor_avgRate i
    by (simp add: sumRates_def r orZero_def truthy_def)
qed

text \<open>
  Claim C7, as the specification states it, fails when the benchmark is NaN, the value
  that \<open>parseInt\<close> gives to the setting when its input field is emptied.  The rate of
  the item is then NaN, and the rounded mean of the rates is NaN; but the sum counts
  \<open>cur.rate || 0\<close>, a rate of NaN as 0, and the average of the view is 0.
\<close>

theorem C7_average_counterexample:
  "items (todayMonitor hostIST exampleRecords (lit ''2024-01-09'') NaN)
     = [withRate NaN
          (exampleTruck (lit ''Sand'') (lit ''2024-01-10 06:30'') (Fin 48) (Fin 1200))]
   \<and> rate (withRate NaN
        (exampleTruck (lit ''Sand'') (lit ''2024-01-10 06:30'') (Fin 48) (Fin 1200))) = NaN
   \<and> mathRound (jsDiv (jsAdd (Fin 0) (rate (withRate NaN
        (exampleTruck (lit ''Sand'') (lit ''2024-01-10 06:30'') (Fin 48) (Fin 1200)))))
        (Fin 1)) = NaN
   \<and> avgRate (todayMonitor hostIST exampleRecords (lit ''2024-01-09'') NaN) = Fin 0"
  by (simp add: example_monitor_NaN)

text \<open>
  Claim C7, amended: every item of the monitor view has the rate
  \<open>min(100, round(benchmarkTime / totalTime * 100))\<close> when its \<open>totalTime\<close> is
  greater than 0 and the rate 100 otherwise, so exactly 100 when \<open>totalTime\<close> is 0;
  no rate is greater than 100.  The average rate is 0 when the view has no item, and
  otherwise the rounded quotient, by the number of items, of the sum of the rates in
  which a rate of NaN counts as 0; it is the rounded mean of the rates when no rate
  is NaN, which is so for every finite benchmark.  The view has no item when the
  monitored date does not parse.  When it parses, for a constant offset of at most a
  day, a year outside 0 to 99 and boundaries that are time values, the items are the
  records whose arrival text parses to an instant from 07:00 local time on the
  monitored day to before 07:00 on the next day, rearranged by \<open>sort\<close> and each with
  its rate; so the view has no item, and the average 0, when no record matches.
\<close>

theorem C7_on_time_rate:
  "(\<forall>it \<in> set (items (todayMonitor env rawData monitorDate b)).
       rate it
         = (if jsGt (totalTime it) (Fin 0)
            then mathMin (Fin 100) (mathRound (jsMul (jsDiv b (totalTime it)) (Fin 100)))
            else Fin 100)
       \<and> \<not> jsGt (rate it) (Fin 100)
       \<and> (totalTime it = Fin 0 \<longrightarrow> rate it = Fin 100))
   \<and> (items (todayMonitor env rawData monitorDate b) = []
        \<longrightarrow> avgRate (todayMonitor env rawData monitorDate b) = Fin 0)
   \<and> (items (todayMonitor env rawData monitorDate b) \<noteq> []
        \<longrightarrow> avgRate (todayMonitor env rawData monitorDate b)
          = mathRound
              (jsDiv
                 (foldl (\<lambda>acc it. jsAdd acc (if rate it = NaN then Fin 0 else rate it)) (Fin 0)
                    (items (todayMonitor env rawData monitorDate b)))
                 (Fin (of_nat (length (items (todayMonitor env rawData monitorDate b)))))))
   \<and> (items (todayMonitor env rawData monitorDate b) \<noteq> []
        \<and> (\<forall>it \<in> set (items (todayMonitor env rawData monitorDate b)). rate it \<noteq> NaN)
        \<longrightarrow> avgRate (todayMonitor env rawData monitorDate b)
          = mathRound
              (jsDiv
                 (foldl (\<lambda>acc it. jsAdd acc (rate it)) (Fin 0)
                    (items (todayMonitor env rawData monitorDate b)))
                 (Fin (of_nat (length (items (todayMonitor env rawData monitorDate b)))))))
   \<and> (isFinite b
        \<longrightarrow> (\<forall>it \<in> set (items (todayMonitor env rawData monitorDate b)). rate it \<noteq> NaN))
   \<and> (smartParseDate env monitorDate = None
        \<longrightarrow> items (todayMonitor env rawData monitorDate b) = [])
   \<and> (\<forall>base. smartParseDate env monitorDate = Some base
          \<and> \<bar>localTZA env\<bar> \<le> 86400000
          \<and> \<not> (0 \<le> getFullYear env base \<and> getFullYear env base \<le> 99)
          \<and> \<bar>shiftDayStart env base\<bar> \<le> 8640000000000000
          \<and> \<bar>shiftDayStart env base + 86400000\<bar> \<le> 8640000000000000
        \<longrightarrow> items (todayMonitor env rawData monitorDate b)
            = map (withRate b)
                (sortBy (\<lambda>x y. jsSub (arrivalMillis env y) (arrivalMillis env x))
                   (filter (\<lambda>r. \<exists>d. smartParseDate env (arrivalTime r) = Some d
                                  \<and> shiftDayStart env base \<le> d
                                  \<and> d < shiftDayStart env base + 86400000)
                      rawData))
          \<and> set (items (todayMonitor env rawData monitorDate b))
            = withRate b ` {r \<in> set rawData.
                \<exists>d. smartParseDate env (arrivalTime r) = Some d
                      \<and> shiftDayStart env base \<le> d
                      \<and> d < shiftDayStart env base + 86400000}
          \<and> length (items (todayMonitor env rawData monitorDate b))
            = length (filter (\<lambda>r. \<exists>d. smartParseDate env (arrivalTime r) = Some d
                                  \<and> shiftDayStart env base \<le> d
                                  \<and> d < shiftDayStart env base + 86400000)
                      rawData)
          \<and> ((\<forall>r \<in> set rawData. \<forall>d. smartParseDate env (arrivalTime r) = Some d
                  \<longrightarrow> \<not> (shiftDayStart env base \<le> d
                           \<and> d < shiftDayStart env base + 86400000))
               \<longrightarrow> items (todayMonitor env rawData monitorDate b) = []
                 \<and> avgRate (todayMonitor env rawData monitorDate b) = Fin 0))"
proof -
  let ?v = "todayMonitor env rawData monitorDate b"
  have r: "rate it = onTimeRate b (totalTime it)" if "it \<in> set (items ?v)" for it
    using that
    by (auto simp: todayMonitor_items rate_withRate totalTime_withRate split: option.splits)
  have 1: "rate it
         = (if jsGt (totalTime it) (Fin 0)
            then mathMin (Fin 100) (mathRound (jsMul (jsDiv b (totalTime it)) (Fin 100)))
            else Fin 100)
       \<and> \<not> jsGt (rate it) (Fin 100)
       \<and> (totalTime it = Fin 0 \<longrightarrow> rate it = Fin 100)" if "it \<in> set (items ?v)" for it
    unfolding r [OF that] using onTimeRate_le_100 [of b "totalTime it"] onTimeRate_zero [of b]
    by (auto simp: onTimeRate_def)
  have 2: "items ?v = [] \<longrightarrow> avgRate ?v = Fin 0"
    by (simp add: todayMonitor_avgRate)
  have z: "orZero (rate it) = (if rate it = NaN then Fin 0 else rate it)" for it :: MonitorItem
    by (auto simp: orZero_def truthy_def)
  have 3: "items ?v \<noteq> [] \<longrightarrow> avgRate ?v
          = mathRound (jsDiv (foldl (\<lambda>acc it. jsAdd acc (if rate it = NaN then Fin 0 else rate it))
              (Fin 0) (items ?v)) (Fin (of_nat (length (items ?v)))))"
    by (simp add: todayMonitor_avgRate sumRates_def z)
  have 4: "avgRate ?v
          = mathRound (jsDiv (foldl (\<lambda>acc it. jsAdd acc (rate it)) (Fin 0) (items ?v))
              (Fin (of_nat (length (items ?v)))))"
    if "items ?v \<noteq> []" "\<forall>it \<in> set (items ?v). rate it \<noteq> NaN"
  proof -
    from that(2)
    have "sumRates (items ?v) = foldl (\<lambda>acc it. jsAdd acc (rate it)) (Fin 0) (items ?v)"
      by (rule sumRates_plain)
    then show ?thesis using that(1) by (simp add: todayMonitor_avgRate)
  qed
  have 5: "isFinite b \<longrightarrow> (\<forall>it \<in> set (items ?v). rate it \<noteq> NaN)"
    using rate_not_NaN_finite [of b env rawData monitorDate] by blast
  have 6: "smartParseDate env monitorDate = None \<longrightarrow> items ?v = []"
    by (simp add: todayMonitor_items)
  have 7: "items ?v
            = map (withRate b)
                (sortBy (\<lambda>x y. jsSub (arrivalMillis env y) (arrivalMillis env x))
                   (filter (\<lambda>r. \<exists>d. smartParseDate env (arrivalTime r) = Some d
                                  \<and> shiftDayStart env base \<le> d
                                  \<and> d < shiftDayStart env base + 86400000)
                      rawData))
          \<and> set (items ?v)
            = withRate b ` {r \<in> set rawData.
                \<exists>d. smartParseDate env (arrivalTime r) = Some d
                      \<and> shiftDayStart env base \<le> d
                      \<and> d < shiftDayStart env base + 86400000}
          \<and> length (items ?v)
            = length (filter (\<lambda>r. \<exists>d. smartParseDate env (arrivalTime r) = Some d
                                  \<and> shiftDayStart env base \<le> d
                                  \<and> d < shiftDayStart env base + 86400000)
                      rawData)
          \<and> ((\<forall>r \<in> set rawData. \<forall>d. smartParseDate env (arrivalTime r) = Some d
                  \<longrightarrow> \<not> (shiftDayStart env base \<le> d
                           \<and> d < shiftDayStart env base + 86400000))
               \<longrightarrow> items ?v = [] \<and> avgRate ?v = Fin 0)"
    if h: "smartParseDate env monitorDate = Some base
          \<and> \<bar>localTZA env\<bar> \<le> 86400000
          \<and> \<not> (0 \<le> getFullYear env base \<and> getFullYear env base \<le> 99)
          \<and> \<bar>shiftDayStart env base\<bar> \<le> 8640000000000000
          \<and> \<bar>shiftDayStart env base + 86400000\<bar> \<le> 8640000000000000" for base
  proof -
    let ?P = "\<lambda>r. \<exists>d. smartParseDate env (arrivalTime r) = Some d
                  \<and> shiftDayStart env base \<le> d \<and> d < shiftDayStart env base + 86400000"
    have m: "monitorItems env rawData base
        = sortBy (\<lambda>x y. jsSub (arrivalMillis env y) (arrivalMillis env x)) (filter ?P rawData)"
      using h by (intro monitorItems_window [of env monitorDate]) simp_all
    have i: "items ?v = map (withRate b)
        (sortBy (\<lambda>x y. jsSub (arrivalMillis env y) (arrivalMillis env x)) (filter ?P rawData))"
      using h by (simp add: todayMonitor_items m)
    have s: "set (items ?v) = withRate b ` {r \<in> set rawData. ?P r}"
      unfolding i by (simp only: set_map sortBy_set set_filter)
    have l: "length (items ?v) = length (filter ?P rawData)"
      unfolding i by (simp only: length_map sortBy_length)
    have e: "items ?v = [] \<and> avgRate ?v = Fin 0"
      if "\<forall>r \<in> set rawData. \<forall>d. smartParseDate env (arrivalTime r) = Some d
                  \<longrightarrow> \<not> (shiftDayStart env base \<le> d
                           \<and> d < shiftDayStart env base + 86400000)"
    proof -
      from that have "filter ?P rawData = []" by (auto simp: filter_empty_conv)
      then have "items ?v = []" using l by simp
      then show ?thesis using 2 by simp
    qed
    from i s l e show ?thesis by blast
  qed
  from 1 2 3 4 5 6 7 show ?thesis by blast
qed

theorem C7_on_time_rate_witness:
  "smartParseDate hostIST (lit ''2024-01-09'') = Some 1704738600000
   \<and> \<bar>localTZA hostIST\<bar> \<le> 86400000
   \<and> getFullYear hostIST 1704738600000 = 2024
   \<and> shiftDayStart hostIST 1704738600000 = 1704763800000
   \<and> items (todayMonitor hostIST exampleRecords (lit ''2024-01-09'') (Fin 36))
     = [withRate (Fin 36)
          (exampleTruck (lit ''Sand'') (lit ''2024-01-10 06:30'') (Fin 48) (Fin 1200))]
   \<and> isFinite (Fin 36)
   \<and> rate (withRate (Fin 36)
        (exampleTruck (lit ''Sand'') (lit ''2024-01-10 06:30'') (Fin 48) (Fin 1200))) = Fin 75
   \<and> avgRate (todayMonitor hostIST exampleRecords (lit ''2024-01-09'') (Fin 36)) = Fin 75
   \<and> items (todayMonitor hostIST [] (lit ''2024-01-09'') (Fin 36)) = []
   \<and> avgRate (todayMonitor hostIST [] (lit ''2024-01-09'') (Fin 36)) = Fin 0"
proof -
  let ?r = "exampleTruck (lit ''Sand'') (lit ''2024-01-10 06:30'') (Fin 48) (Fin 1200)"
  let ?v = "todayMonitor hostIST exampleRecords (lit ''2024-01-09'') (Fin 36)"
  note c7 = C7_on_time_rate [of hostIST exampleRecords "lit ''2024-01-09''" "Fin 36"]
  have h: "smartParseDate hostIST (lit ''2024-01-09'') = Some 1704738600000
          \<and> \<bar>localTZA hostIST\<bar> \<le> 86400000
          \<and> \<not> (0 \<le> getFullYear hostIST 1704738600000 \<and> getFullYear hostIST 1704738600000 \<le> 99)
          \<and> \<bar>shiftDayStart hostIST 1704738600000\<bar> \<le> 8640000000000000
          \<and> \<bar>shiftDayStart hostIST 1704738600000 + 86400000\<bar> \<le> 8640000000000000"
    by (simp add: example_parses example_boundaries)
  have "items ?v
      = map (withRate (Fin 36))
          (sortBy (\<lambda>x y. jsSub (arrivalMillis hostIST y) (arrivalMillis hostIST x))
             (filter (\<lambda>r. \<exists>d. smartParseDate hostIST (arrivalTime r) = Some d
                            \<and> shiftDayStart hostIST 1704738600000 \<le> d
                            \<and> d < shiftDayStart hostIST 1704738600000 + 86400000)
                exampleRecords))"
    using c7 [THEN conjunct2, THEN conjunct2, THEN conjunct2, THEN conjunct2, THEN conjunct2,
        THEN conjunct2, THEN spec, of 1704738600000, THEN mp, OF h]
    by (rule conjunct1)
  then have i: "items ?v = [withRate (Fin 36) ?r]"
    by (simp add: example_boundaries exampleRecords_def exampleTruck_def example_parses
        sortBy_def)
  have r: "rate (withRate (Fin 36) ?r) = Fin 75"
    by (simp add: rate_withRate exampleTruck_def example_rate)
  have n: "\<forall>it \<in> set (items ?v). rate it \<noteq> NaN"
    using c7 [THEN conjunct2, THEN conjunct2, THEN conjunct2, THEN conjunct2, THEN conjunct1]
    by simp
  have "avgRate ?v
      = mathRound (jsDiv (foldl (\<lambda>acc it. jsAdd acc (rate it)) (Fin 0) (items ?v))
          (Fin (of_nat (length (items ?v)))))"
    by (rule c7 [THEN conjunct2, THEN conjunct2, THEN conjunct2, THEN conjunct1, THEN mp])
      (use n in \<open>simp add: i\<close>)
  then have a: "avgRate ?v = Fin 75"
    by (simp add: i r)
  have "items (todayMonitor hostIST [] (lit ''2024-01-09'') (Fin 36)) = []
      \<and> avgRate (todayMonitor hostIST [] (lit ''2024-01-09'') (Fin 36)) = Fin 0"
    using C7_on_time_rate [of hostIST "[]" "lit ''2024-01-09''" "Fin 36", THEN conjunct2,
        THEN conjunct2, THEN conjunct2, THEN conjunct2, THEN conjunct2, THEN conjunct2,
        THEN spec, of 1704738600000, THEN mp, OF h]
    by (simp add: sortBy_def)
  with i r a show ?thesis by (simp add: example_parses example_boundaries)
qed

section \<open>Properties of the Pareto ranking\<close>

subsection \<open>The dictionary of sums\<close>

lemma isDouble_plusWeight: "isDouble (toNumber (plusWeight v w))"
  by (cases v) simp_all

lemma isDouble_firstWeight: "isDouble (toNumber (firstWeight k w))"
  by (simp add: firstWeight_def)

lemma addStat_isDouble:
  assumes "\<forall>p\<in>set stats. isDouble (toNumber (snd p))"
  shows "\<forall>p\<in>set (addStat stats k w). isDouble (toNumber (snd p))"
  using assms
  by (induction stats k w rule: addStat.induct)
    (auto simp: isDouble_plusWeight isDouble_firstWeight)

lemma foldl_assignStat_isDouble:
  assumes "\<forall>p\<in>set stats. isDouble (toNumber (snd p))"
  shows "\<forall>p\<in>set (foldl (\<lambda>stats r. assignStat stats (matName r) (jsDiv (weight r) (Fin 1000)))
           stats filtered). isDouble (toNumber (snd p))"
  using assms
proof (induction filtered arbitrary: stats)
  case Nil
  then show ?case by simp
next
  case (Cons r filtered)
  from Cons.prems
  have "\<forall>p\<in>set (assignStat stats (matName r) (jsDiv (weight r) (Fin 1000))).
          isDouble (toNumber (snd p))"
    unfolding assignStat_def using addStat_isDouble [of stats] by simp
  from Cons.IH [OF this] show ?case by simp
qed

lemma materialStats_isDouble: "\<forall>p\<in>set (materialStats filtered). isDouble (toNumber (snd p))"
  unfolding materialStats_def by (rule foldl_assignStat_isDouble) simp

lemma objectEntries_set [simp]: "set (objectEntries props) = set props"
  by (auto simp: objectEntries_def)

lemma objectEntries_length [simp]: "length (objectEntries props) = length props"
  by (simp add: objectEntries_def sum_length_filter_compl)

lemma addStat_keys:
  "map fst (addStat stats k w)
   = (if k \<in> fst ` set stats then map fst stats else map fst stats @ [k])"
  by (induction stats k w rule: addStat.induct) auto

lemma addStat_map_of:
  "map_of (addStat stats k w) k'
   = (if k' = k
      then Some (case map_of stats k of None \<Rightarrow> firstWeight k w | Some v \<Rightarrow> plusWeight v w)
      else map_of stats k')"
  by (induction stats k w rule: addStat.induct) auto

lemma foldl_assignStat_keys:
  assumes "distinct (map fst stats)"
  shows "distinct (map fst (foldl (\<lambda>stats r. assignStat stats (matName r)
            (jsDiv (weight r) (Fin 1000))) stats filtered))
    \<and> fst ` set (foldl (\<lambda>stats r. assignStat stats (matName r)
            (jsDiv (weight r) (Fin 1000))) stats filtered)
      = fst ` set stats \<union> (matName ` set filtered - {lit ''__proto__''})"
  using assms
proof (induction filtered arbitrary: stats)
  case Nil
  then show ?case by simp
next
  case (Cons r filtered)
  let ?s = "assignStat stats (matName r) (jsDiv (weight r) (Fin 1000))"
  have k: "map fst ?s
      = (if matName r = lit ''__proto__'' \<or> matName r \<in> fst ` set stats then map fst stats
         else map fst stats @ [matName r])"
    by (simp add: assignStat_def addStat_keys)
  have d: "distinct (map fst ?s)" using Cons.prems unfolding k by auto
  have "fst ` set ?s = set (map fst ?s)" by simp
  also have "\<dots> = fst ` set stats \<union> ({matName r} - {lit ''__proto__''})"
    unfolding k by auto
  finally have s: "fst ` set ?s = fst ` set stats \<union> ({matName r} - {lit ''__proto__''})" .
  from Cons.IH [OF d] show ?case unfolding s by auto
qed

lemma materialStats_keys:
  "distinct (map fst (materialStats filtered))"
  "fst ` set (materialStats filtered) = matName ` set filtered - {lit ''__proto__''}"
  using foldl_assignStat_keys [of "[]" filtered] by (simp_all add: materialStats_def)

lemma jsAdd_finite_not_NaN: "a \<noteq> NaN \<Longrightarrow> isFinite w \<Longrightarrow> jsAdd a w \<noteq> NaN"
  by (cases a; cases w) simp_all

lemma foldl_assignStat_value:
  assumes "\<forall>r\<in>set filtered. isFinite (jsDiv (weight r) (Fin 1000))" "k \<noteq> lit ''__proto__''"
    and "map_of stats k = Some (Num a)" "a \<noteq> NaN"
  shows "map_of (foldl (\<lambda>stats r. assignStat stats (matName r) (jsDiv (weight r) (Fin 1000)))
            stats filtered) k
    = Some (Num (foldl (\<lambda>a r. jsAdd a (jsDiv (weight r) (Fin 1000))) a
        (filter (\<lambda>r. matName r = k) filtered)))"
  using assms
proof (induction filtered arbitrary: stats a)
  case Nil
  then show ?case by simp
next
  case (Cons r filtered)
  let ?w = "jsDiv (weight r) (Fin 1000)"
  have w: "isFinite ?w" and rest: "\<forall>r\<in>set filtered. isFinite (jsDiv (weight r) (Fin 1000))"
    using Cons.prems(1) by simp_all
  show ?case
  proof (cases "matName r = k")
    case True
    have "map_of (assignStat stats (matName r) ?w) k = Some (Num (jsAdd a ?w))"
      using True Cons.prems(2,3,4) by (simp add: assignStat_def addStat_map_of orZero_id)
    moreover have "jsAdd a ?w \<noteq> NaN" using Cons.prems(4) w by (rule jsAdd_finite_not_NaN)
    ultimately show ?thesis
      using Cons.IH [OF rest Cons.prems(2), of "assignStat stats (matName r) ?w" "jsAdd a ?w"] True
      by simp
  next
    case False
    have "map_of (assignStat stats (matName r) ?w) k = Some (Num a)"
      using False Cons.prems(3) by (simp add: assignStat_def addStat_map_of)
    then show ?thesis
      using Cons.IH [OF rest Cons.prems(2) _ Cons.prems(4), of "assignStat stats (matName r) ?w"]
        False
      by simp
  qed
qed

lemma foldl_assignStat_first:
  assumes "\<forall>r\<in>set filtered. isFinite (jsDiv (weight r) (Fin 1000))" "k \<notin> set protoNames"
    and "map_of stats k = None" "k \<in> matName ` set filtered"
  shows "map_of (foldl (\<lambda>stats r. assignStat stats (matName r) (jsDiv (weight r) (Fin 1000)))
            stats filtered) k
    = Some (Num (foldl (\<lambda>a r. jsAdd a (jsDiv (weight r) (Fin 1000))) (Fin 0)
        (filter (\<lambda>r. matName r = k) filtered)))"
  using assms
proof (induction filtered arbitrary: stats)
  case Nil
  then show ?case by simp
next
  case (Cons r filtered)
  let ?w = "jsDiv (weight r) (Fin 1000)"
  have w: "isFinite ?w" and rest: "\<forall>r\<in>set filtered. isFinite (jsDiv (weight r) (Fin 1000))"
    using Cons.prems(1) by simp_all
  have k: "k \<noteq> lit ''__proto__''" using Cons.prems(2) by (auto simp: protoNames_def)
  show ?case
  proof (cases "matName r = k")
    case True
    have "map_of (assignStat stats (matName r) ?w) k = Some (Num (jsAdd (Fin 0) ?w))"
      using True k Cons.prems(2,3) by (simp add: assignStat_def addStat_map_of firstWeight_def)
    moreover have "jsAdd (Fin 0) ?w \<noteq> NaN" using w by (intro jsAdd_finite_not_NaN) simp_all
    ultimately show ?thesis
      using foldl_assignStat_value [OF rest k, of "assignStat stats (matName r) ?w"
          "jsAdd (Fin 0) ?w"] True
      by simp
  next
    case False
    have "map_of (assignStat stats (matName r) ?w) k = None"
      using False Cons.prems(3) by (simp add: assignStat_def addStat_map_of)
    moreover have "k \<in> matName ` set filtered" using False Cons.prems(4) by auto
    ultimately show ?thesis
      using Cons.IH [OF rest Cons.prems(2), of "assignStat stats (matName r) ?w"] False
      by simp
  qed
qed

lemma materialStats_tonnage:
  assumes "\<forall>r\<in>set filtered. isFinite (jsDiv (weight r) (Fin 1000))"
    and "k \<notin> set protoNames" "k \<in> matName ` set filtered"
  shows "map_of (materialStats filtered) k = Some (Num (tonnageOf k filtered))"
  unfolding materialStats_def tonnageOf_def
  using assms(1,2) _ assms(3) by (rule foldl_assignStat_first) simp

subsection \<open>The cumulative percentages\<close>

lemma not_jsLt_PInf [simp]: "\<not> jsLt PInf a"
  by (cases a) simp_all

lemma not_jsLt_NInf [simp]: "\<not> jsLt a NInf"
  by (cases a) simp_all









lemma cumulate_names: "map name (cumulate T acc ranked) = map name ranked"
  by (induction ranked arbitrary: acc) simp_all

lemma cumulate_tons: "map tons (cumulate T acc ranked) = map tons ranked"
  by (induction ranked arbitrary: acc) simp_all






subsection \<open>The result\<close>

lemma paretoData_Inr:
  assumes "paretoData engine filtered = Inr (entries, top10Total)"
  shows "list_all (\<lambda>p. isNum (snd p)) (take 10 (rankedEntries engine filtered))"
    and "entries = cumulate top10Total (Fin 0)
           (map (\<lambda>p. \<lparr>name = fst p, tons = toFixed1Parsed (toNumber (snd p))\<rparr>)
              (take 10 (rankedEntries engine filtered)))"
    and "top10Total = sumTons
           (map (\<lambda>p. \<lparr>name = fst p, tons = toFixed1Parsed (toNumber (snd p))\<rparr>)
              (take 10 (rankedEntries engine filtered)))"
  using assms by (auto simp: paretoData_def paretoSorted_def Let_def split: if_splits sum.splits)

lemma paretoData_throws:
  "paretoData engine filtered = Inl TypeError
   \<longleftrightarrow> \<not> list_all (\<lambda>p. isNum (snd p)) (take 10 (rankedEntries engine filtered))"
  by (auto simp: paretoData_def paretoSorted_def Let_def split: if_splits sum.splits)

lemma stats_consistent:
  assumes "\<forall>p\<in>set (materialStats filtered). toNumber (snd p) \<noteq> NaN"
  shows "consistentOn (\<lambda>a b. jsSub (toNumber (snd b)) (toNumber (snd a)))
           (objectEntries (materialStats filtered))"
proof -
  have "\<forall>p\<in>set (objectEntries (materialStats filtered)).
          isDouble (toNumber (snd p)) \<and> toNumber (snd p) \<noteq> NaN"
    using assms materialStats_isDouble [of filtered] by simp
  then show ?thesis by (rule consistentOn_keys [where key = "\<lambda>p. toNumber (snd p)"])
qed

lemma rankedEntries_consistent:
  assumes "\<forall>p\<in>set (materialStats filtered). toNumber (snd p) \<noteq> NaN"
  shows "rankedEntries engine filtered
    = sortBy (\<lambda>a b. jsSub (toNumber (snd b)) (toNumber (snd a)))
        (objectEntries (materialStats filtered))"
  unfolding rankedEntries_def using stats_consistent [OF assms] by (rule sortWith_consistent)

lemma rankedEntries_rearranged:
  assumes "(\<forall>p\<in>set (materialStats filtered). toNumber (snd p) \<noteq> NaN)
    \<or> (\<forall>ys. set (engine ys) = set ys \<and> length (engine ys) = length ys)"
  shows "set (rankedEntries engine filtered) = set (materialStats filtered)"
    and "length (rankedEntries engine filtered) = length (materialStats filtered)"
proof -
  have "consistentOn (\<lambda>a b. jsSub (toNumber (snd b)) (toNumber (snd a)))
          (objectEntries (materialStats filtered))
        \<or> (\<forall>ys. set (engine ys) = set ys \<and> length (engine ys) = length ys)"
    using assms stats_consistent [of filtered] by blast
  then show "set (rankedEntries engine filtered) = set (materialStats filtered)"
    and "length (rankedEntries engine filtered) = length (materialStats filtered)"
    unfolding rankedEntries_def by (simp_all add: sortWith_set)
qed


subsection \<open>Evaluation of the examples\<close>

lemma toDouble_halves:
  "toDouble (1 / 2) = Fin (1 / 2)" "toDouble (3 / 2) = Fin (3 / 2)"
  "toDouble (5 / 2) = Fin (5 / 2)"
  using toDouble_exact [of 1 "- 1"] toDouble_exact [of 3 "- 1"] toDouble_exact [of 5 "- 1"]
  by simp_all

lemma weight_cells:
  "parseNumberSafe (Some (lit ''-3000'')) = Fin (- 3000)"
  "parseNumberSafe (Some (lit ''Infinity'')) = PInf"
  by (simp_all add: parseNumberSafe_def orZero_def truthy_def COMMA_def parse_simps)

lemmas stats_eval = materialStats_def assignStat_def firstWeight_def protoNames_def
  exampleTruck_def lit_def

lemmas ranking_eval = objectEntries_def isArrayIndex_def isDigit_def sortBy_def jsSub_def
  jsGt_def lit_def Let_def

lemma compareSign_flat:
  assumes "key a = NaN \<or> key b = NaN \<or> key a = key b"
  shows "compareSign (\<lambda>a b. jsSub (key b) (key a)) a b = 0"
proof -
  have "jsSub x NaN = NaN" "jsSub NaN x = NaN" for x
    by (cases x; simp add: jsSub_def)+
  moreover have "\<not> jsLt (jsSub x x) (Fin 0) \<and> \<not> jsGt (jsSub x x) (Fin 0)" for x
    by (cases x) (simp_all add: jsSub_def jsGt_def)
  ultimately show ?thesis using assms by (auto simp: compareSign_def jsGt_def)
qed

lemma rankedEntries_flat:
  assumes "\<forall>p\<in>set (materialStats filtered). toNumber (snd p) = NaN \<or> toNumber (snd p) = v"
  shows "rankedEntries engine filtered = objectEntries (materialStats filtered)"
proof -
  let ?cmp = "\<lambda>a b. jsSub (toNumber (snd b)) (toNumber (snd a))"
  have "compareSign ?cmp a b = 0"
    if "a \<in> set (objectEntries (materialStats filtered))"
      "b \<in> set (objectEntries (materialStats filtered))" for a b
    using that assms by (intro compareSign_flat [where key = "\<lambda>p. toNumber (snd p)"]) auto
  then have f: "\<forall>a\<in>set (objectEntries (materialStats filtered)).
      \<forall>b\<in>set (objectEntries (materialStats filtered)). compareSign ?cmp a b = 0"
    by blast
  then have "consistentOn ?cmp (objectEntries (materialStats filtered))"
    by (rule consistentOn_flat)
  then show ?thesis
    unfolding rankedEntries_def using sortBy_flat [OF f] by (simp add: sortWith_consistent)
qed








text \<open>
  A material that has the name of a method of \<open>Object.prototype\<close> makes \<open>paretoData\<close>
  throw when its entry is among the first ten of the ranking, and not when it comes
  after them.
\<close>

lemma stats_method_name:
  "materialStats paretoMethodName
   = [(lit ''Sand'', Num (Fin 1)), (lit ''constructor'', FunctionText (lit ''constructor'') [Fin 2])]"
  by (simp add: paretoMethodName_def stats_eval)

lemma pareto_method_name: "paretoData engine paretoMethodName = Inl TypeError"
proof -
  have "\<forall>p\<in>set (materialStats paretoMethodName).
      toNumber (snd p) = NaN \<or> toNumber (snd p) = Fin 1"
    by (simp add: stats_method_name)
  from rankedEntries_flat [OF this] show ?thesis
    unfolding paretoData_throws stats_method_name
    by (simp add: objectEntries_def isArrayIndex_def isDigit_def lit_def)
qed

lemma stats_eleven:
  "materialStats paretoEleven
   = map (\<lambda>c. ([c], Num (Fin 1))) (lit ''ABCDEFGHIJ'')
     @ [(lit ''constructor'', FunctionText (lit ''constructor'') [Fin 2])]"
  by (simp add: paretoEleven_def stats_eval)

lemma pareto_eleven: "paretoData engine paretoEleven \<noteq> Inl TypeError"
proof -
  have "\<forall>p\<in>set (materialStats paretoEleven).
      toNumber (snd p) = NaN \<or> toNumber (snd p) = Fin 1"
    by (simp add: stats_eleven lit_def)
  from rankedEntries_flat [OF this] show ?thesis
    unfolding paretoData_throws stats_eleven
    by (simp add: objectEntries_def isArrayIndex_def isDigit_def lit_def)
qed







section \<open>Properties of the views of a record without a material\<close>

lemma insertString_set [simp]: "set (insertString x ys) = insert x (set ys)"
  by (induction ys) auto

lemma foldl_insertString_set:
  "set (foldl (\<lambda>acc x. insertString x acc) acc xs) = set acc \<union> set xs"
  by (induction xs arbitrary: acc) auto

lemma materialList_set: "set (materialList rawData) = matName ` set rawData"
  by (simp add: materialList_def sortStrings_def foldl_insertString_set)

lemma filteredData_member:
  "r \<in> set (filteredData env rawData f)
   \<longleftrightarrow> r \<in> set rawData
       \<and> (\<exists>s e. smartParseDate env (startDate f) = Some s
                \<and> smartParseDate env (endDate f) = Some e
                \<and> inRange env (startBoundary env s) (endBoundary env e) r
                \<and> (material f = []
                     \<or> includesStr (toLowerCase env (matName r)) (toLowerCase env (material f))))"
  by (cases "smartParseDate env (startDate f)"; cases "smartParseDate env (endDate f)")
    (auto simp: filteredData_def matchesMaterial_def)

lemma todayMonitor_member:
  assumes "smartParseDate env monitorDate = Some base" "r \<in> set rawData"
    and "inRange env (startBoundary env base) (nextDay env (startBoundary env base)) r"
  shows "withRate b r \<in> set (items (todayMonitor env rawData monitorDate b))"
  using assms by (simp add: todayMonitor_items monitorItems_def Let_def)

lemma matName_withRate: "matName (withRate b r) = matName r"
  by (simp add: withRate_def)

lemma pareto_entry_of_stat:
  assumes "paretoData engine filtered = Inr (entries, top10Total)"
    and "(\<forall>p\<in>set (materialStats filtered). toNumber (snd p) \<noteq> NaN)
      \<or> (\<forall>ys. set (engine ys) = set ys \<and> length (engine ys) = length ys)"
    and "length (materialStats filtered) \<le> 10" "(k, Num v) \<in> set (materialStats filtered)"
  shows "\<exists>e\<in>set entries. name e = k \<and> tons e = toFixed1Parsed v"
proof -
  let ?top = "take 10 (rankedEntries engine filtered)"
  note r = rankedEntries_rearranged [OF assms(2)]
  have top: "?top = rankedEntries engine filtered" using assms(3) r(2) by simp
  from assms(4) have "(k, Num v) \<in> set (rankedEntries engine filtered)" by (simp only: r(1))
  then obtain j where j: "j < length (rankedEntries engine filtered)"
    "rankedEntries engine filtered ! j = (k, Num v)"
    by (metis in_set_conv_nth)
  note e = paretoData_Inr(2) [OF assms(1)]
  have n: "map name entries = map fst (rankedEntries engine filtered)"
    by (simp add: e cumulate_names comp_def top)
  have t: "map tons entries
      = map (\<lambda>p. toFixed1Parsed (toNumber (snd p))) (rankedEntries engine filtered)"
    by (simp add: e cumulate_tons comp_def top)
  have l: "length entries = length (rankedEntries engine filtered)"
    using n by (metis length_map)
  have "map name entries ! j = fst (rankedEntries engine filtered ! j)"
    unfolding n using j(1) by simp
  then have 1: "name (entries ! j) = k" using j l by simp
  have "map tons entries ! j = toFixed1Parsed (toNumber (snd (rankedEntries engine filtered ! j)))"
    unfolding t using j(1) by simp
  then have 2: "tons (entries ! j) = toFixed1Parsed v" using j l by simp
  have "entries ! j \<in> set entries" using j(1) l by simp
  with 1 2 show ?thesis by blast
qed

lemma not_available_key: "lit ''N/A'' \<notin> set protoNames" "lit ''N/A'' \<noteq> lit ''__proto__''"
  by (simp_all add: protoNames_def lit_def)

lemma downstream_of_material:
  assumes "r \<in> set rawData" "matName r = k" "k \<notin> set protoNames"
  shows "k \<in> set (materialList rawData)
    \<and> (\<forall>f. r \<in> set (filteredData env rawData f)
          \<longleftrightarrow> (\<exists>s e. smartParseDate env (startDate f) = Some s
                \<and> smartParseDate env (endDate f) = Some e
                \<and> inRange env (startBoundary env s) (endBoundary env e) r
                \<and> (material f = []
                     \<or> includesStr (toLowerCase env k) (toLowerCase env (material f)))))
    \<and> (\<forall>f. r \<in> set (filteredData env rawData f) \<longrightarrow>
          k \<in> fst ` set (materialStats (filteredData env rawData f))
          \<and> ((\<forall>x\<in>set (filteredData env rawData f). isFinite (jsDiv (weight x) (Fin 1000))) \<longrightarrow>
               map_of (materialStats (filteredData env rawData f)) k
                 = Some (Num (tonnageOf k (filteredData env rawData f)))
               \<and> (\<forall>engine entries top10Total.
                    paretoData engine (filteredData env rawData f) = Inr (entries, top10Total)
                    \<and> (\<forall>ys. set (engine ys) = set ys \<and> length (engine ys) = length ys)
                    \<and> length (materialStats (filteredData env rawData f)) \<le> 10
                    \<longrightarrow> (\<exists>e\<in>set entries. name e = k
                           \<and> tons e = toFixed1Parsed (tonnageOf k (filteredData env rawData f))))))
    \<and> (\<forall>monitorDate b base.
          smartParseDate env monitorDate = Some base
          \<and> inRange env (startBoundary env base) (nextDay env (startBoundary env base)) r
          \<longrightarrow> (\<exists>it\<in>set (items (todayMonitor env rawData monitorDate b)).
                 it = withRate b r \<and> matName it = k))"
proof (intro conjI allI impI)
  show "k \<in> set (materialList rawData)"
    using assms(1,2) by (auto simp: materialList_set)
next
  fix f
  show "r \<in> set (filteredData env rawData f)
          \<longleftrightarrow> (\<exists>s e. smartParseDate env (startDate f) = Some s
                \<and> smartParseDate env (endDate f) = Some e
                \<and> inRange env (startBoundary env s) (endBoundary env e) r
                \<and> (material f = []
                     \<or> includesStr (toLowerCase env k) (toLowerCase env (material f))))"
    using assms(1) by (simp add: filteredData_member assms(2))
next
  fix f
  assume r: "r \<in> set (filteredData env rawData f)"
  have p: "k \<noteq> lit ''__proto__''" using assms(3) by (auto simp: protoNames_def)
  show "k \<in> fst ` set (materialStats (filteredData env rawData f))"
    unfolding materialStats_keys(2) using r assms(2) p by auto
next
  fix f
  assume r: "r \<in> set (filteredData env rawData f)"
    and fin: "\<forall>x\<in>set (filteredData env rawData f). isFinite (jsDiv (weight x) (Fin 1000))"
  have "k \<in> matName ` set (filteredData env rawData f)" using r assms(2) by auto
  with fin assms(3)
  show "map_of (materialStats (filteredData env rawData f)) k
      = Some (Num (tonnageOf k (filteredData env rawData f)))"
    by (rule materialStats_tonnage)
next
  fix f engine entries top10Total
  assume r: "r \<in> set (filteredData env rawData f)"
    and fin: "\<forall>x\<in>set (filteredData env rawData f). isFinite (jsDiv (weight x) (Fin 1000))"
    and res: "paretoData engine (filteredData env rawData f) = Inr (entries, top10Total)
                \<and> (\<forall>ys. set (engine ys) = set ys \<and> length (engine ys) = length ys)
                \<and> length (materialStats (filteredData env rawData f)) \<le> 10"
  have "k \<in> matName ` set (filteredData env rawData f)" using r assms(2) by auto
  with fin assms(3)
  have "map_of (materialStats (filteredData env rawData f)) k
      = Some (Num (tonnageOf k (filteredData env rawData f)))"
    by (rule materialStats_tonnage)
  then have "(k, Num (tonnageOf k (filteredData env rawData f)))
      \<in> set (materialStats (filteredData env rawData f))"
    by (rule map_of_SomeD)
  with res show "\<exists>e\<in>set entries. name e = k
      \<and> tons e = toFixed1Parsed (tonnageOf k (filteredData env rawData f))"
    by (intro pareto_entry_of_stat [of engine "filteredData env rawData f" entries top10Total])
      simp_all
next
  fix monitorDate b base
  assume "smartParseDate env monitorDate = Some base
          \<and> inRange env (startBoundary env base) (nextDay env (startBoundary env base)) r"
  then have "withRate b r \<in> set (items (todayMonitor env rawData monitorDate b))"
    using assms(1) by (intro todayMonitor_member [of env monitorDate base]) simp_all
  then show "\<exists>it\<in>set (items (todayMonitor env rawData monitorDate b)).
                 it = withRate b r \<and> matName it = k"
    by (simp add: matName_withRate assms(2))
qed

lemma rows_downstream:
  "robustParseCSV csvDownstream
   = [[lit ''Truck'', lit ''Material'', lit ''Arrival'', lit ''Weight''],
      [lit ''T1'', [], lit ''2024-01-10 06:30'', lit ''1500''],
      [lit ''T2'', lit ''Sand'', lit ''2024-01-10 08:00'', lit ''500'']]"
  by (simp add: csvDownstream_def csv_simps)

lemma columns_downstream:
  "headerColumns hostIST
     [[lit ''Truck'', lit ''Material'', lit ''Arrival'', lit ''Weight''],
      [lit ''T1'', [], lit ''2024-01-10 06:30'', lit ''1500''],
      [lit ''T2'', lit ''Sand'', lit ''2024-01-10 08:00'', lit ''500'']]
   = \<lparr>truckCol = 0, matCol = 1, arrivalCol = 2, endCol = - 1, totalTimeCol = - 1,
      weightCol = 3\<rparr>"
  by (simp add: fetch_simps)

lemma parseFloat_weights:
  "parseFloat (lit ''1500'') = Fin 1500" "parseFloat (lit ''500'') = Fin 500"
  by (simp_all add: parse_simps)

lemma records_downstream:
  "buildRecord \<lparr>truckCol = 0, matCol = 1, arrivalCol = 2, endCol = - 1, totalTimeCol = - 1,
      weightCol = 3\<rparr> [lit ''T1'', [], lit ''2024-01-10 06:30'', lit ''1500'']
   = recordDownstream"
  "buildRecord \<lparr>truckCol = 0, matCol = 1, arrivalCol = 2, endCol = - 1, totalTimeCol = - 1,
      weightCol = 3\<rparr> [lit ''T2'', lit ''Sand'', lit ''2024-01-10 08:00'', lit ''500'']
   = recordDownstreamSand"
proof -
  have "filter (\<lambda>c. c \<noteq> COMMA) (lit ''1500'') = lit ''1500''"
    and "filter (\<lambda>c. c \<noteq> COMMA) (lit ''500'') = lit ''500''"
    by (simp_all add: lit_def COMMA_def)
  then show
    "buildRecord \<lparr>truckCol = 0, matCol = 1, arrivalCol = 2, endCol = - 1, totalTimeCol = - 1,
      weightCol = 3\<rparr> [lit ''T1'', [], lit ''2024-01-10 06:30'', lit ''1500'']
     = recordDownstream"
    "buildRecord \<lparr>truckCol = 0, matCol = 1, arrivalCol = 2, endCol = - 1, totalTimeCol = - 1,
      weightCol = 3\<rparr> [lit ''T2'', lit ''Sand'', lit ''2024-01-10 08:00'', lit ''500'']
     = recordDownstreamSand"
    by (simp_all add: buildRecord_def cellAt_def orString_def parseNumberSafe_def
        parseFloat_weights orZero_def truthy_def recordDownstream_def recordDownstreamSand_def)
qed

lemma fetchCSV_downstream:
  "fetchCSV hostIST csvDownstream = Some [recordDownstream, recordDownstreamSand]"
proof -
  have "matName recordDownstream \<noteq> []" "matName recordDownstreamSand \<noteq> []"
    by (simp_all add: recordDownstream_def recordDownstreamSand_def)
  then show ?thesis
    by (simp add: fetchCSV_def rows_downstream columns_downstream records_downstream)
qed

lemma parse_downstream:
  "smartParseDate hostIST (arrivalTime recordDownstream) = Some 1704848400000"
  "smartParseDate hostIST (arrivalTime recordDownstreamSand) = Some 1704853800000"
proof -
  have "smartParseDate hostIST (lit ''2024-01-10 08:00'') = Some 1704853800000"
    by (simp add: parse_eval date_eval)
  then show "smartParseDate hostIST (arrivalTime recordDownstream) = Some 1704848400000"
    "smartParseDate hostIST (arrivalTime recordDownstreamSand) = Some 1704853800000"
    by (simp_all add: recordDownstream_def recordDownstreamSand_def example_parses)
qed

lemma boundaries_downstream:
  "startBoundary hostIST 1704738600000 = Date 1704763800000"
  "endBoundary hostIST 1704825000000 = Date 1704936600000"
proof -
  note b = boundaries_explicit [of hostIST "lit ''2024-01-09''" 1704738600000
      "lit ''2024-01-10''" 1704825000000]
  have h: "smartParseDate hostIST (lit ''2024-01-09'') = Some 1704738600000"
    "smartParseDate hostIST (lit ''2024-01-10'') = Some 1704825000000"
    "\<bar>localTZA hostIST\<bar> \<le> 86400000"
    "\<not> (0 \<le> getFullYear hostIST 1704738600000 \<and> getFullYear hostIST 1704738600000 \<le> 99)"
    "\<not> (0 \<le> getFullYear hostIST 1704825000000 \<and> getFullYear hostIST 1704825000000 \<le> 99)"
    "\<bar>shiftDayStart hostIST 1704738600000\<bar> \<le> 8640000000000000"
    "\<bar>shiftDayStart hostIST 1704825000000 + 86400000\<bar> \<le> 8640000000000000"
    by (simp_all add: example_parses example_boundaries)
  show "startBoundary hostIST 1704738600000 = Date 1704763800000"
    using b(1) [OF h] by (simp add: example_boundaries)
  show "endBoundary hostIST 1704825000000 = Date 1704936600000"
    using b(2) [OF h] by (simp add: example_boundaries)
qed

lemma filtered_downstream:
  "filteredData hostIST [recordDownstream, recordDownstreamSand] filterDownstream
   = [recordDownstream]"
proof -
  have "includesStr (toLowerCase hostIST (lit ''N/A'')) (toLowerCase hostIST (lit ''n/a''))"
    "\<not> includesStr (toLowerCase hostIST (lit ''Sand'')) (toLowerCase hostIST (lit ''n/a''))"
    by (simp_all add: hostIST_def asciiLower_def lit_def)
  moreover have "matName recordDownstream = lit ''N/A''"
    "matName recordDownstreamSand = lit ''Sand''"
    by (simp_all add: recordDownstream_def recordDownstreamSand_def)
  ultimately show ?thesis
    by (simp add: filteredData_def filterDownstream_def example_parses boundaries_downstream
        inRange_def parse_downstream dateGe_def dateLt_def matchesMaterial_def)
qed

lemma pareto_downstream:
  "materialStats [recordDownstream] = [(lit ''N/A'', Num (Fin (3 / 2)))]"
  "tonnageOf (lit ''N/A'') [recordDownstream] = Fin (3 / 2)"
  "paretoData engine [recordDownstream]
   = Inr ([\<lparr>name = lit ''N/A'', tons = Fin (3 / 2), percentage = Fin 100\<rparr>], Fin (3 / 2))"
proof -
  show s: "materialStats [recordDownstream] = [(lit ''N/A'', Num (Fin (3 / 2)))]"
    by (simp add: recordDownstream_def materialStats_def assignStat_def firstWeight_def
        protoNames_def lit_def toDouble_halves)
  show "tonnageOf (lit ''N/A'') [recordDownstream] = Fin (3 / 2)"
    by (simp add: tonnageOf_def recordDownstream_def toDouble_halves)
  have "\<forall>p\<in>set (materialStats [recordDownstream]). toNumber (snd p) \<noteq> NaN"
    by (simp add: s)
  from rankedEntries_consistent [OF this]
  have "rankedEntries engine [recordDownstream] = [(lit ''N/A'', Num (Fin (3 / 2)))]"
    unfolding s by (simp add: ranking_eval)
  then show "paretoData engine [recordDownstream]
   = Inr ([\<lparr>name = lit ''N/A'', tons = Fin (3 / 2), percentage = Fin 100\<rparr>], Fin (3 / 2))"
    unfolding paretoData_def paretoSorted_def
    by (simp add: sumTons_def percentageAt_def jsGt_def toDouble_halves Let_def)
qed

lemma monitor_downstream:
  "inRange hostIST (startBoundary hostIST 1704738600000)
     (nextDay hostIST (startBoundary hostIST 1704738600000)) recordDownstream"
  by (simp add: example_monitor_window inRange_def parse_downstream dateGe_def dateLt_def)

text \<open>
  Claim C10: whenever \<open>fetchCSV\<close> replaces the record set, it holds one record for
  every data row, in row order, none dropped; and where the material column is not
  found in the header (index \<open>-1\<close>), or the row has no cell in that column, or the
  cell is the empty string, the record's \<open>matName\<close> is the literal \<open>N/A\<close>, the
  default that \<open>truckNo\<close> gets in the same three cases.  Downstream, the material
  name is read by the list of materials, the filter, the Pareto ranking and the monitor
  view, and by nothing else.  For every record of the set with the name \<open>N/A\<close>: the
  list of materials holds \<open>N/A\<close>; the record is in the filtered set exactly when the
  filter dates parse, its arrival is in their range and the filter text is empty or
  contained in \<open>n/a\<close>; when it is in the filtered set, \<open>stats\<close> has the key \<open>N/A\<close>,
  whose sum is the sum of the weights in tonnes of the filtered records named \<open>N/A\<close>
  when these weights are all finite, and the Pareto result, when there is one and there
  are no more than ten materials, has an entry \<open>N/A\<close> with this sum to one decimal;
  and when its arrival is in the monitored shift day, the monitor view has its item,
  under the name \<open>N/A\<close>.
\<close>

theorem C10_material_default:
  assumes "fetchCSV env text = Some parsed"
  shows "length parsed = length (robustParseCSV text) - 1
    \<and> (\<forall>i < length parsed.
          parsed ! i = buildRecord (headerColumns env (robustParseCSV text))
                         (robustParseCSV text ! Suc i)
          \<and> (matCol (headerColumns env (robustParseCSV text)) = - 1
               \<or> cellAt (robustParseCSV text ! Suc i)
                    (matCol (headerColumns env (robustParseCSV text))) = None
               \<or> cellAt (robustParseCSV text ! Suc i)
                    (matCol (headerColumns env (robustParseCSV text))) = Some []
              \<longrightarrow> matName (parsed ! i) = lit ''N/A'')
          \<and> (truckCol (headerColumns env (robustParseCSV text)) = - 1
               \<or> cellAt (robustParseCSV text ! Suc i)
                    (truckCol (headerColumns env (robustParseCSV text))) = None
               \<or> cellAt (robustParseCSV text ! Suc i)
                    (truckCol (headerColumns env (robustParseCSV text))) = Some []
              \<longrightarrow> truckNo (parsed ! i) = lit ''N/A''))
    \<and> (\<forall>r \<in> set parsed. matName r = lit ''N/A'' \<longrightarrow>
          lit ''N/A'' \<in> set (materialList parsed)
          \<and> (\<forall>f. r \<in> set (filteredData env parsed f)
                \<longleftrightarrow> (\<exists>s e. smartParseDate env (startDate f) = Some s
                      \<and> smartParseDate env (endDate f) = Some e
                      \<and> inRange env (startBoundary env s) (endBoundary env e) r
                      \<and> (material f = []
                           \<or> includesStr (toLowerCase env (lit ''N/A''))
                                (toLowerCase env (material f)))))
          \<and> (\<forall>f. r \<in> set (filteredData env parsed f) \<longrightarrow>
                lit ''N/A'' \<in> fst ` set (materialStats (filteredData env parsed f))
                \<and> ((\<forall>x\<in>set (filteredData env parsed f). isFinite (jsDiv (weight x) (Fin 1000)))
                     \<longrightarrow>
                     map_of (materialStats (filteredData env parsed f)) (lit ''N/A'')
                       = Some (Num (tonnageOf (lit ''N/A'') (filteredData env parsed f)))
                     \<and> (\<forall>engine entries top10Total.
                          paretoData engine (filteredData env parsed f) = Inr (entries, top10Total)
                          \<and> (\<forall>ys. set (engine ys) = set ys \<and> length (engine ys) = length ys)
                          \<and> length (materialStats (filteredData env parsed f)) \<le> 10
                          \<longrightarrow> (\<exists>e\<in>set entries. name e = lit ''N/A''
                                 \<and> tons e = toFixed1Parsed
                                      (tonnageOf (lit ''N/A'') (filteredData env parsed f))))))
          \<and> (\<forall>monitorDate b base.
                smartParseDate env monitorDate = Some base
                \<and> inRange env (startBoundary env base) (nextDay env (startBoundary env base)) r
                \<longrightarrow> (\<exists>it\<in>set (items (todayMonitor env parsed monitorDate b)).
                       it = withRate b r \<and> matName it = lit ''N/A'')))"
proof -
  have len: "length parsed = length (robustParseCSV text) - 1"
    using fetchCSV_Some(2) [OF assms] by simp
  have none: "cellAt c (- 1) = None" for c :: "jsstring list"
    by (simp add: cellAt_def)
  have rows: "parsed ! i = buildRecord (headerColumns env (robustParseCSV text))
                         (robustParseCSV text ! Suc i)
          \<and> (matCol (headerColumns env (robustParseCSV text)) = - 1
               \<or> cellAt (robustParseCSV text ! Suc i)
                    (matCol (headerColumns env (robustParseCSV text))) = None
               \<or> cellAt (robustParseCSV text ! Suc i)
                    (matCol (headerColumns env (robustParseCSV text))) = Some []
              \<longrightarrow> matName (parsed ! i) = lit ''N/A'')
          \<and> (truckCol (headerColumns env (robustParseCSV text)) = - 1
               \<or> cellAt (robustParseCSV text ! Suc i)
                    (truckCol (headerColumns env (robustParseCSV text))) = None
               \<or> cellAt (robustParseCSV text ! Suc i)
                    (truckCol (headerColumns env (robustParseCSV text))) = Some []
              \<longrightarrow> truckNo (parsed ! i) = lit ''N/A'')"
    if "i < length parsed" for i
    unfolding fetchCSV_nth [OF assms that]
    by (auto simp: buildRecord_def orString_def none)
  have down: "lit ''N/A'' \<in> set (materialList parsed)
          \<and> (\<forall>f. r \<in> set (filteredData env parsed f)
                \<longleftrightarrow> (\<exists>s e. smartParseDate env (startDate f) = Some s
                      \<and> smartParseDate env (endDate f) = Some e
                      \<and> inRange env (startBoundary env s) (endBoundary env e) r
                      \<and> (material f = []
                           \<or> includesStr (toLowerCase env (lit ''N/A''))
                                (toLowerCase env (material f)))))
          \<and> (\<forall>f. r \<in> set (filteredData env parsed f) \<longrightarrow>
                lit ''N/A'' \<in> fst ` set (materialStats (filteredData env parsed f))
                \<and> ((\<forall>x\<in>set (filteredData env parsed f). isFinite (jsDiv (weight x) (Fin 1000)))
                     \<longrightarrow>
                     map_of (materialStats (filteredData env parsed f)) (lit ''N/A'')
                       = Some (Num (tonnageOf (lit ''N/A'') (filteredData env parsed f)))
                     \<and> (\<forall>engine entries top10Total.
                          paretoData engine (filteredData env parsed f) = Inr (entries, top10Total)
                          \<and> (\<forall>ys. set (engine ys) = set ys \<and> length (engine ys) = length ys)
                          \<and> length (materialStats (filteredData env parsed f)) \<le> 10
                          \<longrightarrow> (\<exists>e\<in>set entries. name e = lit ''N/A''
                                 \<and> tons e = toFixed1Parsed
                                      (tonnageOf (lit ''N/A'') (filteredData env parsed f))))))
          \<and> (\<forall>monitorDate b base.
                smartParseDate env monitorDate = Some base
                \<and> inRange env (startBoundary env base) (nextDay env (startBoundary env base)) r
                \<longrightarrow> (\<exists>it\<in>set (items (todayMonitor env parsed monitorDate b)).
                       it = withRate b r \<and> matName it = lit ''N/A''))"
    if "r \<in> set parsed" "matName r = lit ''N/A''" for r
    using that not_available_key(1) by (rule downstream_of_material)
  from len rows down show ?thesis by blast
qed

theorem C10_material_default_witness:
  "fetchCSV hostIST csvDownstream = Some [recordDownstream, recordDownstreamSand]
   \<and> length (robustParseCSV csvDownstream) - 1 = 2
   \<and> cellAt (robustParseCSV csvDownstream ! Suc 0)
        (matCol (headerColumns hostIST (robustParseCSV csvDownstream)))
      = Some []
   \<and> matName recordDownstream = lit ''N/A''
   \<and> lit ''N/A'' \<in> set (materialList [recordDownstream, recordDownstreamSand])
   \<and> filteredData hostIST [recordDownstream, recordDownstreamSand] filterDownstream
      = [recordDownstream]
   \<and> map_of (materialStats [recordDownstream]) (lit ''N/A'') = Some (Num (Fin (3 / 2)))
   \<and> paretoData engineKeep [recordDownstream]
      = Inr ([\<lparr>name = lit ''N/A'', tons = Fin (3 / 2), percentage = Fin 100\<rparr>], Fin (3 / 2))
   \<and> smartParseDate hostIST (lit ''2024-01-09'') = Some 1704738600000
   \<and> withRate (Fin 36) recordDownstream
      \<in> set (items (todayMonitor hostIST [recordDownstream, recordDownstreamSand]
            (lit ''2024-01-09'') (Fin 36)))
   \<and> matName (withRate (Fin 36) recordDownstream) = lit ''N/A''"
proof -
  let ?parsed = "[recordDownstream, recordDownstreamSand]"
  note c10 = C10_material_default [OF fetchCSV_downstream]
  have cell: "cellAt (robustParseCSV csvDownstream ! Suc 0)
        (matCol (headerColumns hostIST (robustParseCSV csvDownstream))) = Some []"
    by (simp add: rows_downstream columns_downstream cellAt_def)
  have len: "length (robustParseCSV csvDownstream) - 1 = 2"
    by (simp add: rows_downstream)
  have "matName (?parsed ! 0) = lit ''N/A''"
    using c10 [THEN conjunct2, THEN conjunct1, THEN spec, of 0] cell by simp
  then have m: "matName recordDownstream = lit ''N/A''" by simp
  have d: "lit ''N/A'' \<in> set (materialList ?parsed)
          \<and> (\<forall>f. recordDownstream \<in> set (filteredData hostIST ?parsed f)
                \<longleftrightarrow> (\<exists>s e. smartParseDate hostIST (startDate f) = Some s
                      \<and> smartParseDate hostIST (endDate f) = Some e
                      \<and> inRange hostIST (startBoundary hostIST s) (endBoundary hostIST e)
                           recordDownstream
                      \<and> (material f = []
                           \<or> includesStr (toLowerCase hostIST (lit ''N/A''))
                                (toLowerCase hostIST (material f)))))
          \<and> (\<forall>f. recordDownstream \<in> set (filteredData hostIST ?parsed f) \<longrightarrow>
                lit ''N/A'' \<in> fst ` set (materialStats (filteredData hostIST ?parsed f))
                \<and> ((\<forall>x\<in>set (filteredData hostIST ?parsed f).
                        isFinite (jsDiv (weight x) (Fin 1000)))
                     \<longrightarrow>
                     map_of (materialStats (filteredData hostIST ?parsed f)) (lit ''N/A'')
                       = Some (Num (tonnageOf (lit ''N/A'') (filteredData hostIST ?parsed f)))
                     \<and> (\<forall>engine entries top10Total.
                          paretoData engine (filteredData hostIST ?parsed f)
                            = Inr (entries, top10Total)
                          \<and> (\<forall>ys. set (engine ys) = set ys \<and> length (engine ys) = length ys)
                          \<and> length (materialStats (filteredData hostIST ?parsed f)) \<le> 10
                          \<longrightarrow> (\<exists>e\<in>set entries. name e = lit ''N/A''
                                 \<and> tons e = toFixed1Parsed
                                      (tonnageOf (lit ''N/A'')
                                         (filteredData hostIST ?parsed f))))))
          \<and> (\<forall>monitorDate b base.
                smartParseDate hostIST monitorDate = Some base
                \<and> inRange hostIST (startBoundary hostIST base)
                     (nextDay hostIST (startBoundary hostIST base)) recordDownstream
                \<longrightarrow> (\<exists>it\<in>set (items (todayMonitor hostIST ?parsed monitorDate b)).
                       it = withRate b recordDownstream \<and> matName it = lit ''N/A''))"
    by (rule c10 [THEN conjunct2, THEN conjunct2, THEN bspec, THEN mp, OF _ m]) simp
  have 1: "lit ''N/A'' \<in> set (materialList ?parsed)" using d by (rule conjunct1)
  have "\<forall>x\<in>set (filteredData hostIST ?parsed filterDownstream).
          isFinite (jsDiv (weight x) (Fin 1000))"
    unfolding filtered_downstream by (simp add: recordDownstream_def toDouble_halves)
  moreover have "recordDownstream \<in> set (filteredData hostIST ?parsed filterDownstream)"
    by (simp add: filtered_downstream)
  ultimately have "map_of (materialStats (filteredData hostIST ?parsed filterDownstream))
        (lit ''N/A'')
      = Some (Num (tonnageOf (lit ''N/A'') (filteredData hostIST ?parsed filterDownstream)))"
    using d [THEN conjunct2, THEN conjunct2, THEN conjunct1, THEN spec, of filterDownstream]
    by blast
  then have 2: "map_of (materialStats [recordDownstream]) (lit ''N/A'')
      = Some (Num (Fin (3 / 2)))"
    by (simp add: filtered_downstream pareto_downstream(2))
  have "\<exists>it\<in>set (items (todayMonitor hostIST ?parsed (lit ''2024-01-09'') (Fin 36))).
          it = withRate (Fin 36) recordDownstream \<and> matName it = lit ''N/A''"
    using d [THEN conjunct2, THEN conjunct2, THEN conjunct2, THEN spec, THEN spec, THEN spec,
        of "lit ''2024-01-09''" 1704738600000 "Fin 36"]
      example_parses(1) monitor_downstream
    by blast
  then have 3: "withRate (Fin 36) recordDownstream
      \<in> set (items (todayMonitor hostIST ?parsed (lit ''2024-01-09'') (Fin 36)))"
    and 4: "matName (withRate (Fin 36) recordDownstream) = lit ''N/A''"
    by auto
  from fetchCSV_downstream len cell m 1 filtered_downstream 2
    pareto_downstream(3) [of engineKeep] example_parses(1) 3 4
  show ?thesis by (intro conjI)
qed

end
